theory Spec2Isabelle
  imports Complex_Main
begin

section \<open>Data model of the hybrid retrieval engine\<close>

text \<open>
  The embedding follows three source files: the direct-Supabase search library
  (\<^verbatim>\<open>unnamed/part_009\<close>, imported elsewhere as \<^verbatim>\<open>lib/hybridSearchVite\<close>) with
  \<^verbatim>\<open>mergeAndScore\<close> and \<^verbatim>\<open>hybridSearch\<close>; the API client \<^verbatim>\<open>src/lib/hybridSearch.js\<close> with
  \<^verbatim>\<open>weightedSearch\<close> and \<^verbatim>\<open>formatSearchResults\<close>; and the React hook
  \<^verbatim>\<open>useHybridSearch\<close> (\<^verbatim>\<open>unnamed/part_011\<close>) that debounces, cancels and publishes.
  \<^verbatim>\<open>mergeAndScore\<close> of \<^verbatim>\<open>api/hybrid-search.js\<close> is the same function.

  The scores and weights of the fusion and the cascade are modelled as reals, without
  infinities and NaN: each score expression is evaluated once, and the statements about
  it are the expression itself, so its rounding is left out (the order of two results
  whose exact scores differ by less than the rounding is therefore the model's, not
  necessarily JavaScript's).  The weights of \<^verbatim>\<open>weightedSearch\<close>, whose claim compares two
  computations, are modelled as doubles, with rounding, overflow and underflow.  Passage
  and document ids are opaque keys compared by equality, modelled as natural numbers.
\<close>

text \<open>A row as the stores return it: \<^verbatim>\<open>{id, document_id, chunk}\<close>, and \<^verbatim>\<open>similarity\<close>
  on rows of the vector store (absent, \<open>None\<close>, on full-text rows).  The field \<^verbatim>\<open>id\<close> is
  named \<open>id_of\<close> here; \<^verbatim>\<open>document_id\<close> is absent on the rows of the SQL function
  \<^verbatim>\<open>hybrid_search_document\<close>, which does not return that column.\<close>

record row =
  id_of :: nat
  document_id :: "nat option"
  chunk :: string
  similarity :: "real option"

text \<open>A scored result: the row's own fields (the object spread \<^verbatim>\<open>...result\<close>) and the
  three scores.\<close>

record scored = row +
  fts_score :: real
  vector_score :: real
  hybrid_score :: real

subsection \<open>The insertion-ordered \<^verbatim>\<open>Map\<close>\<close>

text \<open>A JavaScript \<^verbatim>\<open>Map\<close> iterates in insertion order, and \<^verbatim>\<open>set\<close> on a key that is
  present replaces the value and keeps the key's position.\<close>

type_synonym result_map = "(nat \<times> scored) list"

fun map_set :: "'k \<Rightarrow> 'v \<Rightarrow> ('k \<times> 'v) list \<Rightarrow> ('k \<times> 'v) list" where
  "map_set k v [] = [(k, v)]"
| "map_set k v (p # m) = (if fst p = k then (k, v) # m else p # map_set k v m)"

definition map_get :: "('k \<times> 'v) list \<Rightarrow> 'k \<Rightarrow> 'v option" where
  "map_get m k = map_of m k"

definition map_has :: "('k \<times> 'v) list \<Rightarrow> 'k \<Rightarrow> bool" where
  "map_has m k = (map_get m k \<noteq> None)"

definition map_values :: "('k \<times> 'v) list \<Rightarrow> 'v list" where
  "map_values m = map snd m"

section \<open>Score fusion: \<^verbatim>\<open>mergeAndScore\<close>\<close>

text \<open>\<^verbatim>\<open>Math.max(0, 1 - (index / ftsResults.length))\<close>.  It is evaluated only inside the
  \<^verbatim>\<open>forEach\<close>/\<^verbatim>\<open>map\<close> body, hence only for a non-empty list.\<close>

definition rank_score :: "nat \<Rightarrow> nat \<Rightarrow> real" where
  "rank_score index n = max 0 (1 - real index / real n)"

text \<open>\<^verbatim>\<open>result.similarity || 0\<close>: an absent (or zero) similarity gives 0.\<close>

definition similarity_or_0 :: "row \<Rightarrow> real" where
  "similarity_or_0 result = (case similarity result of None \<Rightarrow> 0 | Some s \<Rightarrow> s)"

text \<open>The object literal that seeds a full-text result: the row's fields, its rank score,
  vector score 0 and \<^verbatim>\<open>hybrid_score: ftsWeight * ftsScore\<close>.\<close>

definition fts_entry :: "real \<Rightarrow> real \<Rightarrow> row \<Rightarrow> scored" where
  "fts_entry ftsWeight ftsScore result =
     \<lparr> id_of = id_of result, document_id = document_id result, chunk = chunk result,
       similarity = similarity result,
       fts_score = ftsScore, vector_score = 0, hybrid_score = ftsWeight * ftsScore \<rparr>"

text \<open>The object literal of a vector-only result: \<^verbatim>\<open>id\<close>, \<^verbatim>\<open>document_id\<close> and
  \<^verbatim>\<open>chunk\<close> are copied (not \<^verbatim>\<open>similarity\<close>), the full-text score is 0.\<close>

definition vector_entry :: "real \<Rightarrow> real \<Rightarrow> row \<Rightarrow> scored" where
  "vector_entry vectorWeight vectorScore result =
     \<lparr> id_of = id_of result, document_id = document_id result, chunk = chunk result,
       similarity = None,
       fts_score = 0, vector_score = vectorScore,
       hybrid_score = vectorWeight * vectorScore \<rparr>"

text \<open>The body of the first \<^verbatim>\<open>forEach\<close>: seed the map with the full-text result at
  \<open>index\<close>; \<open>n\<close> is \<^verbatim>\<open>ftsResults.length\<close>.\<close>

definition fts_seed :: "real \<Rightarrow> nat \<Rightarrow> result_map \<Rightarrow> nat \<times> row \<Rightarrow> result_map" where
  "fts_seed ftsWeight n resultMap ir =
     (case ir of (index, result) \<Rightarrow>
        let ftsScore = rank_score index n
        in map_set (id_of result) (fts_entry ftsWeight ftsScore result) resultMap)"

text \<open>The body of the second \<^verbatim>\<open>forEach\<close>: merge a vector result into the entry with its
  id (the object held by the map is mutated in place), or add a vector-only entry.\<close>

definition vector_merge :: "real \<Rightarrow> real \<Rightarrow> result_map \<Rightarrow> row \<Rightarrow> result_map" where
  "vector_merge ftsWeight vectorWeight resultMap result =
     (let vectorScore = similarity_or_0 result
      in if map_has resultMap (id_of result)
         then (case map_get resultMap (id_of result) of
                 Some existing \<Rightarrow>
                   map_set (id_of result)
                     (existing\<lparr> vector_score := vectorScore,
                                hybrid_score := ftsWeight * fts_score existing
                                                + vectorWeight * vectorScore \<rparr>)
                     resultMap
               | None \<Rightarrow> resultMap)
         else map_set (id_of result) (vector_entry vectorWeight vectorScore result) resultMap)"

definition seed_upto :: "real \<Rightarrow> nat \<Rightarrow> (nat \<times> row) list \<Rightarrow> result_map" where
  "seed_upto ftsWeight n irs = foldl (fts_seed ftsWeight n) [] irs"

definition seed_phase :: "real \<Rightarrow> row list \<Rightarrow> result_map" where
  "seed_phase ftsWeight ftsResults =
     seed_upto ftsWeight (length ftsResults) (enumerate 0 ftsResults)"

definition vector_phase :: "real \<Rightarrow> real \<Rightarrow> result_map \<Rightarrow> row list \<Rightarrow> result_map" where
  "vector_phase ftsWeight vectorWeight resultMap vectorResults =
     foldl (vector_merge ftsWeight vectorWeight) resultMap vectorResults"

text \<open>\<^verbatim>\<open>.sort((a, b) => b.hybrid_score - a.hybrid_score)\<close>: the comparator is negative
  exactly when \<open>a\<close> has the larger score, so the order is descending;
  \<^verbatim>\<open>Array.prototype.sort\<close> is stable, as is the insertion sort \<^const>\<open>sort_key\<close>.\<close>

definition sort_by_hybrid :: "scored list \<Rightarrow> scored list" where
  "sort_by_hybrid rs = sort_key (\<lambda>e. - hybrid_score e) rs"

definition mergeAndScore :: "row list \<Rightarrow> row list \<Rightarrow> real \<Rightarrow> real \<Rightarrow> scored list" where
  "mergeAndScore ftsResults vectorResults ftsWeight vectorWeight =
     sort_by_hybrid
       (map_values
          (vector_phase ftsWeight vectorWeight (seed_phase ftsWeight ftsResults) vectorResults))"

text \<open>Scenario A of the specification: one full-text match (id 1) and two vector matches
  (id 1 with similarity 0.9, id 2 with similarity 0.6).\<close>

definition scenarioA_fts :: "row list" where
  "scenarioA_fts =
     [\<lparr>id_of = 1, document_id = Some 10, chunk = ''AI is...'', similarity = None\<rparr>]"

definition scenarioA_vector :: "row list" where
  "scenarioA_vector =
     [\<lparr>id_of = 1, document_id = Some 10, chunk = ''AI is...'', similarity = Some (9/10)\<rparr>,
      \<lparr>id_of = 2, document_id = Some 10, chunk = ''Machine learning'',
        similarity = Some (6/10)\<rparr>]"

subsection \<open>What the fused scores are, in terms of the two input lists\<close>

text \<open>The lexical score of passage \<open>i\<close>: the rank score of the match with
  that id in the full-text list (of the last one, should the list repeat an id, since
  \<^verbatim>\<open>Map.set\<close> overwrites), and 0 when the list has no match with that id.\<close>

definition lexical_score_of :: "row list \<Rightarrow> nat \<Rightarrow> real" where
  "lexical_score_of L i =
     (case find (\<lambda>ir. id_of (snd ir) = i) (rev (enumerate 0 L)) of
        None \<Rightarrow> 0
      | Some ir \<Rightarrow> max 0 (1 - real (fst ir) / real (length L)))"

text \<open>The vector score of passage \<open>i\<close>: the similarity of the vector match with that id
  (of the last one, should the list repeat an id), and 0 when there is none.\<close>

definition vector_score_of :: "row list \<Rightarrow> nat \<Rightarrow> real" where
  "vector_score_of V i =
     (case find (\<lambda>v. id_of v = i) (rev V) of
        None \<Rightarrow> 0
      | Some v \<Rightarrow> similarity_or_0 v)"

text \<open>The invariant of the result map: keys are distinct, every entry is stored under its
  own id and carries the weighted sum as its hybrid score.\<close>

definition entry_ok :: "real \<Rightarrow> real \<Rightarrow> nat \<Rightarrow> scored \<Rightarrow> bool" where
  "entry_ok wl wv k e \<longleftrightarrow>
     id_of e = k \<and> hybrid_score e = wl * fts_score e + wv * vector_score e"

definition map_ok :: "real \<Rightarrow> real \<Rightarrow> result_map \<Rightarrow> bool" where
  "map_ok wl wv m \<longleftrightarrow>
     distinct (map fst m) \<and> (\<forall>k e. map_of m k = Some e \<longrightarrow> entry_ok wl wv k e)"

text \<open>The in-place mutation of the merge branch, as a function of the entry.\<close>

definition remerge :: "real \<Rightarrow> real \<Rightarrow> row \<Rightarrow> scored \<Rightarrow> scored" where
  "remerge wl wv v b =
     b\<lparr>vector_score := similarity_or_0 v,
       hybrid_score := wl * fts_score b + wv * similarity_or_0 v\<rparr>"

section \<open>The collaborators of \<^verbatim>\<open>hybridSearch\<close>\<close>

text \<open>Exceptions are values: only the \<^verbatim>\<open>message\<close> of a thrown error is ever observed.\<close>

datatype js_error = JsError (message: string)

text \<open>A Supabase reply \<^verbatim>\<open>{data, error}\<close>: a truthy \<^verbatim>\<open>error\<close> (or a rejected request), or
  \<^verbatim>\<open>data\<close>, which may be \<^verbatim>\<open>null\<close>.\<close>

datatype 'a store_reply = StoreError string | StoreData "'a list option"

text \<open>What the request to the embedding service does: the \<^verbatim>\<open>fetch\<close> (or the decoding of
  its body) throws, the response is not \<^verbatim>\<open>ok\<close> (with the message taken from its body or
  status text), or it carries the embedding.\<close>

type_synonym embedding = "real list"

datatype embed_reply = FetchThrows string | ResponseNotOk string | ResponseOk embedding

text \<open>A document of the \<^verbatim>\<open>documents\<close> table.  Its \<^verbatim>\<open>content\<close> is JSON: \<^verbatim>\<open>null\<close>, a
  string, or an object with \<^verbatim>\<open>type\<close>, \<^verbatim>\<open>original_content\<close> and \<^verbatim>\<open>content\<close> (the Tiptap
  node array).  A Tiptap node has \<^verbatim>\<open>type\<close>, \<^verbatim>\<open>text\<close> and \<^verbatim>\<open>content\<close>.\<close>

datatype node = Node (node_type: string) (node_text: "string option")
                     (node_content: "node list option")

datatype doc_content =
    ContentNull
  | ContentString string
  | ContentObject (content_type: string) (original_content: "string option")
                  (content_nodes: "node list option")

record doc =
  doc_id :: nat
  title :: string
  content :: doc_content

text \<open>A row of the SQL hybrid-search functions: \<^verbatim>\<open>hybrid_score\<close> is returned by all of
  them, the other columns only by some.\<close>

record hybrid_row =
  hr_id :: nat
  hr_document_id :: "nat option"
  hr_chunk :: string
  hr_hybrid_score :: real
  hr_fts_score :: "real option"
  hr_vector_score :: "real option"

text \<open>The environment of one search: the module-level API key and the replies of the
  external services, as functions of the request.\<close>

record env =
  OPENAI_API_KEY :: "string option"
  embedding_service :: "string \<Rightarrow> embed_reply"
  text_store :: "string \<Rightarrow> nat option \<Rightarrow> int \<Rightarrow> row store_reply"
  document_store :: "nat option \<Rightarrow> int \<Rightarrow> doc store_reply"
  vector_store :: "embedding \<Rightarrow> nat option \<Rightarrow> int \<Rightarrow> row store_reply"
  hybrid_function :: "embedding \<Rightarrow> string \<Rightarrow> nat option \<Rightarrow> int \<Rightarrow> hybrid_row store_reply"

text \<open>The network calls a search issues, in order.\<close>

datatype call =
    EmbeddingRequest string
  | TextStoreQuery string "nat option" int
  | DocumentStoreQuery "nat option" int
  | VectorStoreRpc "nat option" int
  | HybridFunctionRpc string "nat option" int

text \<open>The options object; \<open>None\<close> is an absent (\<^verbatim>\<open>undefined\<close>) property, which takes the
  default of the destructuring pattern.  Document ids are non-empty UUID strings, so a
  present \<^verbatim>\<open>documentId\<close> is truthy.\<close>

record options =
  documentId :: "nat option"
  limit :: "int option"
  ftsWeight :: "real option"
  vectorWeight :: "real option"
  useSupabaseFunction :: "bool option"
  fallbackToFTSOnly :: "bool option"

text \<open>The object \<^verbatim>\<open>hybridSearch\<close> resolves to.  The error object has no \<^verbatim>\<open>method\<close>
  property (the field \<open>method_name\<close> here), the others have no \<^verbatim>\<open>error\<close> property.\<close>

record outcome =
  success :: bool
  error :: "string option"
  query :: string
  results :: "scored list"
  total :: nat
  method_name :: "string option"

subsection \<open>Strings\<close>

text \<open>Characters stand for code units below 256.  \<^verbatim>\<open>trim\<close> removes white space and
  line terminators at both ends; in this range these are tab, line feed, vertical tab,
  form feed, carriage return, space and the no-break space.\<close>

definition is_js_space :: "char \<Rightarrow> bool" where
  "is_js_space c \<longleftrightarrow> (of_char c :: nat) \<in> {9, 10, 11, 12, 13, 32, 160}"

definition trim :: "string \<Rightarrow> string" where
  "trim s = rev (dropWhile is_js_space (rev (dropWhile is_js_space s)))"

text \<open>\<^verbatim>\<open>toLowerCase\<close> on one code unit below 256: the letters \<^verbatim>\<open>A\<close> to \<^verbatim>\<open>Z\<close> (65 to 90) and
  the Latin-1 capitals (192 to 222, without the multiplication sign 215) move up by 32;
  every other code unit of this range is unchanged.\<close>

definition lower_char :: "char \<Rightarrow> char" where
  "lower_char c =
     (let n = (of_char c :: nat)
      in if (65 \<le> n \<and> n \<le> 90) \<or> (192 \<le> n \<and> n \<le> 214) \<or> (216 \<le> n \<and> n \<le> 222)
         then char_of (n + 32) else c)"

definition toLowerCase :: "string \<Rightarrow> string" where
  "toLowerCase s = map lower_char s"

text \<open>\<^verbatim>\<open>s.includes(t)\<close>: \<open>t\<close> occurs in \<open>s\<close> as a contiguous substring.\<close>

fun starts_with :: "string \<Rightarrow> string \<Rightarrow> bool" where
  "starts_with s [] = True"
| "starts_with [] (c # t) = False"
| "starts_with (d # s) (c # t) = (d = c \<and> starts_with s t)"

fun includes_js :: "string \<Rightarrow> string \<Rightarrow> bool" where
  "includes_js [] t = (t = [])"
| "includes_js (d # s) t = (starts_with (d # s) t \<or> includes_js s t)"

text \<open>\<^verbatim>\<open>results.slice(0, limit)\<close>: a negative end counts from the end of the array.\<close>

definition slice0 :: "'a list \<Rightarrow> int \<Rightarrow> 'a list" where
  "slice0 xs n = (if 0 \<le> n then take (nat n) xs else take (nat (int (length xs) + n)) xs)"

section \<open>The executors\<close>

text \<open>\<^verbatim>\<open>generateQueryEmbedding\<close>: without an API key it throws before any request; an
  error inside the \<^verbatim>\<open>try\<close> (also the one thrown for a response that is not \<^verbatim>\<open>ok\<close>) is
  rethrown with the prefix of the \<^verbatim>\<open>catch\<close> block.\<close>

definition generateQueryEmbedding :: "env \<Rightarrow> string \<Rightarrow> (js_error + embedding) \<times> call list" where
  "generateQueryEmbedding e q =
     (if OPENAI_API_KEY e = None \<or> OPENAI_API_KEY e = Some []
      then (Inl (JsError
              ''OpenAI API key not configured. Set VITE_OPENAI_API_KEY in your .env file.''), [])
      else (case embedding_service e (trim q) of
              FetchThrows msg \<Rightarrow>
                (Inl (JsError (''Failed to generate query embedding: '' @ msg)),
                 [EmbeddingRequest (trim q)])
            | ResponseNotOk msg \<Rightarrow>
                (Inl (JsError (''Failed to generate query embedding: ''
                               @ ''OpenAI API error: '' @ msg)),
                 [EmbeddingRequest (trim q)])
            | ResponseOk v \<Rightarrow> (Inr v, [EmbeddingRequest (trim q)])))"

text \<open>\<^verbatim>\<open>performFTSSearch\<close>: a store error is caught and gives no rows;
  \<^verbatim>\<open>data || []\<close>.\<close>

definition performFTSSearch :: "env \<Rightarrow> string \<Rightarrow> nat option \<Rightarrow> int \<Rightarrow> row list \<times> call list" where
  "performFTSSearch e queryText docId lmt =
     ((case text_store e queryText docId lmt of
         StoreError msg \<Rightarrow> []
       | StoreData None \<Rightarrow> []
       | StoreData (Some data) \<Rightarrow> data),
      [TextStoreQuery queryText docId lmt])"

text \<open>The recursive \<^verbatim>\<open>extractText\<close> of the document search, returning what it appends to
  \<^verbatim>\<open>textContent\<close>; an absent \<^verbatim>\<open>text\<close> is appended as the string \<^verbatim>\<open>undefined\<close>.\<close>

fun extractText :: "node \<Rightarrow> string" where
  "extractText (Node t txt kids) =
     (if t = ''text''
      then (case txt of None \<Rightarrow> ''undefined'' | Some s \<Rightarrow> s) @ '' ''
      else (case kids of None \<Rightarrow> [] | Some ks \<Rightarrow> concat (map extractText ks)))"

text \<open>The filter callback of the document search.\<close>

definition doc_matches :: "string \<Rightarrow> doc \<Rightarrow> bool" where
  "doc_matches queryText d =
     (let searchLower = toLowerCase queryText
      in if includes_js (toLowerCase (title d)) searchLower then True
         else (case content d of
                 ContentNull \<Rightarrow> False
               | ContentString s \<Rightarrow>
                   if s = [] then False else includes_js (toLowerCase s) searchLower
               | ContentObject ty orig kids \<Rightarrow>
                   let textContent =
                         (if ty = ''uploaded_file'' \<and> orig \<noteq> None \<and> orig \<noteq> Some []
                          then (case orig of Some s \<Rightarrow> s | None \<Rightarrow> [])
                          else (case kids of
                                  None \<Rightarrow> []
                                | Some ks \<Rightarrow> concat (map extractText ks)))
                   in includes_js (toLowerCase textContent) searchLower))"

text \<open>\<^verbatim>\<open>performDocumentSearch\<close>: the matching documents as rows, with the document's id as
  both \<^verbatim>\<open>id\<close> and \<^verbatim>\<open>document_id\<close> and the title as \<^verbatim>\<open>chunk\<close> (the further display
  fields of the row are not modelled).  A store error is caught and gives no rows.\<close>

definition performDocumentSearch ::
  "env \<Rightarrow> string \<Rightarrow> nat option \<Rightarrow> int \<Rightarrow> row list \<times> call list" where
  "performDocumentSearch e queryText docId lmt =
     ((case document_store e docId lmt of
         StoreError msg \<Rightarrow> []
       | StoreData data \<Rightarrow>
           let filteredResults =
                 filter (doc_matches queryText) (case data of None \<Rightarrow> [] | Some ds \<Rightarrow> ds)
           in map (\<lambda>d. \<lparr>id_of = doc_id d, document_id = Some (doc_id d), chunk = title d,
                         similarity = None\<rparr>) filteredResults),
      [DocumentStoreQuery docId lmt])"

text \<open>\<^verbatim>\<open>performVectorSearch\<close>, with the same error handling.\<close>

definition performVectorSearch ::
  "env \<Rightarrow> embedding \<Rightarrow> nat option \<Rightarrow> int \<Rightarrow> row list \<times> call list" where
  "performVectorSearch e queryEmbedding docId lmt =
     ((case vector_store e queryEmbedding docId lmt of
         StoreError msg \<Rightarrow> []
       | StoreData None \<Rightarrow> []
       | StoreData (Some data) \<Rightarrow> data),
      [VectorStoreRpc docId lmt])"

text \<open>\<^verbatim>\<open>performSupabaseHybridSearch\<close>: the rows of the SQL function, reformatted; here a
  store error is rethrown.  \<^verbatim>\<open>fts_score || 0\<close> and
  \<^verbatim>\<open>vector_score || hybrid_score || 0\<close> skip an absent or zero operand.\<close>

definition format_hybrid_row :: "hybrid_row \<Rightarrow> scored" where
  "format_hybrid_row r =
     \<lparr> id_of = hr_id r, document_id = hr_document_id r, chunk = hr_chunk r,
       similarity = None,
       fts_score = (case hr_fts_score r of None \<Rightarrow> 0 | Some s \<Rightarrow> s),
       vector_score =
         (case hr_vector_score r of
            None \<Rightarrow> hr_hybrid_score r
          | Some s \<Rightarrow> if s \<noteq> 0 then s else hr_hybrid_score r),
       hybrid_score = hr_hybrid_score r \<rparr>"

definition performSupabaseHybridSearch ::
  "env \<Rightarrow> embedding \<Rightarrow> string \<Rightarrow> options \<Rightarrow> (js_error + scored list) \<times> call list" where
  "performSupabaseHybridSearch e queryEmbedding queryText opts =
     (let docId = documentId opts;
          lmt = (case limit opts of None \<Rightarrow> 10 | Some n \<Rightarrow> n)
      in ((case hybrid_function e queryEmbedding queryText docId lmt of
             StoreError msg \<Rightarrow> Inl (JsError msg)
           | StoreData data \<Rightarrow>
               Inr (map format_hybrid_row (case data of None \<Rightarrow> [] | Some rs \<Rightarrow> rs))),
          [HybridFunctionRpc queryText docId lmt]))"

section \<open>The fallback cascade: \<^verbatim>\<open>hybridSearch\<close>\<close>

text \<open>The object of the outer \<^verbatim>\<open>catch\<close>: no \<^verbatim>\<open>method\<close> property.\<close>

definition error_outcome :: "js_error \<Rightarrow> string \<Rightarrow> outcome" where
  "error_outcome err q =
     \<lparr> success = False, error = Some (message err), query = q, results = [], total = 0,
       method_name = None \<rparr>"

text \<open>The formatting of the branch taken when the embedding failed: the rank score is both
  the full-text and the hybrid score, the vector score is 0.\<close>

definition fallback_entry :: "nat \<Rightarrow> nat \<times> row \<Rightarrow> scored" where
  "fallback_entry n ir =
     (case ir of (index, result) \<Rightarrow>
        \<lparr> id_of = id_of result, document_id = document_id result, chunk = chunk result,
          similarity = similarity result,
          fts_score = rank_score index n, vector_score = 0,
          hybrid_score = rank_score index n \<rparr>)"

text \<open>The body of the \<^verbatim>\<open>catch (embeddingError)\<close> block after the
  \<^verbatim>\<open>fallbackToFTSOnly\<close> check: full-text search, then the document search if it found
  nothing.  The method label tests the final list.\<close>

definition fts_only_search ::
  "env \<Rightarrow> string \<Rightarrow> nat option \<Rightarrow> int \<Rightarrow> outcome \<times> call list" where
  "fts_only_search e q docId lmt =
     (let (ftsResults0, tr1) = performFTSSearch e q docId lmt;
          (ftsResults, tr2) =
             (if length ftsResults0 = 0 then performDocumentSearch e q docId lmt
              else (ftsResults0, []));
          formattedResults = map (fallback_entry (length ftsResults)) (enumerate 0 ftsResults)
      in (\<lparr> success = True, error = None, query = q, results = formattedResults,
            total = length formattedResults,
            method_name = Some (if length ftsResults > 0 then ''document_search_fallback''
                           else ''no_results_found'') \<rparr>,
          tr1 @ tr2))"

text \<open>The body of \<^verbatim>\<open>if (!useSupabaseFunction)\<close>: full-text search with twice the limit,
  the document search if it found nothing, then the vector search, fusion and truncation.\<close>

definition javascript_merge ::
  "env \<Rightarrow> string \<Rightarrow> embedding \<Rightarrow> nat option \<Rightarrow> int \<Rightarrow> real \<Rightarrow> real \<Rightarrow> outcome \<times> call list" where
  "javascript_merge e q queryEmbedding docId lmt ftsW vectorW =
     (let (ftsResults0, tr1) = performFTSSearch e q docId (lmt * 2);
          (ftsResults, tr2) =
             (if length ftsResults0 = 0 then performDocumentSearch e q docId (lmt * 2)
              else (ftsResults0, []));
          (vectorResults, tr3) = performVectorSearch e queryEmbedding docId (lmt * 2);
          mergedResults = mergeAndScore ftsResults vectorResults ftsW vectorW;
          rs = slice0 mergedResults lmt
      in (\<lparr> success = True, error = None, query = q, results = rs, total = length rs,
            method_name = Some ''javascript_merge'' \<rparr>,
          tr1 @ tr2 @ tr3))"

text \<open>The destructuring of the options object, with its defaults.\<close>

definition limit_of :: "options \<Rightarrow> int" where
  "limit_of opts = (case limit opts of None \<Rightarrow> 10 | Some n \<Rightarrow> n)"

definition ftsWeight_of :: "options \<Rightarrow> real" where
  "ftsWeight_of opts = (case ftsWeight opts of None \<Rightarrow> 1/2 | Some w \<Rightarrow> w)"

definition vectorWeight_of :: "options \<Rightarrow> real" where
  "vectorWeight_of opts = (case vectorWeight opts of None \<Rightarrow> 1/2 | Some w \<Rightarrow> w)"

definition useSupabaseFunction_of :: "options \<Rightarrow> bool" where
  "useSupabaseFunction_of opts =
     (case useSupabaseFunction opts of None \<Rightarrow> True | Some b \<Rightarrow> b)"

definition fallbackToFTSOnly_of :: "options \<Rightarrow> bool" where
  "fallbackToFTSOnly_of opts =
     (case fallbackToFTSOnly opts of None \<Rightarrow> True | Some b \<Rightarrow> b)"

text \<open>The object returned for an empty query.\<close>

definition empty_query_outcome :: outcome where
  "empty_query_outcome =
     \<lparr> success = True, error = None, query = [], results = [], total = 0,
       method_name = Some ''empty_query'' \<rparr>"

text \<open>\<^verbatim>\<open>hybridSearch\<close>.  In the \<^verbatim>\<open>catch\<close> of the Supabase-function attempt the
  statement \<^verbatim>\<open>useSupabaseFunction = false\<close> assigns to a \<^verbatim>\<open>const\<close> binding: it throws
  a \<^verbatim>\<open>TypeError\<close>, which the outer \<^verbatim>\<open>catch\<close> turns into the error object (the
  message is the engine's; V8's is used here).  The JavaScript merge therefore runs only
  when the caller passes \<^verbatim>\<open>useSupabaseFunction: false\<close>.\<close>

definition hybridSearch :: "env \<Rightarrow> string \<Rightarrow> options \<Rightarrow> outcome \<times> call list" where
  "hybridSearch e q opts =
     (if q = [] \<or> length (trim q) = 0 then (empty_query_outcome, [])
      else (case generateQueryEmbedding e q of
              (Inl embeddingError, tr0) \<Rightarrow>
                if \<not> fallbackToFTSOnly_of opts then (error_outcome embeddingError q, tr0)
                else (let (out, tr) = fts_only_search e q (documentId opts) (limit_of opts)
                      in (out, tr0 @ tr))
            | (Inr queryEmbedding, tr0) \<Rightarrow>
                if useSupabaseFunction_of opts
                then (case performSupabaseHybridSearch e queryEmbedding q opts of
                        (Inr rs0, tr1) \<Rightarrow>
                          (let rs = slice0 rs0 (limit_of opts)
                           in (\<lparr> success = True, error = None, query = q, results = rs,
                                 total = length rs,
                                 method_name = Some ''supabase_function'' \<rparr>, tr0 @ tr1))
                      | (Inl err, tr1) \<Rightarrow>
                          (error_outcome (JsError ''Assignment to constant variable.'') q,
                           tr0 @ tr1))
                else (let (out, tr) =
                            javascript_merge e q queryEmbedding (documentId opts)
                              (limit_of opts) (ftsWeight_of opts) (vectorWeight_of opts)
                      in (out, tr0 @ tr))))"

text \<open>The store calls of the two paths that run the full-text search: the document
  search follows exactly when the full-text search returned nothing.\<close>

definition fallback_calls :: "env \<Rightarrow> string \<Rightarrow> options \<Rightarrow> call list" where
  "fallback_calls e q opts =
     TextStoreQuery q (documentId opts) (limit_of opts) #
       (if fst (performFTSSearch e q (documentId opts) (limit_of opts)) = []
        then [DocumentStoreQuery (documentId opts) (limit_of opts)] else [])"

definition merge_calls :: "env \<Rightarrow> string \<Rightarrow> options \<Rightarrow> call list" where
  "merge_calls e q opts =
     TextStoreQuery q (documentId opts) (limit_of opts * 2) #
       (if fst (performFTSSearch e q (documentId opts) (limit_of opts * 2)) = []
        then [DocumentStoreQuery (documentId opts) (limit_of opts * 2)] else [])
       @ [VectorStoreRpc (documentId opts) (limit_of opts * 2)]"

section \<open>The API client: \<^verbatim>\<open>weightedSearch\<close>\<close>

subsection \<open>JavaScript numbers\<close>

text \<open>
  A JavaScript number is an IEEE-754 double: a finite value, an infinity or NaN.  Every
  arithmetic operation yields the exact result rounded to the nearest double, ties to the
  even mantissa; a result that rounds to \<open>2\<^sup>1\<^sup>0\<^sup>2\<^sup>4\<close> or beyond is an infinity, and below
  \<open>2\<^sup>-\<^sup>1\<^sup>0\<^sup>2\<^sup>2\<close> the doubles are \<open>2\<^sup>-\<^sup>1\<^sup>0\<^sup>7\<^sup>4\<close> apart (the subnormal numbers, down to 0).
  \<^verbatim>\<open>weightedSearch\<close> is compared with itself on scaled arguments, where the rounding
  decides, so its numbers are modelled as doubles.  The sign of zero is not modelled
  (\<^verbatim>\<open>0\<close> and \<^verbatim>\<open>-0\<close> are one value): \<^verbatim>\<open>weightedSearch\<close> never divides by zero, and the two
  are equal under \<^verbatim>\<open>>\<close> and in the JSON body of the request.
\<close>

datatype js_number = Num real | PosInf | NegInf | NaN

definition pow2 :: "int \<Rightarrow> real" where
  "pow2 e = (if 0 \<le> e then 2 ^ nat e else 1 / 2 ^ nat (- e))"

text \<open>The nearest integer, ties to even.\<close>

definition round_half_even :: "real \<Rightarrow> int" where
  "round_half_even x =
     (let f = \<lfloor>x\<rfloor>; d = x - of_int f
      in if d < 1/2 then f else if d > 1/2 then f + 1 else if even f then f else f + 1)"

text \<open>The binary exponent \<open>e\<close> of \<open>x\<close>, with \<open>2\<^sup>e \<le> x < 2\<^sup>e\<^sup>+\<^sup>1\<close>, by bisection of the interval from
  \<open>lo\<close> to \<open>hi\<close>; eleven halvings exhaust the exponent range of the doubles.\<close>

fun find_exponent :: "nat \<Rightarrow> real \<Rightarrow> int \<Rightarrow> int \<Rightarrow> int" where
  "find_exponent 0 x lo hi = lo"
| "find_exponent (Suc fuel) x lo hi =
     (if hi \<le> lo + 1 then lo
      else (let mid = (lo + hi) div 2
            in if pow2 mid \<le> x then find_exponent fuel x mid hi
               else find_exponent fuel x lo mid))"

text \<open>The exponent that fixes the spacing of the doubles around a positive \<open>x\<close>: the binary
  exponent of \<open>x\<close>, but \<open>-1022\<close> throughout the subnormal range.\<close>

definition double_exponent :: "real \<Rightarrow> int" where
  "double_exponent x =
     (if x < pow2 (- 1022) then - 1022
      else if pow2 1024 \<le> x then 1024
      else find_exponent 11 x (- 1022) 1024)"

text \<open>Rounding a real to a double: the magnitude is rounded to a multiple of the spacing
  \<open>ulp\<close> (53 significant bits in the normal range), and overflows to an infinity when the
  rounded magnitude reaches \<open>2\<^sup>1\<^sup>0\<^sup>2\<^sup>4\<close>.\<close>

definition to_double :: "real \<Rightarrow> js_number" where
  "to_double x =
     (if x = 0 then Num 0
      else (let ulp = pow2 (double_exponent \<bar>x\<bar> - 52);
                y = of_int (round_half_even (\<bar>x\<bar> / ulp)) * ulp
            in if pow2 1024 \<le> y then (if 0 < x then PosInf else NegInf)
               else Num (sgn x * y)))"

text \<open>The operators \<^verbatim>\<open>+\<close>, \<^verbatim>\<open>*\<close>, \<^verbatim>\<open>/\<close> and \<^verbatim>\<open>>\<close> on numbers.\<close>

fun js_add :: "js_number \<Rightarrow> js_number \<Rightarrow> js_number" where
  "js_add (Num x) (Num y) = to_double (x + y)"
| "js_add NaN b = NaN"
| "js_add a NaN = NaN"
| "js_add PosInf NegInf = NaN"
| "js_add NegInf PosInf = NaN"
| "js_add PosInf b = PosInf"
| "js_add a PosInf = PosInf"
| "js_add NegInf b = NegInf"
| "js_add a NegInf = NegInf"

fun js_mul :: "js_number \<Rightarrow> js_number \<Rightarrow> js_number" where
  "js_mul (Num x) (Num y) = to_double (x * y)"
| "js_mul NaN b = NaN"
| "js_mul a NaN = NaN"
| "js_mul PosInf (Num y) = (if y = 0 then NaN else if 0 < y then PosInf else NegInf)"
| "js_mul NegInf (Num y) = (if y = 0 then NaN else if 0 < y then NegInf else PosInf)"
| "js_mul (Num x) PosInf = (if x = 0 then NaN else if 0 < x then PosInf else NegInf)"
| "js_mul (Num x) NegInf = (if x = 0 then NaN else if 0 < x then NegInf else PosInf)"
| "js_mul PosInf PosInf = PosInf"
| "js_mul PosInf NegInf = NegInf"
| "js_mul NegInf PosInf = NegInf"
| "js_mul NegInf NegInf = PosInf"

text \<open>Division; a zero divisor is taken as \<^verbatim>\<open>+0\<close>.\<close>

fun js_div :: "js_number \<Rightarrow> js_number \<Rightarrow> js_number" where
  "js_div (Num x) (Num y) =
     (if y = 0 then (if x = 0 then NaN else if 0 < x then PosInf else NegInf)
      else to_double (x / y))"
| "js_div NaN b = NaN"
| "js_div a NaN = NaN"
| "js_div (Num x) PosInf = Num 0"
| "js_div (Num x) NegInf = Num 0"
| "js_div PosInf (Num y) = (if 0 \<le> y then PosInf else NegInf)"
| "js_div NegInf (Num y) = (if 0 \<le> y then NegInf else PosInf)"
| "js_div PosInf b = NaN"
| "js_div NegInf b = NaN"

fun js_gt :: "js_number \<Rightarrow> js_number \<Rightarrow> bool" where
  "js_gt (Num x) (Num y) = (y < x)"
| "js_gt NaN b = False"
| "js_gt a NaN = False"
| "js_gt PosInf PosInf = False"
| "js_gt PosInf b = True"
| "js_gt NegInf b = False"
| "js_gt (Num x) NegInf = True"
| "js_gt (Num x) PosInf = False"

subsection \<open>\<^verbatim>\<open>weightedSearch\<close>\<close>

text \<open>\<^verbatim>\<open>weightedSearch\<close> of the API client normalises the two weights and passes them on
  in the options of the \<^verbatim>\<open>hybridSearch\<close> call it returns (\<^verbatim>\<open>{...options, ftsWeight:
  normalizedFTS, vectorWeight: normalizedVector}\<close>).  The call it issues is given by the
  query, the caller's options object \<open>opts\<close> (any weights of its own are overridden) and
  the two weights that override:\<close>

definition weightedSearch_call ::
  "string \<Rightarrow> js_number \<Rightarrow> js_number \<Rightarrow> 'o \<Rightarrow> string \<times> 'o \<times> js_number \<times> js_number" where
  "weightedSearch_call q ftsW vectorW opts =
     (let totalWeight = js_add ftsW vectorW;
          normalizedFTS =
            (if js_gt totalWeight (Num 0) then js_div ftsW totalWeight else Num (1/2));
          normalizedVector =
            (if js_gt totalWeight (Num 0) then js_div vectorW totalWeight else Num (1/2))
      in (q, opts, normalizedFTS, normalizedVector))"

text \<open>\<^verbatim>\<open>weightedSearch\<close> itself, over any \<^verbatim>\<open>hybridSearch\<close>.\<close>

definition weightedSearch ::
  "(string \<Rightarrow> 'o \<Rightarrow> js_number \<Rightarrow> js_number \<Rightarrow> 'r) \<Rightarrow>
   string \<Rightarrow> js_number \<Rightarrow> js_number \<Rightarrow> 'o \<Rightarrow> 'r" where
  "weightedSearch search q ftsW vectorW opts =
     (case weightedSearch_call q ftsW vectorW opts of
        (q', opts', normalizedFTS, normalizedVector) \<Rightarrow>
          search q' opts' normalizedFTS normalizedVector)"

text \<open>The largest double, \<open>2\<^sup>1\<^sup>0\<^sup>2\<^sup>4 - 2\<^sup>9\<^sup>7\<^sup>1\<close>; the reals of the normal range, whose magnitude
  lies between the smallest normal double and the largest double; the reals that are
  doubles; and the reals \<open>x\<close> for which neither \<open>x\<close> nor \<open>2\<^sup>n * x\<close> leaves the normal range,
  so that scaling by \<open>2\<^sup>n\<close> neither overflows nor underflows.\<close>

definition max_double :: real where
  "max_double = pow2 1024 - pow2 971"

definition in_normal_range :: "real \<Rightarrow> bool" where
  "in_normal_range x \<longleftrightarrow> pow2 (- 1022) \<le> \<bar>x\<bar> \<and> \<bar>x\<bar> \<le> max_double"

definition is_double :: "real \<Rightarrow> bool" where
  "is_double x \<longleftrightarrow> to_double x = Num x"

definition scales_exactly :: "int \<Rightarrow> real \<Rightarrow> bool" where
  "scales_exactly n x \<longleftrightarrow>
     x = 0 \<or> (in_normal_range x \<and> in_normal_range (pow2 n * x))"


section \<open>The search session: the hook \<^verbatim>\<open>useHybridSearch\<close>\<close>

text \<open>\<^verbatim>\<open>formatSearchResults\<close> of the API client, which the hook imports.  \<^verbatim>\<open>a || b\<close> on
  numbers skips a zero or absent \<open>a\<close>.  The fields \<^verbatim>\<open>id\<close>, \<^verbatim>\<open>documentId\<close> and \<^verbatim>\<open>text\<close> are
  named \<open>fmt_id\<close>, \<open>fmt_documentId\<close> and \<open>fmt_text\<close> here.\<close>

record formatted =
  fmt_id :: nat
  fmt_documentId :: "nat option"
  fmt_text :: string
  score :: real
  ftsScore :: real
  vectorScore :: real
  preview :: string

definition formatSearchResult :: "scored \<Rightarrow> formatted" where
  "formatSearchResult r =
     \<lparr> fmt_id = id_of r, fmt_documentId = document_id r, fmt_text = chunk r,
       score = (if hybrid_score r \<noteq> 0 then hybrid_score r
                else (case similarity r of None \<Rightarrow> 0 | Some s \<Rightarrow> s)),
       ftsScore = fts_score r,
       vectorScore = (if vector_score r \<noteq> 0 then vector_score r
                      else (case similarity r of None \<Rightarrow> 0 | Some s \<Rightarrow> s)),
       preview = (if length (chunk r) > 200 then take 200 (chunk r) @ ''...'' else chunk r) \<rparr>"

definition formatSearchResults :: "scored list \<Rightarrow> formatted list" where
  "formatSearchResults rs = map formatSearchResult rs"

text \<open>The options of the hook and the published statistics (\<^verbatim>\<open>total\<close>, \<^verbatim>\<open>method\<close>,
  \<^verbatim>\<open>duration\<close>).\<close>

record hook_config =
  debounceMs :: nat
  defaultLimit :: int
  defaultFtsWeight :: real
  defaultVectorWeight :: real

definition default_config :: hook_config where
  "default_config =
     \<lparr> debounceMs = 300, defaultLimit = 10, defaultFtsWeight = 1/2,
       defaultVectorWeight = 1/2 \<rparr>"

record stats =
  stat_total :: nat
  stat_method :: "string option"
  stat_duration :: int

definition no_stats :: stats where
  "no_stats = \<lparr> stat_total = 0, stat_method = None, stat_duration = 0 \<rparr>"

text \<open>What a suspended \<^verbatim>\<open>performSearch\<close> keeps across its \<^verbatim>\<open>await\<close>: the query, the
  start time and the parameters of the \<^verbatim>\<open>hybridSearch\<close> call it issued.\<close>

record attempt =
  att_query :: string
  att_startTime :: nat
  att_params :: options

text \<open>
  The state of the hook and of the runtime around it.  The five React state variables
  are the published state.  The two refs hold a timer id and a reference to an
  \<^verbatim>\<open>AbortController\<close>; the controllers live in a store, addressed by their index, that
  records whether each was aborted.  \<open>timers\<close> are the pending timeouts (id, due time and
  the arguments of the delayed \<^verbatim>\<open>performSearch\<close>); \<open>searches\<close> lists the
  \<^verbatim>\<open>hybridSearch\<close> calls issued, \<open>awaiting\<close> the numbers of those whose continuation has
  not run yet, and \<open>performSearch_log\<close> the arguments of every \<^verbatim>\<open>performSearch\<close> call.
\<close>

record hook =
  isSearching :: bool
  searchResults :: "formatted list"
  searchQuery :: string
  searchError :: "string option"
  searchStats :: stats
  debounceTimeoutRef :: "nat option"
  searchAbortControllerRef :: "nat option"
  controllers :: "bool list"
  timers :: "(nat \<times> nat \<times> string \<times> options) list"
  next_timer :: nat
  searches :: "attempt list"
  awaiting :: "nat list"
  performSearch_log :: "(string \<times> options) list"

definition init_hook :: hook where
  "init_hook =
     \<lparr> isSearching = False, searchResults = [], searchQuery = [], searchError = None,
       searchStats = no_stats, debounceTimeoutRef = None, searchAbortControllerRef = None,
       controllers = [], timers = [], next_timer = 1, searches = [], awaiting = [],
       performSearch_log = [] \<rparr>"

text \<open>\<^verbatim>\<open>if (searchAbortControllerRef.current) searchAbortControllerRef.current.abort()\<close>.\<close>

definition abort_current :: "hook \<Rightarrow> hook" where
  "abort_current h =
     (case searchAbortControllerRef h of
        None \<Rightarrow> h
      | Some c \<Rightarrow> h\<lparr> controllers := (controllers h)[c := True] \<rparr>)"

text \<open>\<^verbatim>\<open>searchAbortControllerRef.current?.signal.aborted\<close>: the flag of the controller the
  ref holds now; \<^verbatim>\<open>undefined\<close> (falsy) when the ref is \<^verbatim>\<open>null\<close>.\<close>

definition current_aborted :: "hook \<Rightarrow> bool" where
  "current_aborted h =
     (case searchAbortControllerRef h of
        None \<Rightarrow> False
      | Some c \<Rightarrow> c < length (controllers h) \<and> controllers h ! c)"

text \<open>\<^verbatim>\<open>{limit: defaultLimit, ftsWeight: defaultFtsWeight, vectorWeight: defaultVectorWeight,
  ...searchOptions}\<close>.\<close>

definition searchParams :: "hook_config \<Rightarrow> options \<Rightarrow> options" where
  "searchParams cfg searchOptions =
     searchOptions
       \<lparr> limit := (case limit searchOptions of
                     None \<Rightarrow> Some (defaultLimit cfg) | Some n \<Rightarrow> Some n),
         ftsWeight := (case ftsWeight searchOptions of
                         None \<Rightarrow> Some (defaultFtsWeight cfg) | Some w \<Rightarrow> Some w),
         vectorWeight := (case vectorWeight searchOptions of
                            None \<Rightarrow> Some (defaultVectorWeight cfg) | Some w \<Rightarrow> Some w) \<rparr>"

text \<open>\<^verbatim>\<open>performSearch\<close> up to its \<^verbatim>\<open>await\<close>, at time \<open>now\<close>: a blank query clears the
  results and returns; otherwise the controller in the ref is aborted and replaced by a
  new one, and \<^verbatim>\<open>hybridSearch\<close> is called.\<close>

definition performSearch_begin :: "hook_config \<Rightarrow> nat \<Rightarrow> string \<Rightarrow> options \<Rightarrow> hook \<Rightarrow> hook" where
  "performSearch_begin cfg now q searchOptions h =
     (let h0 = h\<lparr> performSearch_log := performSearch_log h @ [(q, searchOptions)] \<rparr>
      in if q = [] \<or> length (trim q) = 0
         then h0\<lparr> searchResults := [], searchStats := no_stats \<rparr>
         else (let h1 = abort_current h0;
                   c = length (controllers h1);
                   h2 = h1\<lparr> controllers := controllers h1 @ [False],
                           searchAbortControllerRef := Some c \<rparr>;
                   h3 = h2\<lparr> isSearching := True, searchError := None \<rparr>;
                   a = \<lparr> att_query = q, att_startTime = now,
                         att_params = searchParams cfg searchOptions \<rparr>
               in h3\<lparr> searches := searches h3 @ [a],
                       awaiting := awaiting h3 @ [length (searches h3)] \<rparr>))"

text \<open>The rest of \<^verbatim>\<open>performSearch\<close>, run at time \<open>now\<close> when the \<^verbatim>\<open>hybridSearch\<close> call
  number \<open>k\<close> resolves to \<open>result\<close>.  The \<^verbatim>\<open>finally\<close> block runs on every path, also
  on the early \<^verbatim>\<open>return\<close>.  Nothing here throws an \<^verbatim>\<open>AbortError\<close>: the signal is never
  passed to \<^verbatim>\<open>hybridSearch\<close>.  (Only a call that is still awaited can resolve.)\<close>

definition performSearch_resume :: "nat \<Rightarrow> nat \<Rightarrow> outcome \<Rightarrow> hook \<Rightarrow> hook" where
  "performSearch_resume now k result h =
     (if k \<in> set (awaiting h) \<and> k < length (searches h)
      then (let a = searches h ! k;
                h0 = h\<lparr> awaiting := removeAll k (awaiting h) \<rparr>;
                h1 = (if current_aborted h0 then h0
                      else if success result
                      then h0\<lparr> searchResults := formatSearchResults (results result),
                              searchStats :=
                                \<lparr> stat_total = total result,
                                  stat_method = method_name result,
                                  stat_duration = int now - int (att_startTime a) \<rparr>,
                              searchQuery := att_query a \<rparr>
                      else h0\<lparr> searchError :=
                                Some (case error result of
                                        None \<Rightarrow> ''Search failed''
                                      | Some msg \<Rightarrow>
                                          if msg = [] then ''Search failed'' else msg),
                              searchResults := [],
                              searchStats := no_stats \<rparr>)
            in h1\<lparr> isSearching := False, searchAbortControllerRef := None \<rparr>)
      else h)"

text \<open>\<^verbatim>\<open>clearTimeout\<close> and the three entry points \<^verbatim>\<open>search\<close> (debounced),
  \<^verbatim>\<open>searchNow\<close> and \<^verbatim>\<open>clearSearch\<close>.  Timer ids are positive, so a ref that holds one is
  truthy.\<close>

definition clearTimeout :: "nat \<Rightarrow> hook \<Rightarrow> hook" where
  "clearTimeout t h = h\<lparr> timers := filter (\<lambda>p. fst p \<noteq> t) (timers h) \<rparr>"

definition clear_debounce :: "hook \<Rightarrow> hook" where
  "clear_debounce h =
     (case debounceTimeoutRef h of None \<Rightarrow> h | Some t \<Rightarrow> clearTimeout t h)"

definition debouncedSearch :: "hook_config \<Rightarrow> nat \<Rightarrow> string \<Rightarrow> options \<Rightarrow> hook \<Rightarrow> hook" where
  "debouncedSearch cfg now q searchOptions h =
     (let h1 = clear_debounce h;
          t = next_timer h1
      in h1\<lparr> timers := timers h1 @ [(t, now + debounceMs cfg, q, searchOptions)],
              next_timer := Suc t,
              debounceTimeoutRef := Some t \<rparr>)"

definition searchNow :: "hook_config \<Rightarrow> nat \<Rightarrow> string \<Rightarrow> options \<Rightarrow> hook \<Rightarrow> hook" where
  "searchNow cfg now q searchOptions h =
     performSearch_begin cfg now q searchOptions (clear_debounce h)"

definition clearSearch :: "hook \<Rightarrow> hook" where
  "clearSearch h =
     (clear_debounce (abort_current h))
       \<lparr> searchResults := [], searchQuery := [], searchError := None,
         searchStats := no_stats, isSearching := False \<rparr>"

subsection \<open>The event loop\<close>

text \<open>A timeout that fires removes itself and runs its callback, the delayed
  \<^verbatim>\<open>performSearch\<close>, at its due time.\<close>

definition fire :: "hook_config \<Rightarrow> hook \<Rightarrow> nat \<times> nat \<times> string \<times> options \<Rightarrow> hook" where
  "fire cfg h p =
     (case p of (t, due, q, searchOptions) \<Rightarrow>
        performSearch_begin cfg due q searchOptions (clearTimeout t h))"

text \<open>All timeouts due by \<open>now\<close> fire, the earliest first.  (The callbacks of this hook
  neither set nor clear timeouts.)\<close>

definition fire_due :: "hook_config \<Rightarrow> nat \<Rightarrow> hook \<Rightarrow> hook" where
  "fire_due cfg now h =
     foldl (fire cfg) h
       (sort_key (\<lambda>p. fst (snd p)) (filter (\<lambda>p. fst (snd p) \<le> now) (timers h)))"

text \<open>What can happen to the hook: the caller invokes \<^verbatim>\<open>search\<close>, \<^verbatim>\<open>searchNow\<close> or
  \<^verbatim>\<open>clearSearch\<close>, a pending \<^verbatim>\<open>hybridSearch\<close> call resolves, or time just passes.  Every
  event carries its time; the timeouts due by then fire first.\<close>

datatype event =
    Search string options
  | SearchNow string options
  | ClearSearch
  | Resolve nat outcome
  | Idle

definition step :: "hook_config \<Rightarrow> hook \<Rightarrow> nat \<times> event \<Rightarrow> hook" where
  "step cfg h te =
     (case te of (now, ev) \<Rightarrow>
        let h' = fire_due cfg now h
        in (case ev of
              Search q searchOptions \<Rightarrow> debouncedSearch cfg now q searchOptions h'
            | SearchNow q searchOptions \<Rightarrow> searchNow cfg now q searchOptions h'
            | ClearSearch \<Rightarrow> clearSearch h'
            | Resolve k result \<Rightarrow> performSearch_resume now k result h'
            | Idle \<Rightarrow> h'))"

definition run :: "hook_config \<Rightarrow> (nat \<times> event) list \<Rightarrow> hook \<Rightarrow> hook" where
  "run cfg evs h = foldl (step cfg) h evs"

text \<open>A burst of debounced \<^verbatim>\<open>search\<close> calls \<open>(time, query, options)\<close>: the times do not
  decrease and each call comes less than \<open>debounceMs\<close> after the one before.\<close>

fun within_window :: "nat \<Rightarrow> (nat \<times> string \<times> options) list \<Rightarrow> bool" where
  "within_window d [] = True"
| "within_window d [c] = True"
| "within_window d (c # c' # cs) =
     (fst c \<le> fst c' \<and> fst c' < fst c + d \<and> within_window d (c' # cs))"

definition search_events :: "(nat \<times> string \<times> options) list \<Rightarrow> (nat \<times> event) list" where
  "search_events calls = map (\<lambda>c. (fst c, Search (fst (snd c)) (snd (snd c)))) calls"

text \<open>The state between two calls of a burst: exactly one timeout is pending, the one of
  the latest call \<open>c\<close>, and the ref holds its id.\<close>

definition one_pending :: "hook_config \<Rightarrow> hook \<Rightarrow> nat \<times> string \<times> options \<Rightarrow> bool" where
  "one_pending cfg h c \<longleftrightarrow>
     (\<exists>t. timers h = [(t, fst c + debounceMs cfg, fst (snd c), snd (snd c))]
          \<and> debounceTimeoutRef h = Some t)"

section \<open>Concrete inputs\<close>

definition no_options :: options where
  "no_options =
     \<lparr> documentId = None, limit = None, ftsWeight = None, vectorWeight = None,
       useSupabaseFunction = None, fallbackToFTSOnly = None \<rparr>"

definition two_fts_rows :: "row list" where
  "two_fts_rows =
     [\<lparr>id_of = 1, document_id = Some 10, chunk = ''AI is the study of agents'',
        similarity = None\<rparr>,
      \<lparr>id_of = 2, document_id = Some 10, chunk = ''Early AI research'', similarity = None\<rparr>]"

text \<open>No API key is configured; the text store finds two passages.\<close>

definition env_no_key :: env where
  "env_no_key =
     \<lparr> OPENAI_API_KEY = None,
       embedding_service = (\<lambda>input. FetchThrows ''Failed to fetch''),
       text_store = (\<lambda>queryText docId n. StoreData (Some two_fts_rows)),
       document_store = (\<lambda>docId n. StoreData (Some [])),
       vector_store = (\<lambda>v docId n. StoreData (Some [])),
       hybrid_function = (\<lambda>v queryText docId n. StoreData (Some [])) \<rparr>"

text \<open>No API key is configured, and neither the text store nor the document directory
  finds anything.\<close>

definition env_nothing :: env where
  "env_nothing = env_no_key\<lparr> text_store := (\<lambda>queryText docId n. StoreData (Some [])) \<rparr>"

text \<open>The embedding service answers; the text store finds nothing, the document
  directory has a document whose title contains the query, and the vector store finds
  one passage.\<close>

definition env_title_and_vector :: env where
  "env_title_and_vector =
     \<lparr> OPENAI_API_KEY = Some ''sk-test'',
       embedding_service = (\<lambda>input. ResponseOk [1, 0]),
       text_store = (\<lambda>queryText docId n. StoreData (Some [])),
       document_store =
         (\<lambda>docId n. StoreData (Some [\<lparr>doc_id = 7, title = ''Notes on AI'',
                                        content = ContentNull\<rparr>])),
       vector_store =
         (\<lambda>v docId n. StoreData (Some [\<lparr>id_of = 1, document_id = Some 10,
                                          chunk = ''AI is the study of agents'',
                                          similarity = Some (9/10)\<rparr>])),
       hybrid_function = (\<lambda>v queryText docId n. StoreData (Some [])) \<rparr>"

text \<open>The same stores, but no API key is configured.\<close>

definition env_title_only :: env where
  "env_title_only = env_title_and_vector\<lparr> OPENAI_API_KEY := None \<rparr>"

definition merge_options :: options where
  "merge_options = no_options\<lparr> useSupabaseFunction := Some False \<rparr>"

definition half_weights :: options where
  "half_weights = no_options\<lparr> ftsWeight := Some (1/2), vectorWeight := Some (1/2) \<rparr>"

definition no_fallback_options :: options where
  "no_fallback_options = no_options\<lparr> fallbackToFTSOnly := Some False \<rparr>"

text \<open>Two outcomes a \<^verbatim>\<open>hybridSearch\<close> call may resolve to, for the queries \<^verbatim>\<open>alpha\<close> and
  \<^verbatim>\<open>beta\<close>.\<close>

definition outcome_alpha :: outcome where
  "outcome_alpha =
     \<lparr> success = True, error = None, query = ''alpha'',
       results = [\<lparr>id_of = 1, document_id = Some 10, chunk = ''alpha passage'',
                   similarity = None, fts_score = 1, vector_score = 0,
                   hybrid_score = 1/2\<rparr>],
       total = 1, method_name = Some ''javascript_merge'' \<rparr>"

definition outcome_beta :: outcome where
  "outcome_beta =
     \<lparr> success = True, error = None, query = ''beta'',
       results = [\<lparr>id_of = 2, document_id = Some 20, chunk = ''beta passage'',
                   similarity = None, fts_score = 1, vector_score = 0,
                   hybrid_score = 1/2\<rparr>],
       total = 1, method_name = Some ''javascript_merge'' \<rparr>"

text \<open>Search \<^verbatim>\<open>alpha\<close> is submitted, then search \<^verbatim>\<open>beta\<close> before \<^verbatim>\<open>alpha\<close> has
  resolved; \<^verbatim>\<open>beta\<close> resolves first, \<^verbatim>\<open>alpha\<close> after it.\<close>

definition superseded_run :: "(nat \<times> event) list" where
  "superseded_run =
     [(0, SearchNow ''alpha'' no_options),
      (10, SearchNow ''beta'' no_options),
      (50, Resolve 1 outcome_beta),
      (60, Resolve 0 outcome_alpha)]"


section \<open>Properties of the score fusion\<close>

subsection \<open>The ordered map\<close>

lemma map_of_map_set: "map_of (map_set k v m) = (map_of m)(k \<mapsto> v)"
  by (induction m) (auto simp: fun_eq_iff)

lemma map_set_absent: "k \<notin> fst ` set m \<Longrightarrow> map_set k v m = m @ [(k, v)]"
  by (induction m) auto

lemma keys_map_set_present: "k \<in> fst ` set m \<Longrightarrow> map fst (map_set k v m) = map fst m"
  by (induction m) auto

lemma keys_map_set:
  "map fst (map_set k v m) = (if k \<in> fst ` set m then map fst m else map fst m @ [k])"
  by (simp add: keys_map_set_present map_set_absent)

lemma distinct_map_set: "distinct (map fst m) \<Longrightarrow> distinct (map fst (map_set k v m))"
  by (simp add: keys_map_set)

lemma map_get_None_iff: "map_get m k = None \<longleftrightarrow> k \<notin> fst ` set m"
  by (simp add: map_get_def map_of_eq_None_iff)

lemma map_has_iff: "map_has m k \<longleftrightarrow> k \<in> fst ` set m"
  by (simp add: map_has_def map_get_None_iff)

lemma map_ok_Nil: "map_ok wl wv []"
  by (simp add: map_ok_def)

lemma map_ok_map_set:
  "map_ok wl wv m \<Longrightarrow> entry_ok wl wv k e \<Longrightarrow> map_ok wl wv (map_set k e m)"
  by (auto simp: map_ok_def distinct_map_set map_of_map_set)

lemma map_ok_fts_seed: "map_ok wl wv m \<Longrightarrow> map_ok wl wv (fts_seed wl n m ir)"
  by (cases ir) (simp add: fts_seed_def fts_entry_def Let_def map_ok_map_set entry_ok_def)

lemma map_ok_vector_merge:
  assumes "map_ok wl wv m"
  shows "map_ok wl wv (vector_merge wl wv m v)"
proof (cases "map_get m (id_of v)")
  case None
  then have "\<not> map_has m (id_of v)"
    by (simp add: map_has_def)
  then show ?thesis
    using assms by (simp add: vector_merge_def vector_entry_def Let_def map_ok_map_set entry_ok_def)
next
  case (Some existing)
  then have has: "map_has m (id_of v)"
    by (simp add: map_has_def)
  from Some assms have "entry_ok wl wv (id_of v) existing"
    by (simp add: map_ok_def map_get_def)
  then have "entry_ok wl wv (id_of v)
      (existing\<lparr>vector_score := similarity_or_0 v,
         hybrid_score := wl * fts_score existing + wv * similarity_or_0 v\<rparr>)"
    by (simp add: entry_ok_def)
  with assms show ?thesis
    using Some has by (simp add: vector_merge_def Let_def map_ok_map_set)
qed

lemma map_ok_seed_upto: "map_ok wl wv (seed_upto wl n irs)"
  unfolding seed_upto_def
  by (induction irs rule: rev_induct) (simp_all add: map_ok_Nil map_ok_fts_seed)

lemma map_ok_vector_phase: "map_ok wl wv m \<Longrightarrow> map_ok wl wv (vector_phase wl wv m V)"
  unfolding vector_phase_def
  by (induction V rule: rev_induct) (simp_all add: map_ok_vector_merge)

lemma map_ok_final:
  "map_ok wl wv (vector_phase wl wv (seed_phase wl L) V)"
  by (simp add: map_ok_vector_phase map_ok_seed_upto seed_phase_def)

lemma map_ok_values_ids: "map_ok wl wv m \<Longrightarrow> map id_of (map_values m) = map fst m"
proof -
  assume ok: "map_ok wl wv m"
  have "\<And>p. p \<in> set m \<Longrightarrow> id_of (snd p) = fst p"
  proof -
    fix p assume "p \<in> set m"
    with ok have "map_of m (fst p) = Some (snd p)"
      by (cases p) (simp add: map_ok_def)
    with ok show "id_of (snd p) = fst p"
      by (auto simp: map_ok_def entry_ok_def)
  qed
  then show ?thesis
    by (simp add: map_values_def)
qed

lemma distinct_ids_sort_by_hybrid:
  "distinct (map id_of rs) \<Longrightarrow> distinct (map id_of (sort_by_hybrid rs))"
  by (simp add: sort_by_hybrid_def distinct_map)

lemma seed_upto_snoc:
  "seed_upto wl n (irs @ [ir]) = fts_seed wl n (seed_upto wl n irs) ir"
  by (simp add: seed_upto_def)

lemma vector_phase_snoc:
  "vector_phase wl wv m (V @ [v]) = vector_merge wl wv (vector_phase wl wv m V) v"
  by (simp add: vector_phase_def)

lemma map_of_fts_seed:
  "map_of (fts_seed wl n m ir) =
     (map_of m)(id_of (snd ir) \<mapsto> fts_entry wl (rank_score (fst ir) n) (snd ir))"
  by (cases ir) (simp add: fts_seed_def Let_def map_of_map_set)

lemma map_of_seed_upto:
  "map_of (seed_upto wl n irs) i =
     map_option (\<lambda>ir. fts_entry wl (rank_score (fst ir) n) (snd ir))
       (find (\<lambda>ir. id_of (snd ir) = i) (rev irs))"
proof (induction irs rule: rev_induct)
  case Nil
  show ?case by (simp add: seed_upto_def)
next
  case (snoc ir irs)
  then show ?case
    by (simp add: seed_upto_snoc map_of_fts_seed)
qed

lemma map_of_vector_merge:
  "map_of (vector_merge wl wv m v) =
     (map_of m)(id_of v \<mapsto>
        (case map_of m (id_of v) of
           Some existing \<Rightarrow>
             existing\<lparr>vector_score := similarity_or_0 v,
               hybrid_score := wl * fts_score existing + wv * similarity_or_0 v\<rparr>
         | None \<Rightarrow> vector_entry wv (similarity_or_0 v) v))"
  by (cases "map_of m (id_of v)")
     (simp_all add: vector_merge_def Let_def map_has_def map_get_def map_of_map_set)

lemma remerge_remerge: "remerge wl wv v (remerge wl wv u b) = remerge wl wv v b"
  by (simp add: remerge_def)

lemma remerge_vector_entry:
  "remerge wl wv v (vector_entry wv (similarity_or_0 u) v) = vector_entry wv (similarity_or_0 v) v"
  by (simp add: remerge_def vector_entry_def)

lemma remerge_vector_entry_same:
  "remerge wl wv v (vector_entry wv s v) = vector_entry wv (similarity_or_0 v) v"
  by (simp add: remerge_def vector_entry_def)

lemma map_of_vector_merge':
  "map_of (vector_merge wl wv m v) =
     (map_of m)(id_of v \<mapsto>
        (case map_of m (id_of v) of
           Some existing \<Rightarrow> remerge wl wv v existing
         | None \<Rightarrow> vector_entry wv (similarity_or_0 v) v))"
  by (cases "map_of m (id_of v)") (simp_all add: map_of_vector_merge remerge_def)

lemma find_append:
  "find P (xs @ ys) = (case find P xs of None \<Rightarrow> find P ys | Some x \<Rightarrow> Some x)"
  by (induction xs) simp_all

lemma map_of_vector_phase:
  "map_of (vector_phase wl wv m V) i =
     (case find (\<lambda>v. id_of v = i) (rev V) of
        None \<Rightarrow> map_of m i
      | Some vl \<Rightarrow>
          Some (remerge wl wv vl
            (case map_of m i of
               Some e0 \<Rightarrow> e0
             | None \<Rightarrow> (case find (\<lambda>v. id_of v = i) V of
                          Some vf \<Rightarrow> vector_entry wv (similarity_or_0 vf) vf
                        | None \<Rightarrow> vector_entry wv (similarity_or_0 vl) vl))))"
proof (induction V rule: rev_induct)
  case Nil
  show ?case by (simp add: vector_phase_def)
next
  case (snoc v V)
  show ?case
  proof (cases "id_of v = i")
    case False
    then have "find (\<lambda>v. id_of v = i) (V @ [v]) = find (\<lambda>v. id_of v = i) V"
      by (simp add: find_append split: option.splits)
    with False snoc show ?thesis
      by (simp add: vector_phase_snoc map_of_vector_merge' cong: option.case_cong)
  next
    case True
    show ?thesis
    proof (cases "find (\<lambda>v. id_of v = i) (rev V)")
      case None
      then have "find (\<lambda>v. id_of v = i) V = None"
        by (simp add: find_None_iff)
      then have fa: "find (\<lambda>v. id_of v = i) (V @ [v]) = Some v"
        using True by (simp add: find_append)
      from None snoc have "map_of (vector_phase wl wv m V) i = map_of m i"
        by simp
      then show ?thesis
        using True fa
        by (cases "map_of m i")
           (simp_all add: vector_phase_snoc map_of_vector_merge' remerge_vector_entry_same
              cong: option.case_cong)
    next
      case (Some vl)
      have "find (\<lambda>v. id_of v = i) V \<noteq> None"
      proof
        assume "find (\<lambda>v. id_of v = i) V = None"
        then have "find (\<lambda>v. id_of v = i) (rev V) = None"
          by (simp add: find_None_iff)
        with Some show False by simp
      qed
      then obtain vf where vf: "find (\<lambda>v. id_of v = i) V = Some vf"
        by auto
      then have fa: "find (\<lambda>v. id_of v = i) (V @ [v]) = Some vf"
        by (simp add: find_append)
      show ?thesis
        using True fa vf Some snoc
        by (cases "map_of m i")
           (simp_all add: vector_phase_snoc map_of_vector_merge' remerge_remerge
              cong: option.case_cong)
    qed
  qed
qed

lemma scenarioA_eval:
  "map (\<lambda>e. (id_of e, fts_score e, vector_score e, hybrid_score e))
     (mergeAndScore scenarioA_fts scenarioA_vector (1/2) (1/2))
   = [(1, 1, 9/10, 95/100), (2, 0, 6/10, 3/10)]"
  by (simp add: mergeAndScore_def scenarioA_fts_def scenarioA_vector_def seed_phase_def
      seed_upto_def vector_phase_def fts_seed_def vector_merge_def map_has_def map_get_def
      fts_entry_def vector_entry_def rank_score_def similarity_or_0_def map_values_def
      sort_by_hybrid_def enumerate_eq_zip)

lemma seed_step_entry:
  assumes "r < length L"
  shows "map_get (seed_upto wl (length L) (take (Suc r) (enumerate 0 L))) (id_of (L ! r))
         = Some (fts_entry wl (max 0 (1 - real r / real (length L))) (L ! r))"
proof -
  have "take (Suc r) (enumerate 0 L) = take r (enumerate 0 L) @ [(r, L ! r)]"
    using assms by (simp add: take_Suc_conv_app_nth nth_enumerate_eq)
  then show ?thesis
    by (simp add: seed_upto_snoc map_get_def map_of_fts_seed rank_score_def)
qed

lemma vector_step:
  assumes "j < length V"
  shows "vector_phase wl wv m0 (take (Suc j) V)
         = vector_merge wl wv (vector_phase wl wv m0 (take j V)) (V ! j)"
  using assms by (simp add: take_Suc_conv_app_nth vector_phase_snoc)

lemma vector_merge_present:
  assumes "map_get m (id_of v) = Some existing"
  shows "vector_merge wl wv m v =
           map_set (id_of v)
             (existing\<lparr>vector_score := similarity_or_0 v,
                hybrid_score := wl * fts_score existing + wv * similarity_or_0 v\<rparr>) m"
    and "map fst (vector_merge wl wv m v) = map fst m"
proof -
  from assms have has: "map_has m (id_of v)"
    by (simp add: map_has_def)
  with assms show eq: "vector_merge wl wv m v =
           map_set (id_of v)
             (existing\<lparr>vector_score := similarity_or_0 v,
                hybrid_score := wl * fts_score existing + wv * similarity_or_0 v\<rparr>) m"
    by (simp add: vector_merge_def Let_def)
  from has have "id_of v \<in> fst ` set m"
    by (simp add: map_has_iff)
  then show "map fst (vector_merge wl wv m v) = map fst m"
    unfolding eq by (rule keys_map_set_present)
qed

lemma vector_merge_absent:
  assumes "map_get m (id_of v) = None"
  shows "vector_merge wl wv m v = m @ [(id_of v, vector_entry wv (similarity_or_0 v) v)]"
proof -
  from assms have "\<not> map_has m (id_of v)"
    by (simp add: map_has_def)
  moreover from assms have "id_of v \<notin> fst ` set m"
    by (simp add: map_get_None_iff)
  ultimately show ?thesis
    by (simp add: vector_merge_def Let_def map_set_absent)
qed

lemma values_lookup:
  assumes "map_ok wl wv m" and "e \<in> set (map_values m)"
  shows "map_of m (id_of e) = Some e"
proof -
  from assms(2) obtain k where k: "(k, e) \<in> set m"
    by (auto simp: map_values_def)
  with assms(1) have "map_of m k = Some e"
    by (simp add: map_ok_def)
  moreover from this assms(1) have "id_of e = k"
    by (auto simp: map_ok_def entry_ok_def)
  ultimately show ?thesis by simp
qed

lemma set_mergeAndScore:
  "set (mergeAndScore L V wl wv)
   = set (map_values (vector_phase wl wv (seed_phase wl L) V))"
  by (simp add: mergeAndScore_def sort_by_hybrid_def)

lemma mergeAndScore_lookup:
  assumes "e \<in> set (mergeAndScore L V wl wv)"
  shows "map_of (vector_phase wl wv (seed_phase wl L) V) (id_of e) = Some e"
  using assms map_ok_final [of wl wv L V]
  by (simp add: set_mergeAndScore values_lookup)

lemma mergeAndScore_hybrid:
  assumes "e \<in> set (mergeAndScore L V wl wv)"
  shows "hybrid_score e = wl * fts_score e + wv * vector_score e"
proof -
  have "map_ok wl wv (vector_phase wl wv (seed_phase wl L) V)"
    by (rule map_ok_final)
  with mergeAndScore_lookup [OF assms] show ?thesis
    by (auto simp: map_ok_def entry_ok_def)
qed

lemma sorted_sort_by_hybrid:
  "sorted_wrt (\<lambda>a b. hybrid_score b \<le> hybrid_score a) (sort_by_hybrid rs)"
proof -
  have "sorted (map (\<lambda>e. - hybrid_score e) (sort_by_hybrid rs))"
    by (simp add: sort_by_hybrid_def)
  then show ?thesis
    by (simp add: sorted_wrt_map)
qed

lemma mergeAndScore_sorted:
  "sorted_wrt (\<lambda>a b. hybrid_score b \<le> hybrid_score a) (mergeAndScore L V wl wv)"
  by (simp add: mergeAndScore_def sorted_sort_by_hybrid)

lemma find_rev_None_iff: "find P (rev xs) = None \<longleftrightarrow> find P xs = None"
  by (simp add: find_None_iff)

lemma map_of_seed_phase:
  "map_of (seed_phase wl L) i =
     map_option (\<lambda>ir. fts_entry wl (rank_score (fst ir) (length L)) (snd ir))
       (find (\<lambda>ir. id_of (snd ir) = i) (rev (enumerate 0 L)))"
  by (simp add: seed_phase_def map_of_seed_upto)

lemma seed_phase_scores:
  assumes "map_of (seed_phase wl L) i = Some e0"
  shows "fts_score e0 = lexical_score_of L i" and "vector_score e0 = 0"
  using assms
  by (auto simp: map_of_seed_phase lexical_score_of_def fts_entry_def rank_score_def)

lemma seed_phase_None:
  assumes "map_of (seed_phase wl L) i = None"
  shows "lexical_score_of L i = 0"
  using assms by (simp add: map_of_seed_phase lexical_score_of_def)

lemma final_scores:
  assumes "map_of (vector_phase wl wv (seed_phase wl L) V) i = Some e"
  shows "fts_score e = lexical_score_of L i \<and> vector_score e = vector_score_of V i"
proof (cases "find (\<lambda>v. id_of v = i) (rev V)")
  case None
  with assms have "map_of (seed_phase wl L) i = Some e"
    by (simp add: map_of_vector_phase)
  with None show ?thesis
    by (simp add: seed_phase_scores vector_score_of_def)
next
  case (Some vl)
  show ?thesis
  proof (cases "map_of (seed_phase wl L) i")
    case None
    with Some assms show ?thesis
      by (auto simp: map_of_vector_phase remerge_def vector_entry_def vector_score_of_def
          seed_phase_None split: option.splits)
  next
    case (Some e0)
    with \<open>find (\<lambda>v. id_of v = i) (rev V) = Some vl\<close> assms
    have "e = remerge wl wv vl e0"
      by (simp add: map_of_vector_phase)
    with Some \<open>find (\<lambda>v. id_of v = i) (rev V) = Some vl\<close> show ?thesis
      by (simp add: remerge_def vector_score_of_def seed_phase_scores)
  qed
qed

lemma mergeAndScore_scores:
  assumes "e \<in> set (mergeAndScore L V wl wv)"
  shows "fts_score e = lexical_score_of L (id_of e) \<and> vector_score e = vector_score_of V (id_of e)"
  using mergeAndScore_lookup [OF assms] by (rule final_scores)

lemma dom_seed_phase: "fst ` set (seed_phase wl L) = id_of ` set L"
proof -
  have "i \<in> fst ` set (seed_phase wl L) \<longleftrightarrow> i \<in> id_of ` set L" for i
  proof -
    have "i \<in> fst ` set (seed_phase wl L) \<longleftrightarrow> map_of (seed_phase wl L) i \<noteq> None"
      by (simp add: map_of_eq_None_iff)
    also have "\<dots> \<longleftrightarrow> (\<exists>ir \<in> set (enumerate 0 L). id_of (snd ir) = i)"
      by (simp add: map_of_seed_phase find_None_iff Bex_def)
    also have "\<dots> \<longleftrightarrow> i \<in> id_of ` snd ` set (enumerate 0 L)"
      by (simp add: image_iff Bex_def) metis
    also have "snd ` set (enumerate 0 L) = set L"
    proof -
      have "snd ` set (enumerate 0 L) = set (map snd (enumerate 0 L))"
        by (simp only: set_map)
      then show ?thesis
        by (simp only: map_snd_enumerate)
    qed
    finally show ?thesis .
  qed
  then show ?thesis by blast
qed

lemma dom_vector_phase:
  "fst ` set (vector_phase wl wv m V) = fst ` set m \<union> id_of ` set V"
proof -
  have "i \<in> fst ` set (vector_phase wl wv m V) \<longleftrightarrow> i \<in> fst ` set m \<union> id_of ` set V" for i
  proof -
    have "i \<in> fst ` set (vector_phase wl wv m V)
          \<longleftrightarrow> map_of (vector_phase wl wv m V) i \<noteq> None"
      by (simp add: map_of_eq_None_iff)
    also have "\<dots> \<longleftrightarrow> map_of m i \<noteq> None \<or> find (\<lambda>v. id_of v = i) (rev V) \<noteq> None"
      by (auto simp: map_of_vector_phase split: option.splits)
    also have "\<dots> \<longleftrightarrow> i \<in> fst ` set m \<union> id_of ` set V"
      by (auto simp: map_of_eq_None_iff find_None_iff)
    finally show ?thesis .
  qed
  then show ?thesis by blast
qed

lemma mergeAndScore_ids:
  "id_of ` set (mergeAndScore L V wl wv) = id_of ` set L \<union> id_of ` set V"
proof -
  let ?m = "vector_phase wl wv (seed_phase wl L) V"
  have "id_of ` set (mergeAndScore L V wl wv) = set (map id_of (map_values ?m))"
    by (simp add: set_mergeAndScore)
  also have "\<dots> = fst ` set ?m"
    using map_ok_final [of wl wv L V] by (simp add: map_ok_values_ids)
  also have "\<dots> = id_of ` set L \<union> id_of ` set V"
    by (simp add: dom_vector_phase dom_seed_phase)
  finally show ?thesis .
qed

lemma seeded_is_present:
  assumes "id_of v \<in> id_of ` set L"
  shows "map_get (vector_phase wl wv (seed_phase wl L) W) (id_of v) \<noteq> None"
proof -
  from assms have "id_of v \<in> fst ` set (vector_phase wl wv (seed_phase wl L) W)"
    by (simp add: dom_vector_phase dom_seed_phase)
  then show ?thesis
    by (simp add: map_get_None_iff)
qed

lemma vector_merge_sets_score:
  "\<exists>e'. map_get (vector_merge wl wv m v) (id_of v) = Some e'
        \<and> vector_score e' = similarity_or_0 v"
  by (cases "map_of m (id_of v)")
     (simp_all add: map_get_def map_of_vector_merge vector_entry_def)

lemma vector_step_cases:
  assumes "j < length V"
  shows "let m = vector_phase wl wv (seed_phase wl L) (take j V);
             m' = vector_phase wl wv (seed_phase wl L) (take (Suc j) V);
             v = V ! j
         in (case map_get m (id_of v) of
               Some existing \<Rightarrow>
                 m' = map_set (id_of v)
                        (existing\<lparr>vector_score := similarity_or_0 v,
                           hybrid_score := wl * fts_score existing + wv * similarity_or_0 v\<rparr>) m
                 \<and> map fst m' = map fst m
             | None \<Rightarrow>
                 m' = m @ [(id_of v,
                            \<lparr>id_of = id_of v, document_id = document_id v, chunk = chunk v,
                              similarity = None, fts_score = 0,
                              vector_score = similarity_or_0 v,
                              hybrid_score = wv * similarity_or_0 v\<rparr>)])
            \<and> (id_of v \<in> id_of ` set L \<longrightarrow> map_get m (id_of v) \<noteq> None)
            \<and> (\<exists>e'. map_get m' (id_of v) = Some e' \<and> vector_score e' = similarity_or_0 v)"
proof (cases "map_get (vector_phase wl wv (seed_phase wl L) (take j V)) (id_of (V ! j))")
  case None
  then show ?thesis
    using vector_merge_absent [OF None, of wl wv] seeded_is_present [of "V ! j" L wl wv "take j V"]
          vector_merge_sets_score [of wl wv "vector_phase wl wv (seed_phase wl L) (take j V)" "V ! j"]
    by (auto simp add: Let_def vector_step [OF assms] vector_entry_def)
next
  case (Some existing)
  then show ?thesis
    using vector_merge_present [OF Some, of wl wv]
          vector_merge_sets_score [of wl wv "vector_phase wl wv (seed_phase wl L) (take j V)" "V ! j"]
    by (simp add: Let_def vector_step [OF assms])
qed

lemma seed_step_scores:
  assumes "r < length L"
  shows "\<exists>e. map_get (seed_upto wl (length L) (take (Suc r) (enumerate 0 L))) (id_of (L ! r))
               = Some e
           \<and> id_of e = id_of (L ! r) \<and> document_id e = document_id (L ! r)
           \<and> chunk e = chunk (L ! r)
           \<and> fts_score e = max 0 (1 - real r / real (length L))
           \<and> vector_score e = 0"
  using seed_step_entry [OF assms, of wl] by (simp add: fts_entry_def)

subsection \<open>The claims about \<^verbatim>\<open>mergeAndScore\<close>\<close>

text \<open>
  Claim C1.  For every full-text list \<open>L\<close> (of length \<open>N\<close>), every vector list \<open>V\<close> and
  weights \<open>wl\<close>, \<open>wv\<close>:
  \<^item> when the first loop has processed rank \<open>r\<close>, the map holds under the id of \<open>L ! r\<close> an
    entry with lexical score \<open>max 0 (1 - r/N)\<close> and vector score 0;
  \<^item> each step of the second loop sets the vector score of the entry of \<open>V ! j\<close> to its
    similarity: when the map has an entry with that id (as it has whenever \<open>L\<close> seeded
    one) that entry is updated in place, keeping its lexical score, and the key order is
    unchanged; otherwise a new entry with lexical score 0 is appended;
  \<^item> every result carries the lexical score of its id in \<open>L\<close> and the vector score of its
    id in \<open>V\<close> (0 where the list has no match with that id), and its hybrid score is
    \<open>wl * fts_score + wv * vector_score\<close>; the ids of the results are those of \<open>L\<close> and \<open>V\<close>;
  \<^item> the output is sorted by hybrid score, descending;
  \<^item> on the inputs of Scenario A the output is id 1 with hybrid score 0.95, then id 2
    with hybrid score 0.3.
\<close>

theorem mergeAndScore_fusion:
  "(\<forall>r < length L.
      \<exists>e. map_get (seed_upto wl (length L) (take (Suc r) (enumerate 0 L))) (id_of (L ! r))
             = Some e
         \<and> id_of e = id_of (L ! r) \<and> document_id e = document_id (L ! r)
         \<and> chunk e = chunk (L ! r)
         \<and> fts_score e = max 0 (1 - real r / real (length L))
         \<and> vector_score e = 0)
   \<and> (\<forall>j < length V.
        let m = vector_phase wl wv (seed_phase wl L) (take j V);
            m' = vector_phase wl wv (seed_phase wl L) (take (Suc j) V);
            v = V ! j
        in (case map_get m (id_of v) of
              Some existing \<Rightarrow>
                m' = map_set (id_of v)
                       (existing\<lparr>vector_score := similarity_or_0 v,
                          hybrid_score := wl * fts_score existing + wv * similarity_or_0 v\<rparr>) m
                \<and> map fst m' = map fst m
            | None \<Rightarrow>
                m' = m @ [(id_of v,
                           \<lparr>id_of = id_of v, document_id = document_id v, chunk = chunk v,
                             similarity = None, fts_score = 0,
                             vector_score = similarity_or_0 v,
                             hybrid_score = wv * similarity_or_0 v\<rparr>)])
           \<and> (id_of v \<in> id_of ` set L \<longrightarrow> map_get m (id_of v) \<noteq> None)
           \<and> (\<exists>e'. map_get m' (id_of v) = Some e' \<and> vector_score e' = similarity_or_0 v))
   \<and> (\<forall>e \<in> set (mergeAndScore L V wl wv).
          fts_score e = lexical_score_of L (id_of e)
        \<and> vector_score e = vector_score_of V (id_of e)
        \<and> hybrid_score e = wl * fts_score e + wv * vector_score e)
   \<and> id_of ` set (mergeAndScore L V wl wv) = id_of ` set L \<union> id_of ` set V
   \<and> sorted_wrt (\<lambda>a b. hybrid_score b \<le> hybrid_score a) (mergeAndScore L V wl wv)
   \<and> map (\<lambda>e. (id_of e, hybrid_score e))
         (mergeAndScore scenarioA_fts scenarioA_vector (1/2) (1/2))
       = [(1, 95/100), (2, 3/10)]"
proof (intro conjI allI impI ballI)
  fix r assume "r < length L"
  then show "\<exists>e. map_get (seed_upto wl (length L) (take (Suc r) (enumerate 0 L)))
                   (id_of (L ! r)) = Some e
         \<and> id_of e = id_of (L ! r) \<and> document_id e = document_id (L ! r)
         \<and> chunk e = chunk (L ! r)
         \<and> fts_score e = max 0 (1 - real r / real (length L))
         \<and> vector_score e = 0"
    by (rule seed_step_scores)
next
  fix j assume "j < length V"
  then show "let m = vector_phase wl wv (seed_phase wl L) (take j V);
            m' = vector_phase wl wv (seed_phase wl L) (take (Suc j) V);
            v = V ! j
        in (case map_get m (id_of v) of
              Some existing \<Rightarrow>
                m' = map_set (id_of v)
                       (existing\<lparr>vector_score := similarity_or_0 v,
                          hybrid_score := wl * fts_score existing + wv * similarity_or_0 v\<rparr>) m
                \<and> map fst m' = map fst m
            | None \<Rightarrow>
                m' = m @ [(id_of v,
                           \<lparr>id_of = id_of v, document_id = document_id v, chunk = chunk v,
                             similarity = None, fts_score = 0,
                             vector_score = similarity_or_0 v,
                             hybrid_score = wv * similarity_or_0 v\<rparr>)])
           \<and> (id_of v \<in> id_of ` set L \<longrightarrow> map_get m (id_of v) \<noteq> None)
           \<and> (\<exists>e'. map_get m' (id_of v) = Some e' \<and> vector_score e' = similarity_or_0 v)"
    by (rule vector_step_cases)
next
  fix e assume e: "e \<in> set (mergeAndScore L V wl wv)"
  from mergeAndScore_scores [OF e] show "fts_score e = lexical_score_of L (id_of e)"
    by simp
  from mergeAndScore_scores [OF e] show "vector_score e = vector_score_of V (id_of e)"
    by simp
  from e show "hybrid_score e = wl * fts_score e + wv * vector_score e"
    by (rule mergeAndScore_hybrid)
next
  show "id_of ` set (mergeAndScore L V wl wv) = id_of ` set L \<union> id_of ` set V"
    by (rule mergeAndScore_ids)
next
  show "sorted_wrt (\<lambda>a b. hybrid_score b \<le> hybrid_score a) (mergeAndScore L V wl wv)"
    by (rule mergeAndScore_sorted)
next
  have "map (\<lambda>e. (id_of e, fts_score e, vector_score e, hybrid_score e))
          (mergeAndScore scenarioA_fts scenarioA_vector (1/2) (1/2))
        = [(1, 1, 9/10, 95/100), (2, 0, 6/10, 3/10)]"
    by (rule scenarioA_eval)
  then show "map (\<lambda>e. (id_of e, hybrid_score e))
         (mergeAndScore scenarioA_fts scenarioA_vector (1/2) (1/2))
       = [(1, 95/100), (2, 3/10)]"
    by auto
qed

theorem mergeAndScore_fusion_witness:
  "0 < length scenarioA_fts
   \<and> (\<exists>e. map_get (seed_upto (1/2) (length scenarioA_fts)
                     (take (Suc 0) (enumerate 0 scenarioA_fts))) 1 = Some e
          \<and> fts_score e = 1 \<and> vector_score e = 0)
   \<and> 1 < length scenarioA_vector
   \<and> map_get (vector_phase (1/2) (1/2) (seed_phase (1/2) scenarioA_fts)
                (take 1 scenarioA_vector)) 2 = None
   \<and> map fst (vector_phase (1/2) (1/2) (seed_phase (1/2) scenarioA_fts)
                (take 2 scenarioA_vector)) = [1, 2]
   \<and> map (\<lambda>e. (id_of e, fts_score e, vector_score e, hybrid_score e))
         (mergeAndScore scenarioA_fts scenarioA_vector (1/2) (1/2))
       = [(1, 1, 9/10, 95/100), (2, 0, 6/10, 3/10)]
   \<and> lexical_score_of scenarioA_fts 1 = 1 \<and> lexical_score_of scenarioA_fts 2 = 0
   \<and> vector_score_of scenarioA_vector 1 = 9/10 \<and> vector_score_of scenarioA_vector 2 = 6/10"
proof -
  note T = mergeAndScore_fusion [where L = scenarioA_fts and V = scenarioA_vector
                                   and wl = "1/2" and wv = "1/2"]
  have r: "0 < length scenarioA_fts"
    by (simp add: scenarioA_fts_def)
  have j: "1 < length scenarioA_vector"
    by (simp add: scenarioA_vector_def)
  from T have seed: "\<forall>r < length scenarioA_fts.
      \<exists>e. map_get (seed_upto (1/2) (length scenarioA_fts)
                     (take (Suc r) (enumerate 0 scenarioA_fts))) (id_of (scenarioA_fts ! r))
             = Some e
         \<and> id_of e = id_of (scenarioA_fts ! r)
         \<and> document_id e = document_id (scenarioA_fts ! r)
         \<and> chunk e = chunk (scenarioA_fts ! r)
         \<and> fts_score e = max 0 (1 - real r / real (length scenarioA_fts))
         \<and> vector_score e = 0"
    by (rule conjunct1)
  from seed r have c1: "\<exists>e. map_get (seed_upto (1/2) (length scenarioA_fts)
                     (take (Suc 0) (enumerate 0 scenarioA_fts))) 1 = Some e
          \<and> fts_score e = 1 \<and> vector_score e = 0"
    by (auto simp: scenarioA_fts_def)
  have before: "map_get (vector_phase (1/2) (1/2) (seed_phase (1/2) scenarioA_fts)
                (take 1 scenarioA_vector)) 2 = None"
    by (simp add: scenarioA_fts_def scenarioA_vector_def seed_phase_def seed_upto_def
        vector_phase_def fts_seed_def vector_merge_def map_has_def map_get_def
        fts_entry_def vector_entry_def rank_score_def similarity_or_0_def enumerate_eq_zip)
  have keys: "map fst (vector_phase (1/2) (1/2) (seed_phase (1/2) scenarioA_fts)
                (take 2 scenarioA_vector)) = [1, 2]"
    by (simp add: scenarioA_fts_def scenarioA_vector_def seed_phase_def seed_upto_def
        vector_phase_def fts_seed_def vector_merge_def map_has_def map_get_def
        fts_entry_def vector_entry_def rank_score_def similarity_or_0_def enumerate_eq_zip)
  have out: "map (\<lambda>e. (id_of e, fts_score e, vector_score e, hybrid_score e))
         (mergeAndScore scenarioA_fts scenarioA_vector (1/2) (1/2))
       = [(1, 1, 9/10, 95/100), (2, 0, 6/10, 3/10)]"
    by (rule scenarioA_eval)
  have scores: "lexical_score_of scenarioA_fts 1 = 1 \<and> lexical_score_of scenarioA_fts 2 = 0
   \<and> vector_score_of scenarioA_vector 1 = 9/10 \<and> vector_score_of scenarioA_vector 2 = 6/10"
    by (simp add: lexical_score_of_def vector_score_of_def scenarioA_fts_def
        scenarioA_vector_def similarity_or_0_def enumerate_eq_zip)
  from r c1 j before keys out scores show ?thesis
    by blast
qed

lemma find_rev_last:
  assumes "j < length xs" and "P (xs ! j)"
    and "\<forall>j' < length xs. j < j' \<longrightarrow> \<not> P (xs ! j')"
  shows "find P (rev xs) = Some (xs ! j)"
  using assms
proof (induction xs rule: rev_induct)
  case Nil
  then show ?case by simp
next
  case (snoc x xs)
  show ?case
  proof (cases "j = length xs")
    case True
    with snoc.prems(2) show ?thesis by simp
  next
    case False
    with snoc.prems(1) have j: "j < length xs" by simp
    from snoc.prems(3) j have "\<not> P ((xs @ [x]) ! length xs)"
      by (metis length_append_singleton lessI)
    then have nx: "\<not> P x" by simp
    have "\<forall>j' < length xs. j < j' \<longrightarrow> \<not> P (xs ! j')"
    proof (intro allI impI)
      fix j' assume "j' < length xs" and "j < j'"
      with snoc.prems(3) have "\<not> P ((xs @ [x]) ! j')" by simp
      with \<open>j' < length xs\<close> show "\<not> P (xs ! j')" by (simp add: nth_append)
    qed
    with snoc.IH j snoc.prems(2) have "find P (rev xs) = Some (xs ! j)"
      by (simp add: nth_append)
    with nx j show ?thesis by (simp add: nth_append)
  qed
qed

lemma filter_unique_id:
  assumes "distinct (map f xs)" and "x \<in> set xs"
  shows "filter (\<lambda>y. f y = f x) xs = [x]"
  using assms
proof (induction xs)
  case Nil
  then show ?case by simp
next
  case (Cons y ys)
  show ?case
  proof (cases "x = y")
    case True
    from Cons.prems(1) have "f y \<notin> f ` set ys" by simp
    then have "\<forall>z \<in> set ys. f z \<noteq> f y" by (metis imageI)
    then have "filter (\<lambda>z. f z = f y) ys = []"
      by (simp add: filter_empty_conv)
    with True show ?thesis by simp
  next
    case False
    with Cons.prems have x: "x \<in> set ys" and "f y \<noteq> f x" by auto
    with Cons show ?thesis by simp
  qed
qed

lemma mergeAndScore_member:
  assumes "map_of (vector_phase wl wv (seed_phase wl L) V) i = Some e"
  shows "e \<in> set (mergeAndScore L V wl wv)"
proof -
  from assms have "(i, e) \<in> set (vector_phase wl wv (seed_phase wl L) V)"
    by (rule map_of_SomeD)
  then have "e \<in> set (map_values (vector_phase wl wv (seed_phase wl L) V))"
    by (force simp: map_values_def)
  then show ?thesis by (simp add: set_mergeAndScore)
qed

lemma mergeAndScore_distinct:
  "distinct (map id_of (mergeAndScore L V wl wv))"
proof -
  let ?m = "vector_phase wl wv (seed_phase wl L) V"
  have ok: "map_ok wl wv ?m"
    by (rule map_ok_final)
  then have "distinct (map id_of (map_values ?m))"
    by (simp add: map_ok_values_ids) (simp add: map_ok_def)
  then show ?thesis
    unfolding mergeAndScore_def by (rule distinct_ids_sort_by_hybrid)
qed

lemma shared_id_entry:
  assumes r: "r < length L" and j: "j < length V"
    and same: "id_of (L ! r) = id_of (V ! j)"
    and lastL: "\<forall>r' < length L. r < r' \<longrightarrow> id_of (L ! r') \<noteq> id_of (L ! r)"
    and lastV: "\<forall>j' < length V. j < j' \<longrightarrow> id_of (V ! j') \<noteq> id_of (V ! j)"
  shows "map_of (vector_phase wl wv (seed_phase wl L) V) (id_of (L ! r))
         = Some (remerge wl wv (V ! j)
                   (fts_entry wl (rank_score r (length L)) (L ! r)))"
proof -
  let ?i = "id_of (L ! r)"
  have "find (\<lambda>ir. id_of (snd ir) = ?i) (rev (enumerate 0 L)) = Some (enumerate 0 L ! r)"
  proof (rule find_rev_last)
    show "r < length (enumerate 0 L)" using r by simp
    show "id_of (snd (enumerate 0 L ! r)) = ?i" using r by (simp add: nth_enumerate_eq)
    show "\<forall>j'<length (enumerate 0 L). r < j' \<longrightarrow> id_of (snd (enumerate 0 L ! j')) \<noteq> ?i"
      using lastL by (simp add: nth_enumerate_eq)
  qed
  then have seed: "map_of (seed_phase wl L) ?i
                   = Some (fts_entry wl (rank_score r (length L)) (L ! r))"
    using r by (simp add: map_of_seed_phase nth_enumerate_eq)
  have "find (\<lambda>v. id_of v = ?i) (rev V) = Some (V ! j)"
  proof (rule find_rev_last)
    show "j < length V" by (rule j)
    show "id_of (V ! j) = ?i" using same by simp
    show "\<forall>j'<length V. j < j' \<longrightarrow> id_of (V ! j') \<noteq> ?i"
      using lastV same by simp
  qed
  with seed show ?thesis
    by (simp add: map_of_vector_phase)
qed

text \<open>
  Claim C4.  For every pair of input lists, also lists that repeat an id or share ids:
  \<^item> each passage id occurs at most once in the fused output;
  \<^item> the ids of the output are exactly those of the two lists, so the output has one
    result for each id that occurs in either list;
  \<^item> a full-text match at rank \<open>r\<close> and a vector match with the same id (each the last of
    its list with that id, as every match is when a list does not repeat ids) are merged
    into a single result: the only result with that id, which carries the document id and
    the chunk of the full-text match, its rank score, the similarity of the vector match
    as vector score, and the weighted sum of the two as hybrid score.
\<close>

theorem mergeAndScore_ids_distinct:
  "distinct (map id_of (mergeAndScore L V wl wv))
   \<and> id_of ` set (mergeAndScore L V wl wv) = id_of ` set L \<union> id_of ` set V
   \<and> length (mergeAndScore L V wl wv) = card (id_of ` set L \<union> id_of ` set V)
   \<and> (\<forall>r < length L. \<forall>j < length V.
        id_of (L ! r) = id_of (V ! j)
        \<and> (\<forall>r' < length L. r < r' \<longrightarrow> id_of (L ! r') \<noteq> id_of (L ! r))
        \<and> (\<forall>j' < length V. j < j' \<longrightarrow> id_of (V ! j') \<noteq> id_of (V ! j))
        \<longrightarrow> (\<exists>e. filter (\<lambda>x. id_of x = id_of (L ! r)) (mergeAndScore L V wl wv) = [e]
                \<and> document_id e = document_id (L ! r) \<and> chunk e = chunk (L ! r)
                \<and> fts_score e = max 0 (1 - real r / real (length L))
                \<and> vector_score e = similarity_or_0 (V ! j)
                \<and> hybrid_score e = wl * fts_score e + wv * vector_score e))"
proof (intro conjI allI impI)
  show d: "distinct (map id_of (mergeAndScore L V wl wv))"
    by (rule mergeAndScore_distinct)
  show ids: "id_of ` set (mergeAndScore L V wl wv) = id_of ` set L \<union> id_of ` set V"
    by (rule mergeAndScore_ids)
  from d have "card (set (map id_of (mergeAndScore L V wl wv)))
               = length (map id_of (mergeAndScore L V wl wv))"
    by (rule distinct_card)
  with ids show "length (mergeAndScore L V wl wv) = card (id_of ` set L \<union> id_of ` set V)"
    by simp
next
  fix r j
  assume r: "r < length L" and j: "j < length V"
    and h: "id_of (L ! r) = id_of (V ! j)
        \<and> (\<forall>r' < length L. r < r' \<longrightarrow> id_of (L ! r') \<noteq> id_of (L ! r))
        \<and> (\<forall>j' < length V. j < j' \<longrightarrow> id_of (V ! j') \<noteq> id_of (V ! j))"
  let ?e = "remerge wl wv (V ! j) (fts_entry wl (rank_score r (length L)) (L ! r))"
  from h have same: "id_of (L ! r) = id_of (V ! j)"
    and lastL: "\<forall>r' < length L. r < r' \<longrightarrow> id_of (L ! r') \<noteq> id_of (L ! r)"
    and lastV: "\<forall>j' < length V. j < j' \<longrightarrow> id_of (V ! j') \<noteq> id_of (V ! j)"
    by blast+
  have look: "map_of (vector_phase wl wv (seed_phase wl L) V) (id_of (L ! r)) = Some ?e"
    using r j same lastL lastV by (rule shared_id_entry)
  then have mem: "?e \<in> set (mergeAndScore L V wl wv)"
    by (rule mergeAndScore_member)
  have id: "id_of ?e = id_of (L ! r)"
    by (simp add: remerge_def fts_entry_def)
  from mergeAndScore_distinct mem
  have "filter (\<lambda>x. id_of x = id_of ?e) (mergeAndScore L V wl wv) = [?e]"
    by (rule filter_unique_id)
  with id have one: "filter (\<lambda>x. id_of x = id_of (L ! r)) (mergeAndScore L V wl wv) = [?e]"
    by simp
  have fields: "document_id ?e = document_id (L ! r) \<and> chunk ?e = chunk (L ! r)
                \<and> fts_score ?e = max 0 (1 - real r / real (length L))
                \<and> vector_score ?e = similarity_or_0 (V ! j)"
    by (simp add: remerge_def fts_entry_def rank_score_def)
  from mem have "hybrid_score ?e = wl * fts_score ?e + wv * vector_score ?e"
    by (rule mergeAndScore_hybrid)
  with one fields
  show "\<exists>e. filter (\<lambda>x. id_of x = id_of (L ! r)) (mergeAndScore L V wl wv) = [e]
                \<and> document_id e = document_id (L ! r) \<and> chunk e = chunk (L ! r)
                \<and> fts_score e = max 0 (1 - real r / real (length L))
                \<and> vector_score e = similarity_or_0 (V ! j)
                \<and> hybrid_score e = wl * fts_score e + wv * vector_score e"
    by blast
qed

theorem mergeAndScore_ids_distinct_witness:
  "(0::nat) < length scenarioA_fts \<and> (0::nat) < length scenarioA_vector
   \<and> id_of (scenarioA_fts ! 0) = 1 \<and> id_of (scenarioA_vector ! 0) = 1
   \<and> map id_of (mergeAndScore scenarioA_fts scenarioA_vector (1/2) (1/2)) = [1, 2]
   \<and> (\<exists>e. filter (\<lambda>x. id_of x = 1) (mergeAndScore scenarioA_fts scenarioA_vector (1/2) (1/2))
             = [e]
          \<and> chunk e = ''AI is...'' \<and> fts_score e = 1 \<and> vector_score e = 9/10
          \<and> hybrid_score e = 95/100)"
proof -
  note T = mergeAndScore_ids_distinct [where L = scenarioA_fts and V = scenarioA_vector
                                         and wl = "1/2" and wv = "1/2"]
  have r: "(0::nat) < length scenarioA_fts"
    by (simp add: scenarioA_fts_def)
  have j: "(0::nat) < length scenarioA_vector"
    by (simp add: scenarioA_vector_def)
  have i1: "id_of (scenarioA_fts ! 0) = 1" and i2: "id_of (scenarioA_vector ! 0) = 1"
    by (simp_all add: scenarioA_fts_def scenarioA_vector_def)
  have lastL: "\<forall>r' < length scenarioA_fts. 0 < r' \<longrightarrow> id_of (scenarioA_fts ! r') \<noteq> id_of (scenarioA_fts ! 0)"
    by (simp add: scenarioA_fts_def)
  have lastV: "\<forall>j' < length scenarioA_vector. 0 < j' \<longrightarrow> id_of (scenarioA_vector ! j') \<noteq> id_of (scenarioA_vector ! 0)"
    by (simp add: scenarioA_vector_def less_Suc_eq)
  from i1 i2 have same: "id_of (scenarioA_fts ! 0) = id_of (scenarioA_vector ! 0)"
    by simp
  have "\<exists>e. filter (\<lambda>x. id_of x = id_of (scenarioA_fts ! 0))
             (mergeAndScore scenarioA_fts scenarioA_vector (1/2) (1/2)) = [e]
          \<and> document_id e = document_id (scenarioA_fts ! 0) \<and> chunk e = chunk (scenarioA_fts ! 0)
          \<and> fts_score e = max 0 (1 - real 0 / real (length scenarioA_fts))
          \<and> vector_score e = similarity_or_0 (scenarioA_vector ! 0)
          \<and> hybrid_score e = 1/2 * fts_score e + 1/2 * vector_score e"
    by (rule T [THEN conjunct2, THEN conjunct2, THEN conjunct2, rule_format, OF r j,
                OF conjI [OF same conjI [OF lastL lastV]]])
  then have one: "\<exists>e. filter (\<lambda>x. id_of x = 1)
             (mergeAndScore scenarioA_fts scenarioA_vector (1/2) (1/2)) = [e]
          \<and> chunk e = ''AI is...'' \<and> fts_score e = 1 \<and> vector_score e = 9/10
          \<and> hybrid_score e = 95/100"
    by (auto simp: scenarioA_fts_def scenarioA_vector_def similarity_or_0_def)
  have "map id_of (mergeAndScore scenarioA_fts scenarioA_vector (1/2) (1/2))
        = map fst (map (\<lambda>e. (id_of e, fts_score e, vector_score e, hybrid_score e))
                     (mergeAndScore scenarioA_fts scenarioA_vector (1/2) (1/2)))"
    by (simp add: comp_def)
  also have "\<dots> = [1, 2]"
    by (simp only: scenarioA_eval) simp
  finally have ids:
    "map id_of (mergeAndScore scenarioA_fts scenarioA_vector (1/2) (1/2)) = [1, 2]" .
  from r j i1 i2 ids one show ?thesis
    by blast
qed

section \<open>Properties of the fallback cascade\<close>

lemma trim_Nil: "trim [] = []"
  by (simp add: trim_def)

lemma nonblank_nonempty: "trim q \<noteq> [] \<Longrightarrow> q \<noteq> []"
  by (auto simp: trim_Nil)

text \<open>
  Claim C9.  For the empty query text, \<^verbatim>\<open>hybridSearch\<close> returns at once with
  \<^verbatim>\<open>success = true\<close>, an empty result list and \<^verbatim>\<open>total = 0\<close>, and issues no call at
  all: no embedding request, no text-store, vector-store or document query, whatever the
  environment and the options.  In the hook, \<^verbatim>\<open>performSearch\<close> with the empty text does
  not even call \<^verbatim>\<open>hybridSearch\<close>.
\<close>

theorem hybridSearch_empty_query:
  "success (fst (hybridSearch e [] opts))
   \<and> error (fst (hybridSearch e [] opts)) = None
   \<and> results (fst (hybridSearch e [] opts)) = []
   \<and> total (fst (hybridSearch e [] opts)) = 0
   \<and> snd (hybridSearch e [] opts) = []
   \<and> searches (performSearch_begin cfg now [] searchOptions h) = searches h
   \<and> awaiting (performSearch_begin cfg now [] searchOptions h) = awaiting h"
proof -
  have "hybridSearch e [] opts = (empty_query_outcome, [])"
    by (simp add: hybridSearch_def)
  moreover have "searches (performSearch_begin cfg now [] searchOptions h) = searches h"
    and "awaiting (performSearch_begin cfg now [] searchOptions h) = awaiting h"
    by (simp_all add: performSearch_begin_def)
  ultimately show ?thesis
    by (simp add: empty_query_outcome_def)
qed

lemma hybridSearch_blank:
  "trim q = [] \<Longrightarrow> hybridSearch e q opts = (empty_query_outcome, [])"
  by (simp add: hybridSearch_def)

lemma hybridSearch_no_fallback:
  assumes "trim q \<noteq> []" and "generateQueryEmbedding e q = (Inl err, tr0)"
    and "\<not> fallbackToFTSOnly_of opts"
  shows "hybridSearch e q opts = (error_outcome err q, tr0)"
  using assms nonblank_nonempty [of q] by (auto simp add: hybridSearch_def)

lemma hybridSearch_fallback:
  assumes "trim q \<noteq> []" and "generateQueryEmbedding e q = (Inl err, tr0)"
    and "fallbackToFTSOnly_of opts"
  shows "hybridSearch e q opts =
           (fst (fts_only_search e q (documentId opts) (limit_of opts)),
            tr0 @ snd (fts_only_search e q (documentId opts) (limit_of opts)))"
  using assms nonblank_nonempty [of q] by (auto simp add: hybridSearch_def case_prod_beta)

lemma hybridSearch_function_ok:
  assumes "trim q \<noteq> []" and "generateQueryEmbedding e q = (Inr v, tr0)"
    and "useSupabaseFunction_of opts"
    and "performSupabaseHybridSearch e v q opts = (Inr rs0, tr1)"
  shows "hybridSearch e q opts =
           (\<lparr> success = True, error = None, query = q,
              results = slice0 rs0 (limit_of opts),
              total = length (slice0 rs0 (limit_of opts)),
              method_name = Some ''supabase_function'' \<rparr>, tr0 @ tr1)"
  using assms nonblank_nonempty [of q] by (auto simp add: hybridSearch_def Let_def)

lemma hybridSearch_function_error:
  assumes "trim q \<noteq> []" and "generateQueryEmbedding e q = (Inr v, tr0)"
    and "useSupabaseFunction_of opts"
    and "performSupabaseHybridSearch e v q opts = (Inl err, tr1)"
  shows "hybridSearch e q opts =
           (error_outcome (JsError ''Assignment to constant variable.'') q, tr0 @ tr1)"
  using assms nonblank_nonempty [of q] by (auto simp add: hybridSearch_def)

lemma hybridSearch_merge:
  assumes "trim q \<noteq> []" and "generateQueryEmbedding e q = (Inr v, tr0)"
    and "\<not> useSupabaseFunction_of opts"
  shows "hybridSearch e q opts =
           (fst (javascript_merge e q v (documentId opts) (limit_of opts)
                   (ftsWeight_of opts) (vectorWeight_of opts)),
            tr0 @ snd (javascript_merge e q v (documentId opts) (limit_of opts)
                   (ftsWeight_of opts) (vectorWeight_of opts)))"
  using assms nonblank_nonempty [of q] by (auto simp add: hybridSearch_def case_prod_beta)

text \<open>The six paths, as a case rule.\<close>

lemma hybridSearch_cases [case_names blank no_fallback fallback function_ok function_error merge]:
  assumes "trim q = [] \<Longrightarrow> P"
    and "\<And>err tr0. trim q \<noteq> [] \<Longrightarrow> generateQueryEmbedding e q = (Inl err, tr0) \<Longrightarrow>
            \<not> fallbackToFTSOnly_of opts \<Longrightarrow> P"
    and "\<And>err tr0. trim q \<noteq> [] \<Longrightarrow> generateQueryEmbedding e q = (Inl err, tr0) \<Longrightarrow>
            fallbackToFTSOnly_of opts \<Longrightarrow> P"
    and "\<And>v tr0 rs0 tr1. trim q \<noteq> [] \<Longrightarrow> generateQueryEmbedding e q = (Inr v, tr0) \<Longrightarrow>
            useSupabaseFunction_of opts \<Longrightarrow>
            performSupabaseHybridSearch e v q opts = (Inr rs0, tr1) \<Longrightarrow> P"
    and "\<And>v tr0 err tr1. trim q \<noteq> [] \<Longrightarrow> generateQueryEmbedding e q = (Inr v, tr0) \<Longrightarrow>
            useSupabaseFunction_of opts \<Longrightarrow>
            performSupabaseHybridSearch e v q opts = (Inl err, tr1) \<Longrightarrow> P"
    and "\<And>v tr0. trim q \<noteq> [] \<Longrightarrow> generateQueryEmbedding e q = (Inr v, tr0) \<Longrightarrow>
            \<not> useSupabaseFunction_of opts \<Longrightarrow> P"
  shows P
proof (cases "trim q = []")
  case True
  then show ?thesis by (rule assms(1))
next
  case False
  obtain r tr0 where g: "generateQueryEmbedding e q = (r, tr0)"
    by (cases "generateQueryEmbedding e q")
  show ?thesis
  proof (cases r)
    case (Inl err)
    with False g show ?thesis
      using assms(2,3) by (cases "fallbackToFTSOnly_of opts") auto
  next
    case (Inr v)
    obtain r1 tr1 where p: "performSupabaseHybridSearch e v q opts = (r1, tr1)"
      by (cases "performSupabaseHybridSearch e v q opts")
    show ?thesis
    proof (cases "useSupabaseFunction_of opts")
      case True
      with False g Inr p show ?thesis
        using assms(4,5) by (cases r1) auto
    next
      case nofn: False
      with False g Inr show ?thesis
        using assms(6) by auto
    qed
  qed
qed

lemma method_fts_only_search:
  "method_name (fst (fts_only_search e q d n))
     \<in> {Some ''document_search_fallback'', Some ''no_results_found''}"
  by (simp add: fts_only_search_def Let_def case_prod_beta)

lemma success_fts_only_search: "success (fst (fts_only_search e q d n))"
  by (simp add: fts_only_search_def Let_def case_prod_beta)

lemma method_javascript_merge:
  "method_name (fst (javascript_merge e q v d n wl wv)) = Some ''javascript_merge''"
  by (simp add: javascript_merge_def Let_def case_prod_beta)

lemma success_javascript_merge: "success (fst (javascript_merge e q v d n wl wv))"
  by (simp add: javascript_merge_def Let_def case_prod_beta)

text \<open>
  Claim C7, as amended.  The method of every outcome is one of the five strings
  \<^verbatim>\<open>empty_query\<close>, \<^verbatim>\<open>document_search_fallback\<close>, \<^verbatim>\<open>no_results_found\<close>,
  \<^verbatim>\<open>supabase_function\<close>, \<^verbatim>\<open>javascript_merge\<close>, or it is absent; it is absent exactly on
  the error outcome (\<^verbatim>\<open>success = false\<close>).
\<close>

theorem hybridSearch_method_values:
  "method_name (fst (hybridSearch e q opts))
     \<in> {Some ''empty_query'', Some ''document_search_fallback'', Some ''no_results_found'',
         Some ''supabase_function'', Some ''javascript_merge'', None}
   \<and> (method_name (fst (hybridSearch e q opts)) = None)
       = (\<not> success (fst (hybridSearch e q opts)))"
proof (cases rule: hybridSearch_cases [where q = q and e = e and opts = opts])
  case blank
  then show ?thesis
    by (simp add: hybridSearch_blank empty_query_outcome_def)
next
  case (no_fallback err tr0)
  then show ?thesis
    by (simp add: hybridSearch_no_fallback error_outcome_def)
next
  case (fallback err tr0)
  then show ?thesis
    using method_fts_only_search [of e q "documentId opts" "limit_of opts"]
    by (auto simp add: hybridSearch_fallback success_fts_only_search)
next
  case (function_ok v tr0 rs0 tr1)
  then show ?thesis
    by (simp add: hybridSearch_function_ok)
next
  case (function_error v tr0 err tr1)
  then show ?thesis
    by (simp add: hybridSearch_function_error error_outcome_def)
next
  case (merge v tr0)
  then show ?thesis
    by (simp add: hybridSearch_merge method_javascript_merge success_javascript_merge)
qed

text \<open>
  Claim C7 as stated fails: the outcome for the empty query has the method
  \<^verbatim>\<open>empty_query\<close>, which is none of \<^verbatim>\<open>fused\<close>, \<^verbatim>\<open>lexical-fallback\<close>,
  \<^verbatim>\<open>document-fallback\<close>, \<^verbatim>\<open>no-results\<close>, \<^verbatim>\<open>error\<close>.
\<close>

theorem method_not_among_spec_values:
  "method_name (fst (hybridSearch env_no_key [] no_options))
     \<notin> {Some ''fused'', Some ''lexical-fallback'', Some ''document-fallback'',
         Some ''no-results'', Some ''error''}"
  by (simp add: hybridSearch_def empty_query_outcome_def)

subsection \<open>Traces\<close>

lemma trace_generateQueryEmbedding:
  "snd (generateQueryEmbedding e q) = [] \<or>
   snd (generateQueryEmbedding e q) = [EmbeddingRequest (trim q)]"
  by (simp add: generateQueryEmbedding_def split: embed_reply.splits)

lemma trace_fts_only_search:
  "snd (fts_only_search e q d n) =
     TextStoreQuery q d n #
       (if fst (performFTSSearch e q d n) = [] then [DocumentStoreQuery d n] else [])"
  by (simp add: fts_only_search_def Let_def case_prod_beta performFTSSearch_def
      performDocumentSearch_def)

lemma trace_javascript_merge:
  "snd (javascript_merge e q v d n wl wv) =
     TextStoreQuery q d (n * 2) #
       (if fst (performFTSSearch e q d (n * 2)) = [] then [DocumentStoreQuery d (n * 2)] else [])
       @ [VectorStoreRpc d (n * 2)]"
  by (simp add: javascript_merge_def Let_def case_prod_beta performFTSSearch_def
      performDocumentSearch_def performVectorSearch_def)

lemma trace_performSupabaseHybridSearch:
  "snd (performSupabaseHybridSearch e v q opts)
     = [HybridFunctionRpc q (documentId opts) (limit_of opts)]"
  by (simp add: performSupabaseHybridSearch_def Let_def limit_of_def)

text \<open>The calls of a search, path by path.\<close>

lemma trace_hybridSearch:
  "snd (hybridSearch e q opts) = []
   \<or> snd (hybridSearch e q opts) = snd (generateQueryEmbedding e q)
   \<or> snd (hybridSearch e q opts) =
       snd (generateQueryEmbedding e q)
       @ [HybridFunctionRpc q (documentId opts) (limit_of opts)]
   \<or> snd (hybridSearch e q opts) = snd (generateQueryEmbedding e q) @ fallback_calls e q opts
   \<or> snd (hybridSearch e q opts) = snd (generateQueryEmbedding e q) @ merge_calls e q opts"
proof (cases rule: hybridSearch_cases [where q = q and e = e and opts = opts])
  case blank
  then show ?thesis
    by (simp add: hybridSearch_blank)
next
  case (no_fallback err tr0)
  then show ?thesis
    by (simp add: hybridSearch_no_fallback)
next
  case (fallback err tr0)
  then have "snd (hybridSearch e q opts)
        = snd (generateQueryEmbedding e q) @ fallback_calls e q opts"
    by (simp add: hybridSearch_fallback trace_fts_only_search fallback_calls_def)
  then show ?thesis by blast
next
  case (function_ok v tr0 rs0 tr1)
  then have "snd (hybridSearch e q opts) = snd (generateQueryEmbedding e q) @ tr1"
    by (simp add: hybridSearch_function_ok)
  moreover have "tr1 = [HybridFunctionRpc q (documentId opts) (limit_of opts)]"
    using trace_performSupabaseHybridSearch [of e v q opts] function_ok by simp
  ultimately show ?thesis by blast
next
  case (function_error v tr0 err tr1)
  then have "snd (hybridSearch e q opts) = snd (generateQueryEmbedding e q) @ tr1"
    by (simp add: hybridSearch_function_error)
  moreover have "tr1 = [HybridFunctionRpc q (documentId opts) (limit_of opts)]"
    using trace_performSupabaseHybridSearch [of e v q opts] function_error by simp
  ultimately show ?thesis by blast
next
  case (merge v tr0)
  then have "snd (hybridSearch e q opts)
        = snd (generateQueryEmbedding e q) @ merge_calls e q opts"
    by (simp add: hybridSearch_merge trace_javascript_merge merge_calls_def)
  then show ?thesis by blast
qed

lemma no_store_call_in_embedding:
  "TextStoreQuery x d n \<notin> set (snd (generateQueryEmbedding e q))"
  "DocumentStoreQuery d n \<notin> set (snd (generateQueryEmbedding e q))"
  using trace_generateQueryEmbedding [of e q] by auto

lemma no_rpc_in_embedding:
  "VectorStoreRpc d n \<notin> set (snd (generateQueryEmbedding e q))"
  "HybridFunctionRpc x d n \<notin> set (snd (generateQueryEmbedding e q))"
  using trace_generateQueryEmbedding [of e q] by auto

lemma results_fts_only_search_empty:
  assumes "fst (performFTSSearch e q d n) = []"
  shows "results (fst (fts_only_search e q d n))
         = map (fallback_entry (length (fst (performDocumentSearch e q d n))))
             (enumerate 0 (fst (performDocumentSearch e q d n)))"
  using assms by (simp add: fts_only_search_def Let_def case_prod_beta)

lemma results_javascript_merge_eq:
  "results (fst (javascript_merge e q v d n wl wv))
   = slice0 (mergeAndScore
               (if fst (performFTSSearch e q d (n * 2)) = []
                then fst (performDocumentSearch e q d (n * 2))
                else fst (performFTSSearch e q d (n * 2)))
               (fst (performVectorSearch e v d (n * 2))) wl wv) n"
  by (simp add: javascript_merge_def Let_def case_prod_beta)

lemma document_query_without_merge:
  assumes fn: "useSupabaseFunction_of opts"
    and dq: "DocumentStoreQuery d n \<in> set (snd (hybridSearch e q opts))"
  shows "VectorStoreRpc d' n' \<notin> set (snd (hybridSearch e q opts))"
    and "HybridFunctionRpc x d' n' \<notin> set (snd (hybridSearch e q opts))"
    and "results (fst (hybridSearch e q opts))
         = map (fallback_entry (length (fst (performDocumentSearch e q d n))))
             (enumerate 0 (fst (performDocumentSearch e q d n)))"
proof -
  have "VectorStoreRpc d' n' \<notin> set (snd (hybridSearch e q opts))
      \<and> HybridFunctionRpc x d' n' \<notin> set (snd (hybridSearch e q opts))
      \<and> results (fst (hybridSearch e q opts))
         = map (fallback_entry (length (fst (performDocumentSearch e q d n))))
             (enumerate 0 (fst (performDocumentSearch e q d n)))"
  proof (cases rule: hybridSearch_cases [where q = q and e = e and opts = opts])
    case blank
    with dq show ?thesis
      by (simp add: hybridSearch_blank)
  next
    case (no_fallback err tr0)
    with dq no_store_call_in_embedding(2) [where d = d and n = n and e = e and q = q] show ?thesis
      by (simp add: hybridSearch_no_fallback)
  next
    case (fallback err tr0)
    then have tr: "snd (hybridSearch e q opts)
                   = snd (generateQueryEmbedding e q) @ fallback_calls e q opts"
      and out: "fst (hybridSearch e q opts)
                = fst (fts_only_search e q (documentId opts) (limit_of opts))"
      by (simp_all add: hybridSearch_fallback trace_fts_only_search fallback_calls_def)
    from dq no_store_call_in_embedding(2) [where d = d and n = n and e = e and q = q]
    have "DocumentStoreQuery d n \<in> set (fallback_calls e q opts)"
      by (simp add: tr)
    then have dn: "d = documentId opts" "n = limit_of opts"
      and empty: "fst (performFTSSearch e q (documentId opts) (limit_of opts)) = []"
      by (auto simp add: fallback_calls_def split: if_splits)
    show ?thesis
      using no_rpc_in_embedding [where e = e and q = q] empty
      by (simp add: tr out dn fallback_calls_def results_fts_only_search_empty)
  next
    case (function_ok v tr0 rs0 tr1)
    then have "snd (hybridSearch e q opts) = snd (generateQueryEmbedding e q) @ tr1"
      by (simp add: hybridSearch_function_ok)
    moreover have "tr1 = [HybridFunctionRpc q (documentId opts) (limit_of opts)]"
      using trace_performSupabaseHybridSearch [of e v q opts] function_ok by simp
    ultimately show ?thesis
      using dq no_store_call_in_embedding(2) [where d = d and n = n and e = e and q = q] by simp
  next
    case (function_error v tr0 err tr1)
    then have "snd (hybridSearch e q opts) = snd (generateQueryEmbedding e q) @ tr1"
      by (simp add: hybridSearch_function_error)
    moreover have "tr1 = [HybridFunctionRpc q (documentId opts) (limit_of opts)]"
      using trace_performSupabaseHybridSearch [of e v q opts] function_error by simp
    ultimately show ?thesis
      using dq no_store_call_in_embedding(2) [where d = d and n = n and e = e and q = q] by simp
  next
    case (merge v tr0)
    with fn show ?thesis by simp
  qed
  then show "VectorStoreRpc d' n' \<notin> set (snd (hybridSearch e q opts))"
    and "HybridFunctionRpc x d' n' \<notin> set (snd (hybridSearch e q opts))"
    and "results (fst (hybridSearch e q opts))
         = map (fallback_entry (length (fst (performDocumentSearch e q d n))))
             (enumerate 0 (fst (performDocumentSearch e q d n)))"
    by simp_all
qed

lemma merge_path:
  assumes "\<not> useSupabaseFunction_of opts" and "trim q \<noteq> []"
    and "fst (generateQueryEmbedding e q) = Inr v"
  shows "snd (hybridSearch e q opts) = snd (generateQueryEmbedding e q) @ merge_calls e q opts"
    and "results (fst (hybridSearch e q opts))
         = slice0 (mergeAndScore
               (if fst (performFTSSearch e q (documentId opts) (limit_of opts * 2)) = []
                then fst (performDocumentSearch e q (documentId opts) (limit_of opts * 2))
                else fst (performFTSSearch e q (documentId opts) (limit_of opts * 2)))
               (fst (performVectorSearch e v (documentId opts) (limit_of opts * 2)))
               (ftsWeight_of opts) (vectorWeight_of opts)) (limit_of opts)"
proof -
  from assms(3) have g: "generateQueryEmbedding e q = (Inr v, snd (generateQueryEmbedding e q))"
    by (cases "generateQueryEmbedding e q") simp
  from hybridSearch_merge [OF assms(2) g assms(1)]
  show "snd (hybridSearch e q opts) = snd (generateQueryEmbedding e q) @ merge_calls e q opts"
    by (simp add: trace_javascript_merge merge_calls_def)
  from hybridSearch_merge [OF assms(2) g assms(1)]
  show "results (fst (hybridSearch e q opts))
         = slice0 (mergeAndScore
               (if fst (performFTSSearch e q (documentId opts) (limit_of opts * 2)) = []
                then fst (performDocumentSearch e q (documentId opts) (limit_of opts * 2))
                else fst (performFTSSearch e q (documentId opts) (limit_of opts * 2)))
               (fst (performVectorSearch e v (documentId opts) (limit_of opts * 2)))
               (ftsWeight_of opts) (vectorWeight_of opts)) (limit_of opts)"
    by (simp add: results_javascript_merge_eq)
qed

text \<open>
  Claim C3, as amended.
  \<^item> In every search the document search is called exactly when the full-text search was
    called and returned no row, with the same scope and limit: a full-text query in the
    trace is for the query text, and the document query is in the trace iff that
    full-text search found nothing; every document query follows such a full-text query;
    and if the full-text search returns one or more rows, no document query is issued at
    all.
  \<^item> Unless the caller passes \<^verbatim>\<open>useSupabaseFunction: false\<close>, a search that calls the
    document search calls neither the vector search nor the SQL hybrid function, and its
    results are the document matches, in order.
  \<^item> With \<^verbatim>\<open>useSupabaseFunction: false\<close> and an embedding, the search calls the full-text
    search, the document search if that found nothing, and then the vector search,
    whatever the document search found; its results are the fusion of the full-text
    matches (or, when there are none, the document matches) with the vector matches, cut
    to the limit.
\<close>

theorem document_fallback_iff_lexical_empty:
  "(\<forall>x d n. TextStoreQuery x d n \<in> set (snd (hybridSearch e q opts)) \<longrightarrow>
       x = q \<and>
       (DocumentStoreQuery d n \<in> set (snd (hybridSearch e q opts))
          \<longleftrightarrow> fst (performFTSSearch e q d n) = []))
   \<and> (\<forall>d n. DocumentStoreQuery d n \<in> set (snd (hybridSearch e q opts)) \<longrightarrow>
         TextStoreQuery q d n \<in> set (snd (hybridSearch e q opts))
         \<and> fst (performFTSSearch e q d n) = [])
   \<and> (\<forall>x d n. TextStoreQuery x d n \<in> set (snd (hybridSearch e q opts))
         \<and> fst (performFTSSearch e x d n) \<noteq> [] \<longrightarrow>
         (\<forall>d' n'. DocumentStoreQuery d' n' \<notin> set (snd (hybridSearch e q opts))))
   \<and> (\<forall>d n. useSupabaseFunction_of opts
         \<and> DocumentStoreQuery d n \<in> set (snd (hybridSearch e q opts)) \<longrightarrow>
         (\<forall>d' n'. VectorStoreRpc d' n' \<notin> set (snd (hybridSearch e q opts)))
         \<and> (\<forall>x d' n'. HybridFunctionRpc x d' n' \<notin> set (snd (hybridSearch e q opts)))
         \<and> results (fst (hybridSearch e q opts))
             = map (fallback_entry (length (fst (performDocumentSearch e q d n))))
                 (enumerate 0 (fst (performDocumentSearch e q d n))))
   \<and> (\<forall>v. \<not> useSupabaseFunction_of opts \<and> trim q \<noteq> []
         \<and> fst (generateQueryEmbedding e q) = Inr v \<longrightarrow>
         snd (hybridSearch e q opts) = snd (generateQueryEmbedding e q) @ merge_calls e q opts
         \<and> results (fst (hybridSearch e q opts))
             = slice0 (mergeAndScore
                 (if fst (performFTSSearch e q (documentId opts) (limit_of opts * 2)) = []
                  then fst (performDocumentSearch e q (documentId opts) (limit_of opts * 2))
                  else fst (performFTSSearch e q (documentId opts) (limit_of opts * 2)))
                 (fst (performVectorSearch e v (documentId opts) (limit_of opts * 2)))
                 (ftsWeight_of opts) (vectorWeight_of opts)) (limit_of opts))"
proof -
  have calls: "(\<forall>x d n. TextStoreQuery x d n \<in> set (snd (hybridSearch e q opts)) \<longrightarrow>
       x = q \<and>
       (DocumentStoreQuery d n \<in> set (snd (hybridSearch e q opts))
          \<longleftrightarrow> fst (performFTSSearch e q d n) = []))
   \<and> (\<forall>d n. DocumentStoreQuery d n \<in> set (snd (hybridSearch e q opts)) \<longrightarrow>
         TextStoreQuery q d n \<in> set (snd (hybridSearch e q opts))
         \<and> fst (performFTSSearch e q d n) = [])
   \<and> (\<forall>x d n. TextStoreQuery x d n \<in> set (snd (hybridSearch e q opts))
         \<and> fst (performFTSSearch e x d n) \<noteq> [] \<longrightarrow>
         (\<forall>d' n'. DocumentStoreQuery d' n' \<notin> set (snd (hybridSearch e q opts))))"
    using trace_hybridSearch [of e q opts]
    by (elim disjE)
       (auto simp add: no_store_call_in_embedding fallback_calls_def merge_calls_def
          split: if_splits)
  have default: "\<forall>d n. useSupabaseFunction_of opts
         \<and> DocumentStoreQuery d n \<in> set (snd (hybridSearch e q opts)) \<longrightarrow>
         (\<forall>d' n'. VectorStoreRpc d' n' \<notin> set (snd (hybridSearch e q opts)))
         \<and> (\<forall>x d' n'. HybridFunctionRpc x d' n' \<notin> set (snd (hybridSearch e q opts)))
         \<and> results (fst (hybridSearch e q opts))
             = map (fallback_entry (length (fst (performDocumentSearch e q d n))))
                 (enumerate 0 (fst (performDocumentSearch e q d n)))"
    using document_query_without_merge [of opts _ _ e q] by blast
  have merge: "\<forall>v. \<not> useSupabaseFunction_of opts \<and> trim q \<noteq> []
         \<and> fst (generateQueryEmbedding e q) = Inr v \<longrightarrow>
         snd (hybridSearch e q opts) = snd (generateQueryEmbedding e q) @ merge_calls e q opts
         \<and> results (fst (hybridSearch e q opts))
             = slice0 (mergeAndScore
                 (if fst (performFTSSearch e q (documentId opts) (limit_of opts * 2)) = []
                  then fst (performDocumentSearch e q (documentId opts) (limit_of opts * 2))
                  else fst (performFTSSearch e q (documentId opts) (limit_of opts * 2)))
                 (fst (performVectorSearch e v (documentId opts) (limit_of opts * 2)))
                 (ftsWeight_of opts) (vectorWeight_of opts)) (limit_of opts)"
    using merge_path [of opts q e] by blast
  from calls default merge show ?thesis
    by (intro conjI) (elim conjE, assumption)+
qed

lemma generateQueryEmbedding_fails_iff:
  "(\<exists>err. fst (generateQueryEmbedding e q) = Inl err) \<longleftrightarrow>
     OPENAI_API_KEY e = None \<or> OPENAI_API_KEY e = Some []
     \<or> (\<exists>msg. embedding_service e (trim q) = FetchThrows msg)
     \<or> (\<exists>msg. embedding_service e (trim q) = ResponseNotOk msg)"
  by (auto simp add: generateQueryEmbedding_def split: embed_reply.splits)

lemma fts_only_search_found:
  assumes "fst (performFTSSearch e q d n) = L" and "L \<noteq> []"
  shows "fst (fts_only_search e q d n) =
           \<lparr> success = True, error = None, query = q,
             results = map (fallback_entry (length L)) (enumerate 0 L),
             total = length L, method_name = Some ''document_search_fallback'' \<rparr>"
  using assms by (simp add: fts_only_search_def Let_def case_prod_beta)

lemma fallback_entry_fields:
  "id_of (fallback_entry n ir) = id_of (snd ir)"
  "document_id (fallback_entry n ir) = document_id (snd ir)"
  "chunk (fallback_entry n ir) = chunk (snd ir)"
  "similarity (fallback_entry n ir) = similarity (snd ir)"
  "vector_score (fallback_entry n ir) = 0"
  "fts_score (fallback_entry n ir) = rank_score (fst ir) n"
  "hybrid_score (fallback_entry n ir) = rank_score (fst ir) n"
  by (cases ir; simp add: fallback_entry_def)+

lemma rows_of_fallback_entries:
  "map (\<lambda>r. (id_of r, document_id r, chunk r, similarity r))
       (map (fallback_entry n) (enumerate k L))
   = map (\<lambda>r. (id_of r, document_id r, chunk r, similarity r)) L"
  by (induction L arbitrary: k) (simp_all add: fallback_entry_fields)

lemma vector_score_fallback_entries:
  "r \<in> set (map (fallback_entry n) irs) \<Longrightarrow> vector_score r = 0"
  by (auto simp: fallback_entry_fields)

lemma embedding_trace:
  "fst (generateQueryEmbedding e q) = Inl err \<Longrightarrow>
   generateQueryEmbedding e q = (Inl err, snd (generateQueryEmbedding e q))"
  by (metis prod.collapse)

text \<open>
  Claim C6, as amended.  Let the query be non-blank, let the embedding fail (no API key,
  a request that throws, or a response that is not ok: the last conjunct) and let the
  full-text search return the non-empty list \<open>L\<close>.  Unless the caller passed
  \<^verbatim>\<open>fallbackToFTSOnly: false\<close>, the outcome has \<^verbatim>\<open>success = true\<close>, no error, the rows of
  \<open>L\<close> in their order as its results, and vector score 0 on every result.  With
  \<^verbatim>\<open>fallbackToFTSOnly: false\<close> the outcome is the error object carrying the message of
  the embedding error.
\<close>

theorem embedding_failure_recovers_unless_disabled:
  assumes "trim q \<noteq> []"
    and "fst (generateQueryEmbedding e q) = Inl err"
    and "fst (performFTSSearch e q (documentId opts) (limit_of opts)) = L"
    and "L \<noteq> []"
  shows "(fallbackToFTSOnly opts \<noteq> Some False \<longrightarrow>
            success (fst (hybridSearch e q opts))
          \<and> error (fst (hybridSearch e q opts)) = None
          \<and> total (fst (hybridSearch e q opts)) = length L
          \<and> map (\<lambda>r. (id_of r, document_id r, chunk r, similarity r))
                 (results (fst (hybridSearch e q opts)))
              = map (\<lambda>r. (id_of r, document_id r, chunk r, similarity r)) L
          \<and> (\<forall>r \<in> set (results (fst (hybridSearch e q opts))). vector_score r = 0))
       \<and> (fallbackToFTSOnly opts = Some False \<longrightarrow>
            fst (hybridSearch e q opts)
              = \<lparr> success = False, error = Some (message err), query = q, results = [],
                  total = 0, method_name = None \<rparr>)
       \<and> ((\<exists>err'. fst (generateQueryEmbedding e q) = Inl err') \<longleftrightarrow>
            OPENAI_API_KEY e = None \<or> OPENAI_API_KEY e = Some []
            \<or> (\<exists>msg. embedding_service e (trim q) = FetchThrows msg)
            \<or> (\<exists>msg. embedding_service e (trim q) = ResponseNotOk msg))"
proof (intro conjI impI)
  assume on: "fallbackToFTSOnly opts \<noteq> Some False"
  then have fb: "fallbackToFTSOnly_of opts"
    by (cases "fallbackToFTSOnly opts") (auto simp: fallbackToFTSOnly_of_def)
  have out: "fst (hybridSearch e q opts) =
           \<lparr> success = True, error = None, query = q,
             results = map (fallback_entry (length L)) (enumerate 0 L),
             total = length L, method_name = Some ''document_search_fallback'' \<rparr>"
    using hybridSearch_fallback [OF assms(1) embedding_trace [OF assms(2)] fb]
          fts_only_search_found [OF assms(3,4)]
    by simp
  show "success (fst (hybridSearch e q opts))"
    by (simp add: out)
  show "error (fst (hybridSearch e q opts)) = None"
    by (simp add: out)
  show "total (fst (hybridSearch e q opts)) = length L"
    by (simp add: out)
  show "map (\<lambda>r. (id_of r, document_id r, chunk r, similarity r))
                 (results (fst (hybridSearch e q opts)))
              = map (\<lambda>r. (id_of r, document_id r, chunk r, similarity r)) L"
    unfolding out by (simp only: outcome.simps rows_of_fallback_entries)
  show "\<forall>r \<in> set (results (fst (hybridSearch e q opts))). vector_score r = 0"
    unfolding out by (auto simp: fallback_entry_fields)
next
  assume off: "fallbackToFTSOnly opts = Some False"
  then have "\<not> fallbackToFTSOnly_of opts"
    by (simp add: fallbackToFTSOnly_of_def)
  from hybridSearch_no_fallback [OF assms(1) embedding_trace [OF assms(2)] this]
  show "fst (hybridSearch e q opts)
              = \<lparr> success = False, error = Some (message err), query = q, results = [],
                  total = 0, method_name = None \<rparr>"
    by (simp add: error_outcome_def)
next
  show "(\<exists>err'. fst (generateQueryEmbedding e q) = Inl err') \<longleftrightarrow>
            OPENAI_API_KEY e = None \<or> OPENAI_API_KEY e = Some []
            \<or> (\<exists>msg. embedding_service e (trim q) = FetchThrows msg)
            \<or> (\<exists>msg. embedding_service e (trim q) = ResponseNotOk msg)"
    by (rule generateQueryEmbedding_fails_iff)
qed

text \<open>
  Claim C6 as stated fails: without an API key and with a text store that finds two
  passages, the search called with \<^verbatim>\<open>fallbackToFTSOnly: false\<close> ends with
  \<^verbatim>\<open>success = false\<close> and no results.
\<close>

theorem embedding_failure_is_fatal_when_fallback_disabled:
  "trim ''ai'' \<noteq> []
   \<and> fst (generateQueryEmbedding env_no_key ''ai'')
       = Inl (JsError
           ''OpenAI API key not configured. Set VITE_OPENAI_API_KEY in your .env file.'')
   \<and> fst (performFTSSearch env_no_key ''ai'' None 10) = two_fts_rows
   \<and> length two_fts_rows = 2
   \<and> \<not> success (fst (hybridSearch env_no_key ''ai'' no_fallback_options))
   \<and> results (fst (hybridSearch env_no_key ''ai'' no_fallback_options)) = []"
  by code_simp

theorem embedding_failure_recovers_unless_disabled_witness:
  "trim ''ai'' \<noteq> []
   \<and> fst (performFTSSearch env_no_key ''ai'' (documentId no_options) (limit_of no_options))
       = two_fts_rows
   \<and> two_fts_rows \<noteq> []
   \<and> fallbackToFTSOnly no_options \<noteq> Some False
   \<and> success (fst (hybridSearch env_no_key ''ai'' no_options))
   \<and> error (fst (hybridSearch env_no_key ''ai'' no_options)) = None
   \<and> total (fst (hybridSearch env_no_key ''ai'' no_options)) = 2
   \<and> map (\<lambda>r. (id_of r, document_id r, chunk r, similarity r))
        (results (fst (hybridSearch env_no_key ''ai'' no_options)))
       = map (\<lambda>r. (id_of r, document_id r, chunk r, similarity r)) two_fts_rows
   \<and> map vector_score (results (fst (hybridSearch env_no_key ''ai'' no_options))) = [0, 0]"
proof -
  have h1: "trim ''ai'' \<noteq> []"
    by code_simp
  have h2: "fst (generateQueryEmbedding env_no_key ''ai'')
       = Inl (JsError
           ''OpenAI API key not configured. Set VITE_OPENAI_API_KEY in your .env file.'')"
    by code_simp
  have h3: "fst (performFTSSearch env_no_key ''ai'' (documentId no_options)
                   (limit_of no_options)) = two_fts_rows"
    by code_simp
  have h4: "two_fts_rows \<noteq> []"
    by code_simp
  have h5: "fallbackToFTSOnly no_options \<noteq> Some False"
    by code_simp
  have len: "length two_fts_rows = 2"
    by code_simp
  have vs: "map vector_score (results (fst (hybridSearch env_no_key ''ai'' no_options)))
             = [0, 0]"
    by code_simp
  from embedding_failure_recovers_unless_disabled [OF h1 h2 h3 h4] h5
  have "success (fst (hybridSearch env_no_key ''ai'' no_options))
      \<and> error (fst (hybridSearch env_no_key ''ai'' no_options)) = None
      \<and> total (fst (hybridSearch env_no_key ''ai'' no_options)) = length two_fts_rows
      \<and> map (\<lambda>r. (id_of r, document_id r, chunk r, similarity r))
          (results (fst (hybridSearch env_no_key ''ai'' no_options)))
        = map (\<lambda>r. (id_of r, document_id r, chunk r, similarity r)) two_fts_rows"
    by blast
  with h1 h3 h4 h5 len vs show ?thesis
    by simp
qed

lemma in_set_slice0: "r \<in> set (slice0 xs n) \<Longrightarrow> r \<in> set xs"
  by (auto simp: slice0_def dest: in_set_takeD split: if_splits)

lemma results_javascript_merge:
  "\<exists>L V. results (fst (javascript_merge e q v d n wl wv)) = slice0 (mergeAndScore L V wl wv) n"
  by (auto simp add: javascript_merge_def Let_def case_prod_beta)

lemma javascript_merge_hybrid:
  assumes "r \<in> set (results (fst (javascript_merge e q v d n wl wv)))"
  shows "hybrid_score r = wl * fts_score r + wv * vector_score r"
proof -
  from results_javascript_merge [of e q v d n wl wv] obtain L V
    where "results (fst (javascript_merge e q v d n wl wv)) = slice0 (mergeAndScore L V wl wv) n"
    by blast
  with assms have "r \<in> set (mergeAndScore L V wl wv)"
    by (simp add: in_set_slice0)
  then show ?thesis
    by (rule mergeAndScore_hybrid)
qed

lemma results_fts_only_search:
  "\<exists>L. results (fst (fts_only_search e q d n)) = map (fallback_entry (length L)) (enumerate 0 L)"
  by (auto simp add: fts_only_search_def Let_def case_prod_beta)

lemma fallback_entries_nth:
  assumes "i < length L"
  shows "map (fallback_entry n) (enumerate 0 L) ! i = fallback_entry n (i, L ! i)"
  using assms by (simp add: nth_enumerate_eq)

lemma fts_only_search_scores:
  assumes "i < length (results (fst (fts_only_search e q d n)))"
  shows "vector_score (results (fst (fts_only_search e q d n)) ! i) = 0
       \<and> fts_score (results (fst (fts_only_search e q d n)) ! i)
           = max 0 (1 - real i / real (length (results (fst (fts_only_search e q d n)))))
       \<and> hybrid_score (results (fst (fts_only_search e q d n)) ! i)
           = fts_score (results (fst (fts_only_search e q d n)) ! i)"
proof -
  obtain L where L: "results (fst (fts_only_search e q d n))
                     = map (fallback_entry (length L)) (enumerate 0 L)"
    using results_fts_only_search [of e q d n] by blast
  with assms have i: "i < length L" by simp
  show ?thesis
    unfolding L using i
    by (simp add: nth_enumerate_eq fallback_entry_fields rank_score_def)
qed

lemma supabase_function_results:
  assumes "method_name (fst (hybridSearch e q opts)) = Some ''supabase_function''"
  shows "\<exists>v data. fst (generateQueryEmbedding e q) = Inr v
           \<and> hybrid_function e v q (documentId opts) (limit_of opts) = StoreData data
           \<and> results (fst (hybridSearch e q opts))
               = slice0 (map format_hybrid_row (case data of None \<Rightarrow> [] | Some rs \<Rightarrow> rs))
                   (limit_of opts)"
proof (cases rule: hybridSearch_cases [where q = q and e = e and opts = opts])
  case blank
  with assms show ?thesis
    by (simp add: hybridSearch_blank empty_query_outcome_def)
next
  case (no_fallback err tr0)
  with assms show ?thesis
    by (simp add: hybridSearch_no_fallback error_outcome_def)
next
  case (fallback err tr0)
  then have "fst (hybridSearch e q opts)
             = fst (fts_only_search e q (documentId opts) (limit_of opts))"
    by (simp add: hybridSearch_fallback)
  with assms method_fts_only_search [of e q "documentId opts" "limit_of opts"]
  show ?thesis by auto
next
  case (function_ok v tr0 rs0 tr1)
  then have out: "results (fst (hybridSearch e q opts)) = slice0 rs0 (limit_of opts)"
    by (simp add: hybridSearch_function_ok)
  from function_ok(4)
  have "\<exists>data. hybrid_function e v q (documentId opts) (limit_of opts) = StoreData data
          \<and> rs0 = map format_hybrid_row (case data of None \<Rightarrow> [] | Some rs \<Rightarrow> rs)"
    by (auto simp add: performSupabaseHybridSearch_def Let_def limit_of_def
        split: store_reply.splits)
  with out function_ok(2) show ?thesis
    by auto
next
  case (function_error v tr0 err tr1)
  with assms show ?thesis
    by (simp add: hybridSearch_function_error error_outcome_def)
next
  case (merge v tr0)
  then have "fst (hybridSearch e q opts)
        = fst (javascript_merge e q v (documentId opts) (limit_of opts)
                   (ftsWeight_of opts) (vectorWeight_of opts))"
    by (simp add: hybridSearch_merge)
  with assms show ?thesis
    by (simp add: method_javascript_merge)
qed

text \<open>The weights reach the scores only through the JavaScript merge: on every other
  path, the path of the SQL function included, \<^verbatim>\<open>ftsWeight\<close> and \<^verbatim>\<open>vectorWeight\<close> are
  destructured and not used (\<^verbatim>\<open>performSupabaseHybridSearch\<close> does not send them).\<close>

lemma weights_unused_unless_merge:
  assumes "useSupabaseFunction_of opts"
  shows "hybridSearch e q (opts\<lparr>ftsWeight := a, vectorWeight := b\<rparr>) = hybridSearch e q opts"
proof -
  let ?o = "opts\<lparr>ftsWeight := a, vectorWeight := b\<rparr>"
  have same: "fallbackToFTSOnly_of ?o = fallbackToFTSOnly_of opts"
    "limit_of ?o = limit_of opts" "documentId ?o = documentId opts"
    "\<And>v. performSupabaseHybridSearch e v q ?o = performSupabaseHybridSearch e v q opts"
    by (simp_all add: fallbackToFTSOnly_of_def limit_of_def performSupabaseHybridSearch_def)
  from assms have fn: "useSupabaseFunction_of ?o = True" "useSupabaseFunction_of opts = True"
    by (simp_all add: useSupabaseFunction_of_def)
  show ?thesis
    unfolding hybridSearch_def same fn if_True by (rule refl)
qed

text \<open>
  Claim C2, as amended.  On the JavaScript-merge path every result has
  \<open>hybrid_score = ftsWeight * fts_score + vectorWeight * vector_score\<close> for the supplied
  (or default) weights.  On the path taken when the embedding fails, the rank score is
  computed: the result at index \<open>i\<close> of \<open>N\<close> has full-text score \<open>max 0 (1 - i/N)\<close>, vector
  score 0, and its hybrid score is its full-text score, not multiplied by the weight.
\<close>

theorem hybrid_score_by_path:
  "(method_name (fst (hybridSearch e q opts)) = Some ''javascript_merge'' \<longrightarrow>
      (\<forall>r \<in> set (results (fst (hybridSearch e q opts))).
         hybrid_score r = ftsWeight_of opts * fts_score r + vectorWeight_of opts * vector_score r))
   \<and> (method_name (fst (hybridSearch e q opts))
         \<in> {Some ''document_search_fallback'', Some ''no_results_found''} \<longrightarrow>
      (\<forall>i < length (results (fst (hybridSearch e q opts))).
         vector_score (results (fst (hybridSearch e q opts)) ! i) = 0
       \<and> fts_score (results (fst (hybridSearch e q opts)) ! i)
           = max 0 (1 - real i / real (length (results (fst (hybridSearch e q opts)))))
       \<and> hybrid_score (results (fst (hybridSearch e q opts)) ! i)
           = fts_score (results (fst (hybridSearch e q opts)) ! i)))"
proof (cases rule: hybridSearch_cases [where q = q and e = e and opts = opts])
  case blank
  then show ?thesis
    by (simp add: hybridSearch_blank empty_query_outcome_def)
next
  case (no_fallback err tr0)
  then show ?thesis
    by (simp add: hybridSearch_no_fallback error_outcome_def)
next
  case (fallback err tr0)
  then have out: "fst (hybridSearch e q opts)
                  = fst (fts_only_search e q (documentId opts) (limit_of opts))"
    by (simp add: hybridSearch_fallback)
  have m: "method_name (fst (fts_only_search e q (documentId opts) (limit_of opts)))
            \<noteq> Some ''javascript_merge''"
       "method_name (fst (fts_only_search e q (documentId opts) (limit_of opts)))
            \<noteq> Some ''supabase_function''"
    using method_fts_only_search [of e q "documentId opts" "limit_of opts"] by auto
  show ?thesis
    unfolding out using m fts_only_search_scores by blast
next
  case (function_ok v tr0 rs0 tr1)
  then have out: "fst (hybridSearch e q opts) =
           \<lparr> success = True, error = None, query = q,
              results = slice0 rs0 (limit_of opts),
              total = length (slice0 rs0 (limit_of opts)),
              method_name = Some ''supabase_function'' \<rparr>"
    by (simp add: hybridSearch_function_ok)
  show ?thesis
    unfolding out by simp
next
  case (function_error v tr0 err tr1)
  then show ?thesis
    by (simp add: hybridSearch_function_error error_outcome_def)
next
  case (merge v tr0)
  then have out: "fst (hybridSearch e q opts)
        = fst (javascript_merge e q v (documentId opts) (limit_of opts)
                   (ftsWeight_of opts) (vectorWeight_of opts))"
    by (simp add: hybridSearch_merge)
  show ?thesis
    unfolding out using javascript_merge_hybrid
    by (auto simp add: method_javascript_merge)
qed

text \<open>
  Claim C2 as stated fails: with the weights 0.5 and 0.5 and a failed embedding, the first
  full-text match gets full-text score 1, vector score 0 and hybrid score 1, not
  \<open>0.5 * 1 + 0.5 * 0\<close>.
\<close>

theorem fallback_hybrid_score_ignores_weights:
  "ftsWeight half_weights = Some (1/2) \<and> vectorWeight half_weights = Some (1/2)
   \<and> success (fst (hybridSearch env_no_key ''ai'' half_weights))
   \<and> map (\<lambda>r. (id_of r, fts_score r, vector_score r, hybrid_score r))
        (results (fst (hybridSearch env_no_key ''ai'' half_weights)))
       = [(1, 1, 0, 1), (2, 1/2, 0, 1/2)]
   \<and> hybrid_score (hd (results (fst (hybridSearch env_no_key ''ai'' half_weights))))
       \<noteq> 1/2 * fts_score (hd (results (fst (hybridSearch env_no_key ''ai'' half_weights))))
         + 1/2 * vector_score (hd (results (fst (hybridSearch env_no_key ''ai'' half_weights))))"
  by code_simp

text \<open>
  Claim C3 as stated fails: on the JavaScript-merge path, with no full-text match, the
  document search is called although the vector search finds a passage, and the result
  list holds the document match (id 7) beside the vector match (id 1).
\<close>

theorem document_fallback_runs_beside_vector_results:
  "fst (performVectorSearch env_title_and_vector [1, 0] None 20) \<noteq> []
   \<and> fst (performDocumentSearch env_title_and_vector ''ai'' None 20)
       = [\<lparr>id_of = 7, document_id = Some 7, chunk = ''Notes on AI'', similarity = None\<rparr>]
   \<and> snd (hybridSearch env_title_and_vector ''ai'' merge_options)
       = [EmbeddingRequest ''ai'', TextStoreQuery ''ai'' None 20,
          DocumentStoreQuery None 20, VectorStoreRpc None 20]
   \<and> map (\<lambda>r. (id_of r, chunk r, fts_score r, vector_score r))
        (results (fst (hybridSearch env_title_and_vector ''ai'' merge_options)))
       = [(7, ''Notes on AI'', 1, 0), (1, ''AI is the study of agents'', 0, 9/10)]"
  by code_simp

text \<open>The amended claims C2, C3 and C7 at concrete searches.\<close>

theorem hybrid_score_by_path_witness:
  "method_name (fst (hybridSearch env_title_and_vector ''ai'' merge_options))
     = Some ''javascript_merge''
   \<and> length (results (fst (hybridSearch env_title_and_vector ''ai'' merge_options))) = 2
   \<and> list_all (\<lambda>r. hybrid_score r = ftsWeight_of merge_options * fts_score r
                                       + vectorWeight_of merge_options * vector_score r)
        (results (fst (hybridSearch env_title_and_vector ''ai'' merge_options)))
   \<and> method_name (fst (hybridSearch env_no_key ''ai'' half_weights))
     = Some ''document_search_fallback''
   \<and> (0::nat) < length (results (fst (hybridSearch env_no_key ''ai'' half_weights)))
   \<and> vector_score (results (fst (hybridSearch env_no_key ''ai'' half_weights)) ! 0) = 0
   \<and> hybrid_score (results (fst (hybridSearch env_no_key ''ai'' half_weights)) ! 0)
       = fts_score (results (fst (hybridSearch env_no_key ''ai'' half_weights)) ! 0)"
proof -
  have m1: "method_name (fst (hybridSearch env_title_and_vector ''ai'' merge_options))
     = Some ''javascript_merge''"
    by code_simp
  have l1: "length (results (fst (hybridSearch env_title_and_vector ''ai'' merge_options))) = 2"
    by code_simp
  have m2: "method_name (fst (hybridSearch env_no_key ''ai'' half_weights))
     = Some ''document_search_fallback''"
    by code_simp
  have l2: "(0::nat) < length (results (fst (hybridSearch env_no_key ''ai'' half_weights)))"
    by code_simp
  from hybrid_score_by_path [of env_title_and_vector "''ai''" merge_options] m1
  have a: "\<forall>r \<in> set (results (fst (hybridSearch env_title_and_vector ''ai'' merge_options))).
         hybrid_score r = ftsWeight_of merge_options * fts_score r
                          + vectorWeight_of merge_options * vector_score r"
    by blast
  from hybrid_score_by_path [of env_no_key "''ai''" half_weights] m2 l2
  have b: "vector_score (results (fst (hybridSearch env_no_key ''ai'' half_weights)) ! 0) = 0
       \<and> hybrid_score (results (fst (hybridSearch env_no_key ''ai'' half_weights)) ! 0)
           = fts_score (results (fst (hybridSearch env_no_key ''ai'' half_weights)) ! 0)"
    by blast
  from a have "list_all (\<lambda>r. hybrid_score r = ftsWeight_of merge_options * fts_score r
                                       + vectorWeight_of merge_options * vector_score r)
        (results (fst (hybridSearch env_title_and_vector ''ai'' merge_options)))"
    by (simp add: list_all_iff)
  with m1 l1 m2 l2 b show ?thesis
    by blast
qed

theorem document_fallback_iff_lexical_empty_witness:
  "TextStoreQuery ''ai'' None 10 \<in> set (snd (hybridSearch env_no_key ''ai'' no_options))
   \<and> fst (performFTSSearch env_no_key ''ai'' None 10) \<noteq> []
   \<and> DocumentStoreQuery None 10 \<notin> set (snd (hybridSearch env_no_key ''ai'' no_options))
   \<and> useSupabaseFunction_of no_options
   \<and> DocumentStoreQuery None 10 \<in> set (snd (hybridSearch env_title_only ''ai'' no_options))
   \<and> TextStoreQuery ''ai'' None 10 \<in> set (snd (hybridSearch env_title_only ''ai'' no_options))
   \<and> fst (performFTSSearch env_title_only ''ai'' None 10) = []
   \<and> VectorStoreRpc None 10 \<notin> set (snd (hybridSearch env_title_only ''ai'' no_options))
   \<and> map (\<lambda>r. (id_of r, chunk r))
        (results (fst (hybridSearch env_title_only ''ai'' no_options)))
       = [(7, ''Notes on AI'')]
   \<and> \<not> useSupabaseFunction_of merge_options \<and> trim ''ai'' \<noteq> []
   \<and> fst (generateQueryEmbedding env_title_and_vector ''ai'') = Inr [1, 0]
   \<and> snd (hybridSearch env_title_and_vector ''ai'' merge_options)
       = [EmbeddingRequest ''ai'', TextStoreQuery ''ai'' None 20,
          DocumentStoreQuery None 20, VectorStoreRpc None 20]
   \<and> results (fst (hybridSearch env_title_and_vector ''ai'' merge_options))
       = slice0 (mergeAndScore
                   (fst (performDocumentSearch env_title_and_vector ''ai'' None 20))
                   (fst (performVectorSearch env_title_and_vector [1, 0] None 20))
                   (1/2) (1/2)) 10"
proof -
  note A = document_fallback_iff_lexical_empty [of env_no_key "''ai''" no_options]
  note B = document_fallback_iff_lexical_empty [of env_title_only "''ai''" no_options]
  note C = document_fallback_iff_lexical_empty [of env_title_and_vector "''ai''" merge_options]
  have t1: "TextStoreQuery ''ai'' None 10 \<in> set (snd (hybridSearch env_no_key ''ai'' no_options))"
    by code_simp
  have f1: "fst (performFTSSearch env_no_key ''ai'' None 10) \<noteq> []"
    by code_simp
  from A t1 f1
  have a: "DocumentStoreQuery None 10 \<notin> set (snd (hybridSearch env_no_key ''ai'' no_options))"
    by blast
  have u2: "useSupabaseFunction_of no_options"
    by code_simp
  have d2: "DocumentStoreQuery None 10
        \<in> set (snd (hybridSearch env_title_only ''ai'' no_options))"
    by code_simp
  from B d2
  have b1: "TextStoreQuery ''ai'' None 10 \<in> set (snd (hybridSearch env_title_only ''ai'' no_options))
   \<and> fst (performFTSSearch env_title_only ''ai'' None 10) = []"
    by blast
  from B u2 d2
  have b2: "VectorStoreRpc None 10 \<notin> set (snd (hybridSearch env_title_only ''ai'' no_options))"
    by blast
  from B u2 d2
  have "results (fst (hybridSearch env_title_only ''ai'' no_options))
         = map (fallback_entry (length (fst (performDocumentSearch env_title_only ''ai'' None 10))))
             (enumerate 0 (fst (performDocumentSearch env_title_only ''ai'' None 10)))"
    by blast
  moreover have "map (\<lambda>r. (id_of r, chunk r))
        (map (fallback_entry (length (fst (performDocumentSearch env_title_only ''ai'' None 10))))
             (enumerate 0 (fst (performDocumentSearch env_title_only ''ai'' None 10))))
       = [(7, ''Notes on AI'')]"
    by code_simp
  ultimately have b3: "map (\<lambda>r. (id_of r, chunk r))
        (results (fst (hybridSearch env_title_only ''ai'' no_options)))
       = [(7, ''Notes on AI'')]"
    by simp
  have u3: "\<not> useSupabaseFunction_of merge_options"
    by code_simp
  have q3: "trim ''ai'' \<noteq> []"
    by code_simp
  have g3: "fst (generateQueryEmbedding env_title_and_vector ''ai'') = Inr [1, 0]"
    by code_simp
  from C u3 q3 g3
  have c: "snd (hybridSearch env_title_and_vector ''ai'' merge_options)
         = snd (generateQueryEmbedding env_title_and_vector ''ai'')
           @ merge_calls env_title_and_vector ''ai'' merge_options
     \<and> results (fst (hybridSearch env_title_and_vector ''ai'' merge_options))
         = slice0 (mergeAndScore
             (if fst (performFTSSearch env_title_and_vector ''ai'' (documentId merge_options)
                        (limit_of merge_options * 2)) = []
              then fst (performDocumentSearch env_title_and_vector ''ai''
                          (documentId merge_options) (limit_of merge_options * 2))
              else fst (performFTSSearch env_title_and_vector ''ai'' (documentId merge_options)
                          (limit_of merge_options * 2)))
             (fst (performVectorSearch env_title_and_vector [1, 0] (documentId merge_options)
                     (limit_of merge_options * 2)))
             (ftsWeight_of merge_options) (vectorWeight_of merge_options))
             (limit_of merge_options)"
    by blast
  have o: "documentId merge_options = None" "limit_of merge_options = 10"
    "ftsWeight_of merge_options = 1/2" "vectorWeight_of merge_options = 1/2"
    by (simp_all add: merge_options_def no_options_def limit_of_def ftsWeight_of_def
        vectorWeight_of_def)
  have f3: "fst (performFTSSearch env_title_and_vector ''ai'' None 20) = []"
    by code_simp
  have tr3: "snd (generateQueryEmbedding env_title_and_vector ''ai'')
           @ merge_calls env_title_and_vector ''ai'' merge_options
       = [EmbeddingRequest ''ai'', TextStoreQuery ''ai'' None 20,
          DocumentStoreQuery None 20, VectorStoreRpc None 20]"
    by code_simp
  from c have c1: "snd (hybridSearch env_title_and_vector ''ai'' merge_options)
       = [EmbeddingRequest ''ai'', TextStoreQuery ''ai'' None 20,
          DocumentStoreQuery None 20, VectorStoreRpc None 20]"
    by (simp only: tr3)
  from c have c2: "results (fst (hybridSearch env_title_and_vector ''ai'' merge_options))
       = slice0 (mergeAndScore
                   (fst (performDocumentSearch env_title_and_vector ''ai'' None 20))
                   (fst (performVectorSearch env_title_and_vector [1, 0] None 20))
                   (1/2) (1/2)) 10"
    by (simp add: o f3)
  from t1 f1 a u2 d2 b1 b2 b3 u3 q3 g3 c1 c2 show ?thesis
    by blast
qed

theorem hybridSearch_method_values_witness:
  "method_name (fst (hybridSearch env_no_key [] no_options)) = Some ''empty_query''
   \<and> method_name (fst (hybridSearch env_no_key ''ai'' no_options))
       = Some ''document_search_fallback''
   \<and> method_name (fst (hybridSearch env_nothing ''ai'' no_options)) = Some ''no_results_found''
   \<and> method_name (fst (hybridSearch env_title_and_vector ''ai'' no_options))
       = Some ''supabase_function''
   \<and> method_name (fst (hybridSearch env_title_and_vector ''ai'' merge_options))
       = Some ''javascript_merge''
   \<and> method_name (fst (hybridSearch env_no_key ''ai'' no_fallback_options)) = None
   \<and> success (fst (hybridSearch env_no_key ''ai'' no_fallback_options)) = False"
proof -
  have e: "method_name (fst (hybridSearch env_no_key ''ai'' no_fallback_options)) = None"
    by code_simp
  with hybridSearch_method_values [of env_no_key "''ai''" no_fallback_options]
  have s: "success (fst (hybridSearch env_no_key ''ai'' no_fallback_options)) = False"
    by simp
  have "method_name (fst (hybridSearch env_no_key [] no_options)) = Some ''empty_query''"
    by code_simp
  moreover have "method_name (fst (hybridSearch env_no_key ''ai'' no_options))
       = Some ''document_search_fallback''"
    by code_simp
  moreover have "method_name (fst (hybridSearch env_nothing ''ai'' no_options))
       = Some ''no_results_found''"
    by code_simp
  moreover have "method_name (fst (hybridSearch env_title_and_vector ''ai'' no_options))
       = Some ''supabase_function''"
    by code_simp
  moreover have "method_name (fst (hybridSearch env_title_and_vector ''ai'' merge_options))
       = Some ''javascript_merge''"
    by code_simp
  ultimately show ?thesis
    using e s by blast
qed

section \<open>Properties of the search session\<close>

lemma fire_due_not_yet:
  assumes "\<forall>p \<in> set (timers h). now < fst (snd p)"
  shows "fire_due cfg now h = h"
proof -
  from assms have "filter (\<lambda>p. fst (snd p) \<le> now) (timers h) = []"
    by (auto simp: filter_empty_conv)
  then show ?thesis
    by (simp add: fire_due_def)
qed

lemma clear_debounce_no_timers: "timers h = [] \<Longrightarrow> clear_debounce h = h"
  by (cases "debounceTimeoutRef h") (simp_all add: clear_debounce_def clearTimeout_def)

lemma clear_debounce_one_pending:
  assumes "one_pending cfg h c"
  shows "timers (clear_debounce h) = []"
    and "performSearch_log (clear_debounce h) = performSearch_log h"
    and "searches (clear_debounce h) = searches h"
  using assms by (auto simp: one_pending_def clear_debounce_def clearTimeout_def)

lemma debouncedSearch_pending:
  assumes "timers (clear_debounce h) = []"
  shows "one_pending cfg (debouncedSearch cfg now q searchOptions h) (now, q, searchOptions)"
    and "performSearch_log (debouncedSearch cfg now q searchOptions h)
         = performSearch_log (clear_debounce h)"
    and "searches (debouncedSearch cfg now q searchOptions h) = searches (clear_debounce h)"
  using assms by (simp_all add: one_pending_def debouncedSearch_def Let_def)

lemma step_first_search:
  assumes "timers h = []"
  shows "one_pending cfg (step cfg h (now, Search q searchOptions)) (now, q, searchOptions)"
    and "performSearch_log (step cfg h (now, Search q searchOptions)) = performSearch_log h"
    and "searches (step cfg h (now, Search q searchOptions)) = searches h"
proof -
  from assms have f: "fire_due cfg now h = h"
    by (simp add: fire_due_not_yet)
  from assms have c: "timers (clear_debounce h) = []"
    by (simp add: clear_debounce_no_timers)
  show "one_pending cfg (step cfg h (now, Search q searchOptions)) (now, q, searchOptions)"
    using debouncedSearch_pending(1) [OF c] by (simp add: step_def f)
  show "performSearch_log (step cfg h (now, Search q searchOptions)) = performSearch_log h"
    using debouncedSearch_pending(2) [OF c] assms
    by (simp add: step_def f clear_debounce_no_timers)
  show "searches (step cfg h (now, Search q searchOptions)) = searches h"
    using debouncedSearch_pending(3) [OF c] assms
    by (simp add: step_def f clear_debounce_no_timers)
qed

lemma step_next_search:
  assumes "one_pending cfg h c" and "now < fst c + debounceMs cfg"
  shows "one_pending cfg (step cfg h (now, Search q searchOptions)) (now, q, searchOptions)"
    and "performSearch_log (step cfg h (now, Search q searchOptions)) = performSearch_log h"
    and "searches (step cfg h (now, Search q searchOptions)) = searches h"
proof -
  from assms have f: "fire_due cfg now h = h"
    by (auto simp: one_pending_def intro!: fire_due_not_yet)
  note c = clear_debounce_one_pending [OF assms(1)]
  show "one_pending cfg (step cfg h (now, Search q searchOptions)) (now, q, searchOptions)"
    using debouncedSearch_pending(1) [OF c(1)] by (simp add: step_def f)
  show "performSearch_log (step cfg h (now, Search q searchOptions)) = performSearch_log h"
    using debouncedSearch_pending(2) [OF c(1)] c(2) by (simp add: step_def f)
  show "searches (step cfg h (now, Search q searchOptions)) = searches h"
    using debouncedSearch_pending(3) [OF c(1)] c(3) by (simp add: step_def f)
qed

lemma run_Cons: "run cfg (te # evs) h = run cfg evs (step cfg h te)"
  by (simp add: run_def)

lemma run_append: "run cfg (evs @ evs') h = run cfg evs' (run cfg evs h)"
  by (simp add: run_def)

lemma burst_keeps_one_pending:
  assumes "one_pending cfg h c" and "within_window (debounceMs cfg) (c # cs)"
  shows "one_pending cfg (run cfg (search_events cs) h) (last (c # cs))
       \<and> performSearch_log (run cfg (search_events cs) h) = performSearch_log h
       \<and> searches (run cfg (search_events cs) h) = searches h"
  using assms
proof (induction cs arbitrary: h c)
  case Nil
  then show ?case
    by (simp add: search_events_def run_def)
next
  case (Cons c' cs)
  from Cons.prems(2) have lt: "fst c' < fst c + debounceMs cfg"
    and rest: "within_window (debounceMs cfg) (c' # cs)"
    by simp_all
  let ?h = "step cfg h (fst c', Search (fst (snd c')) (snd (snd c')))"
  have p: "one_pending cfg ?h c'"
    using step_next_search(1) [OF Cons.prems(1) lt, of "fst (snd c')" "snd (snd c')"]
    by simp
  have l: "performSearch_log ?h = performSearch_log h"
    by (rule step_next_search(2) [OF Cons.prems(1) lt])
  have s: "searches ?h = searches h"
    by (rule step_next_search(3) [OF Cons.prems(1) lt])
  from Cons.IH [OF p rest] l s show ?case
    by (simp add: search_events_def run_Cons)
qed

lemma burst_from_idle:
  assumes "timers h = []" and "calls \<noteq> []" and "within_window (debounceMs cfg) calls"
  shows "one_pending cfg (run cfg (search_events calls) h) (last calls)
       \<and> performSearch_log (run cfg (search_events calls) h) = performSearch_log h
       \<and> searches (run cfg (search_events calls) h) = searches h"
proof -
  from assms(2) obtain c cs where calls: "calls = c # cs"
    by (cases calls) auto
  let ?h = "step cfg h (fst c, Search (fst (snd c)) (snd (snd c)))"
  have p: "one_pending cfg ?h c"
    using step_first_search(1) [OF assms(1), of cfg "fst c" "fst (snd c)" "snd (snd c)"]
    by simp
  from burst_keeps_one_pending [OF p] assms(3) calls
  have "one_pending cfg (run cfg (search_events cs) ?h) (last (c # cs))
       \<and> performSearch_log (run cfg (search_events cs) ?h) = performSearch_log ?h
       \<and> searches (run cfg (search_events cs) ?h) = searches ?h"
    by simp
  then show ?thesis
    unfolding calls
    by (simp add: search_events_def run_Cons step_first_search(2,3) [OF assms(1)])
qed

lemma performSearch_begin_log:
  "performSearch_log (performSearch_begin cfg now q searchOptions h)
   = performSearch_log h @ [(q, searchOptions)]"
  by (simp add: performSearch_begin_def Let_def abort_current_def split: option.splits)

lemma performSearch_begin_searches:
  "searches (performSearch_begin cfg now q searchOptions h) =
     (if q = [] \<or> trim q = [] then searches h
      else searches h @ [\<lparr> att_query = q, att_startTime = now,
                           att_params = searchParams cfg searchOptions \<rparr>])"
  by (simp add: performSearch_begin_def Let_def abort_current_def split: option.splits)

lemma performSearch_begin_timers:
  "timers (performSearch_begin cfg now q searchOptions h) = timers h"
  by (simp add: performSearch_begin_def Let_def abort_current_def split: option.splits)

lemma idle_fires_pending:
  assumes "one_pending cfg h c" and "fst c + debounceMs cfg \<le> T"
  shows "step cfg h (T, Idle)
         = performSearch_begin cfg (fst c + debounceMs cfg) (fst (snd c)) (snd (snd c))
             (h\<lparr> timers := [] \<rparr>)"
proof -
  from assms(1) obtain t where t: "timers h = [(t, fst c + debounceMs cfg, fst (snd c), snd (snd c))]"
    by (auto simp: one_pending_def)
  with assms(2) show ?thesis
    by (simp add: step_def fire_due_def fire_def clearTimeout_def case_prod_beta)
qed

text \<open>
  Claim C8.  Take a burst of \<open>N \<ge> 1\<close> debounced \<^verbatim>\<open>search\<close> calls on a hook with no timeout
  pending, each less than \<open>debounceMs\<close> after the one before (300 ms in the default
  configuration), and let time pass until at least \<open>debounceMs\<close> after the last call.  During the burst no
  \<^verbatim>\<open>performSearch\<close> runs.  Afterwards exactly one has run, with the query text and the
  options of the last call; it issued the single \<^verbatim>\<open>hybridSearch\<close> call of the burst (none
  if that query is blank, which \<^verbatim>\<open>performSearch\<close> answers by clearing the results), and
  no timeout is left pending.
\<close>

theorem debounce_coalesces:
  assumes "timers h = []"
    and "calls \<noteq> []"
    and "within_window (debounceMs cfg) calls"
    and "fst (last calls) + debounceMs cfg \<le> T"
  shows "performSearch_log (run cfg (search_events calls) h) = performSearch_log h
       \<and> searches (run cfg (search_events calls) h) = searches h
       \<and> performSearch_log (run cfg (search_events calls @ [(T, Idle)]) h)
           = performSearch_log h @ [snd (last calls)]
       \<and> searches (run cfg (search_events calls @ [(T, Idle)]) h)
           = searches h @
             (if fst (snd (last calls)) = [] \<or> trim (fst (snd (last calls))) = [] then []
              else [\<lparr> att_query = fst (snd (last calls)),
                      att_startTime = fst (last calls) + debounceMs cfg,
                      att_params = searchParams cfg (snd (snd (last calls))) \<rparr>])
       \<and> timers (run cfg (search_events calls @ [(T, Idle)]) h) = []"
proof -
  let ?h = "run cfg (search_events calls) h"
  from burst_from_idle [OF assms(1,2,3)]
  have p: "one_pending cfg ?h (last calls)"
    and l: "performSearch_log ?h = performSearch_log h"
    and s: "searches ?h = searches h"
    by simp_all
  have fin: "run cfg (search_events calls @ [(T, Idle)]) h
             = performSearch_begin cfg (fst (last calls) + debounceMs cfg)
                 (fst (snd (last calls))) (snd (snd (last calls))) (?h\<lparr> timers := [] \<rparr>)"
    using idle_fires_pending [OF p assms(4)] by (simp add: run_append run_def)
  show ?thesis
    using l s
    by (simp add: fin performSearch_begin_log performSearch_begin_searches
        performSearch_begin_timers)
qed

theorem debounce_coalesces_witness:
  "timers init_hook = []
   \<and> [(0, ''a'', no_options), (100, ''ab'', no_options), (399, ''abc'', no_options)] \<noteq> []
   \<and> within_window (debounceMs default_config)
        [(0, ''a'', no_options), (100, ''ab'', no_options), (399, ''abc'', no_options)]
   \<and> debounceMs default_config = 300
   \<and> performSearch_log
        (run default_config
           (search_events
              [(0, ''a'', no_options), (100, ''ab'', no_options), (399, ''abc'', no_options)]
            @ [(699, Idle)]) init_hook)
       = [(''abc'', no_options)]
   \<and> map att_query
        (searches
          (run default_config
             (search_events
                [(0, ''a'', no_options), (100, ''ab'', no_options), (399, ''abc'', no_options)]
              @ [(699, Idle)]) init_hook))
       = [''abc'']"
proof -
  let ?calls = "[(0::nat, ''a'', no_options), (100, ''ab'', no_options), (399, ''abc'', no_options)]"
  have i: "timers init_hook = []"
    by (simp add: init_hook_def)
  have a: "?calls \<noteq> []"
    by simp
  have b: "within_window (debounceMs default_config) ?calls"
    by (simp add: default_config_def)
  have c: "fst (last ?calls) + debounceMs default_config \<le> 699"
    by (simp add: default_config_def)
  have d: "debounceMs default_config = 300"
    by (simp add: default_config_def)
  have nb: "trim ''abc'' \<noteq> []"
    by code_simp
  have l0: "performSearch_log init_hook = []" and s0: "searches init_hook = []"
    by (simp_all add: init_hook_def)
  from debounce_coalesces [OF i a b c] nb i a b d l0 s0 show ?thesis
    by simp
qed

text \<open>
  Claim C5 fails on the code.  \<^verbatim>\<open>alpha\<close> is submitted, then \<^verbatim>\<open>beta\<close> before \<^verbatim>\<open>alpha\<close>
  has resolved, which aborts the controller of \<^verbatim>\<open>alpha\<close> (number 0).  When \<^verbatim>\<open>beta\<close>
  resolves its outcome is published.  When \<^verbatim>\<open>alpha\<close> resolves afterwards, the check reads
  the controller in the ref at that moment (none, after the \<^verbatim>\<open>finally\<close> of \<^verbatim>\<open>beta\<close>),
  not the aborted controller of \<^verbatim>\<open>alpha\<close>: the superseded outcome is published over the
  one of \<^verbatim>\<open>beta\<close>, with its results, statistics and query text.
\<close>

theorem superseded_search_is_published:
  "controllers (run default_config (take 2 superseded_run) init_hook) = [True, False]
   \<and> searchQuery (run default_config (take 3 superseded_run) init_hook) = ''beta''
   \<and> searchResults (run default_config (take 3 superseded_run) init_hook)
       = formatSearchResults (results outcome_beta)
   \<and> searchQuery (run default_config superseded_run init_hook) = ''alpha''
   \<and> searchResults (run default_config superseded_run init_hook)
       = formatSearchResults (results outcome_alpha)
   \<and> stat_total (searchStats (run default_config superseded_run init_hook)) = 1
   \<and> searchError (run default_config superseded_run init_hook) = None"
  by code_simp

section \<open>Properties of \<^verbatim>\<open>weightedSearch\<close>\<close>

subsection \<open>Powers of two and the exponent\<close>

lemma pow2_powi: "pow2 e = 2 powi e"
  by (simp add: pow2_def power_int_def power_inverse [symmetric] inverse_eq_divide
      power_one_over)

lemma pow2_pos: "0 < pow2 e"
  by (simp add: pow2_powi)

lemma pow2_add: "pow2 (a + b) = pow2 a * pow2 b"
  by (simp add: pow2_powi power_int_add)

lemma pow2_mono: "a \<le> b \<Longrightarrow> pow2 a \<le> pow2 b"
  by (simp add: pow2_powi power_int_increasing)

lemma pow2_strict_mono: "a < b \<Longrightarrow> pow2 a < pow2 b"
  by (simp add: pow2_powi power_int_strict_increasing)

lemma pow2_nat: "pow2 (int n) = 2 ^ n"
  by (simp add: pow2_def)

lemma find_exponent_correct:
  assumes "pow2 lo \<le> x" and "x < pow2 hi" and "lo < hi" and "hi - lo \<le> 2 ^ fuel"
  shows "pow2 (find_exponent fuel x lo hi) \<le> x
       \<and> x < pow2 (find_exponent fuel x lo hi + 1)
       \<and> lo \<le> find_exponent fuel x lo hi \<and> find_exponent fuel x lo hi < hi"
  using assms
proof (induction fuel arbitrary: lo hi)
  case 0
  then have "hi = lo + 1" by simp
  with 0 show ?case by simp
next
  case (Suc fuel)
  show ?case
  proof (cases "hi \<le> lo + 1")
    case True
    with Suc.prems have "hi = lo + 1" by simp
    with Suc.prems show ?thesis by simp
  next
    case False
    define mid where "mid = (lo + hi) div 2"
    define w where "w = (2::int) ^ fuel"
    from Suc.prems(4) have width: "hi - lo \<le> 2 * w"
      by (simp add: w_def)
    from False have m: "lo < mid" "mid < hi"
      by (simp_all add: mid_def)
    from width have wl: "mid - lo \<le> w" and wh: "hi - mid \<le> w"
      unfolding mid_def by presburger+
    show ?thesis
    proof (cases "pow2 mid \<le> x")
      case True
      from Suc.IH [OF True Suc.prems(2) m(2)] wh
      have "pow2 (find_exponent fuel x mid hi) \<le> x
          \<and> x < pow2 (find_exponent fuel x mid hi + 1)
          \<and> mid \<le> find_exponent fuel x mid hi \<and> find_exponent fuel x mid hi < hi"
        by (simp add: w_def)
      with False True m show ?thesis
        by (simp add: mid_def [symmetric] Let_def)
    next
      case nle: False
      then have "x < pow2 mid" by simp
      from Suc.IH [OF Suc.prems(1) this m(1)] wl
      have "pow2 (find_exponent fuel x lo mid) \<le> x
          \<and> x < pow2 (find_exponent fuel x lo mid + 1)
          \<and> lo \<le> find_exponent fuel x lo mid \<and> find_exponent fuel x lo mid < mid"
        by (simp add: w_def)
      with False nle m show ?thesis
        by (simp add: mid_def [symmetric] Let_def)
    qed
  qed
qed

lemma double_exponent_correct:
  assumes "pow2 (- 1022) \<le> x" and "x < pow2 1024"
  shows "pow2 (double_exponent x) \<le> x" and "x < pow2 (double_exponent x + 1)"
    and "- 1022 \<le> double_exponent x" and "double_exponent x \<le> 1023"
proof -
  have "(1024::int) - (- 1022) \<le> 2 ^ 11" by simp
  from find_exponent_correct [OF assms _ this]
  have "pow2 (find_exponent 11 x (- 1022) 1024) \<le> x
       \<and> x < pow2 (find_exponent 11 x (- 1022) 1024 + 1)
       \<and> - 1022 \<le> find_exponent 11 x (- 1022) 1024
       \<and> find_exponent 11 x (- 1022) 1024 < 1024"
    by simp
  moreover from assms
  have "double_exponent x = find_exponent 11 x (- 1022) 1024"
    by (simp add: double_exponent_def)
  ultimately show "pow2 (double_exponent x) \<le> x" and "x < pow2 (double_exponent x + 1)"
    and "- 1022 \<le> double_exponent x" and "double_exponent x \<le> 1023"
    by simp_all
qed

lemma exponent_unique:
  assumes "pow2 e \<le> x" and "x < pow2 (e + 1)" and "pow2 e' \<le> x" and "x < pow2 (e' + 1)"
  shows "e = e'"
proof (rule ccontr)
  assume "e \<noteq> e'"
  then consider "e + 1 \<le> e'" | "e' + 1 \<le> e" by linarith
  then show False
  proof cases
    case 1
    then have "pow2 (e + 1) \<le> pow2 e'" by (rule pow2_mono)
    with assms show False by simp
  next
    case 2
    then have "pow2 (e' + 1) \<le> pow2 e" by (rule pow2_mono)
    with assms show False by simp
  qed
qed

lemma max_double_less: "max_double < pow2 1024"
  using pow2_pos [of 971] by (simp add: max_double_def)

lemma double_exponent_scale:
  assumes "0 < x" and "in_normal_range x" and "in_normal_range (pow2 n * x)"
  shows "double_exponent (pow2 n * x) = double_exponent x + n"
proof -
  from assms(1,2) have x: "pow2 (- 1022) \<le> x" "x < pow2 1024"
    using max_double_less by (simp_all add: in_normal_range_def)
  have kx: "0 < pow2 n * x"
    using assms(1) pow2_pos [of n] by simp
  with assms(3) have sx: "pow2 (- 1022) \<le> pow2 n * x" "pow2 n * x < pow2 1024"
    using max_double_less by (simp_all add: in_normal_range_def)
  let ?e = "double_exponent x"
  from double_exponent_correct(1,2) [OF x]
  have "pow2 n * pow2 ?e \<le> pow2 n * x" and "pow2 n * x < pow2 n * pow2 (?e + 1)"
    using pow2_pos [of n] by simp_all
  then have a: "pow2 (?e + n) \<le> pow2 n * x" and b: "pow2 n * x < pow2 (?e + n + 1)"
    by (simp_all add: pow2_add mult.commute mult.left_commute)
  from double_exponent_correct(1,2) [OF sx] a b
  show ?thesis
    by (rule exponent_unique)
qed

lemma round_half_even_lower: "\<lfloor>z\<rfloor> \<le> round_half_even z"
  by (simp add: round_half_even_def Let_def)

lemma round_half_even_upper: "round_half_even z \<le> \<lceil>z\<rceil>"
  by (auto simp add: round_half_even_def Let_def ceiling_altdef)

subsection \<open>Rounding in the normal range\<close>

text \<open>The magnitude of a rounded number of the normal range stays in the normal range or
  is \<open>2\<^sup>1\<^sup>0\<^sup>2\<^sup>4\<close> at most; up to the largest double there is no overflow.\<close>

lemma rounded_magnitude:
  assumes "0 < x" and "in_normal_range x"
  defines "ulp \<equiv> pow2 (double_exponent x - 52)"
  shows "pow2 (- 1022) \<le> of_int (round_half_even (x / ulp)) * ulp"
    and "of_int (round_half_even (x / ulp)) * ulp < pow2 1024"
proof -
  let ?e = "double_exponent x"
  let ?m = "round_half_even (x / ulp)"
  from assms(1,2) have x: "pow2 (- 1022) \<le> x" "x < pow2 1024" and xm: "x \<le> max_double"
    using max_double_less by (simp_all add: in_normal_range_def)
  note e = double_exponent_correct [OF x]
  have ulp: "0 < ulp"
    by (simp add: ulp_def pow2_pos)
  have p52: "pow2 52 = 2 ^ 52" and p53: "pow2 53 = 2 ^ 53"
    using pow2_nat [of 52] pow2_nat [of 53] by simp_all
  have "52 + (?e - 52) = ?e" and "53 + (?e - 52) = ?e + 1"
    by simp_all
  with pow2_add [of 52 "?e - 52"] pow2_add [of 53 "?e - 52"]
  have pe: "pow2 ?e = 2 ^ 52 * ulp" and pe1: "pow2 (?e + 1) = 2 ^ 53 * ulp"
    by (simp_all only: p52 p53 ulp_def)
  from e(1) ulp have "2 ^ 52 \<le> x / ulp"
    by (simp add: pe pos_le_divide_eq)
  then have "(2::int) ^ 52 \<le> \<lfloor>x / ulp\<rfloor>"
    by (simp add: le_floor_iff)
  with round_half_even_lower [of "x / ulp"] have lo: "(2::int) ^ 52 \<le> ?m"
    by linarith
  then have "(2::real) ^ 52 \<le> of_int ?m"
    by (metis of_int_le_iff of_int_numeral of_int_power)
  with ulp have "2 ^ 52 * ulp \<le> of_int ?m * ulp"
    by simp
  with pe have "pow2 ?e \<le> of_int ?m * ulp"
    by simp
  moreover from e(3) have "pow2 (- 1022) \<le> pow2 ?e"
    by (rule pow2_mono)
  ultimately show "pow2 (- 1022) \<le> of_int ?m * ulp"
    by simp
  show "of_int ?m * ulp < pow2 1024"
  proof (cases "?e \<le> 1022")
    case True
    from e(2) ulp have "x / ulp < 2 ^ 53"
      by (simp add: pe1 pos_divide_less_eq)
    then have "x / ulp \<le> of_int (2 ^ 53)"
      by simp
    then have "\<lceil>x / ulp\<rceil> \<le> 2 ^ 53"
      by (simp only: ceiling_le_iff)
    with round_half_even_upper [of "x / ulp"] have "?m \<le> 2 ^ 53"
      by linarith
    then have "of_int ?m \<le> (2::real) ^ 53"
      by (metis of_int_le_iff of_int_numeral of_int_power)
    with ulp have "of_int ?m * ulp \<le> 2 ^ 53 * ulp"
      by simp
    also have "\<dots> = pow2 (?e + 1)"
      by (simp add: pe1)
    also from True have "\<dots> \<le> pow2 1023"
      by (intro pow2_mono) simp
    also have "\<dots> < pow2 1024"
      by (intro pow2_strict_mono) simp
    finally show ?thesis .
  next
    case False
    with e(4) have e1023: "?e = 1023" by simp
    then have u: "ulp = pow2 971"
      by (simp add: ulp_def)
    have md: "max_double = (2 ^ 53 - 1) * ulp"
      using pow2_add [of 53 971] by (simp add: max_double_def u algebra_simps pow2_nat [of 53, simplified])
    from xm ulp have "x / ulp \<le> 2 ^ 53 - 1"
      by (simp add: md pos_divide_le_eq)
    then have "x / ulp \<le> of_int (2 ^ 53 - 1)"
      by simp
    then have "\<lceil>x / ulp\<rceil> \<le> 2 ^ 53 - 1"
      by (simp only: ceiling_le_iff)
    with round_half_even_upper [of "x / ulp"] have "?m \<le> 2 ^ 53 - 1"
      by linarith
    then have "of_int ?m \<le> (of_int (2 ^ 53 - 1) :: real)"
      by (simp only: of_int_le_iff)
    then have "of_int ?m \<le> (2::real) ^ 53 - 1"
      by simp
    with ulp have "of_int ?m * ulp \<le> (2 ^ 53 - 1) * ulp"
      by (simp only: mult_le_cancel_right_pos)
    also have "\<dots> = max_double"
      by (simp add: md)
    also have "\<dots> < pow2 1024"
      by (rule max_double_less)
    finally show ?thesis .
  qed
qed

lemma to_double_normal:
  assumes "in_normal_range x"
  shows "to_double x
         = Num (sgn x * (of_int (round_half_even (\<bar>x\<bar> / pow2 (double_exponent \<bar>x\<bar> - 52)))
                         * pow2 (double_exponent \<bar>x\<bar> - 52)))"
proof -
  from assms have nz: "x \<noteq> 0"
    using pow2_pos [of "- 1022"] by (auto simp add: in_normal_range_def)
  then have pos: "0 < \<bar>x\<bar>" by simp
  from assms have "in_normal_range \<bar>x\<bar>"
    by (simp add: in_normal_range_def)
  from rounded_magnitude(2) [OF pos this] nz show ?thesis
    by (simp add: to_double_def Let_def)
qed

lemma to_double_scale:
  assumes "in_normal_range x" and "in_normal_range (pow2 n * x)" and "to_double x = Num t"
  shows "to_double (pow2 n * x) = Num (pow2 n * t)"
proof -
  from assms(1) have nz: "x \<noteq> 0"
    using pow2_pos [of "- 1022"] by (auto simp add: in_normal_range_def)
  then have pos: "0 < \<bar>x\<bar>" by simp
  from assms(1) have nx: "in_normal_range \<bar>x\<bar>"
    by (simp add: in_normal_range_def)
  have ab: "\<bar>pow2 n * x\<bar> = pow2 n * \<bar>x\<bar>"
    using pow2_pos [of n] by (simp add: abs_mult)
  from assms(2) have nkx: "in_normal_range (pow2 n * \<bar>x\<bar>)"
    using pow2_pos [of n] by (simp add: in_normal_range_def abs_mult)
  let ?e = "double_exponent \<bar>x\<bar>"
  have ex: "double_exponent (pow2 n * \<bar>x\<bar>) = ?e + n"
    using pos nx nkx by (rule double_exponent_scale)
  have ulp: "pow2 (?e + n - 52) = pow2 n * pow2 (?e - 52)"
    using pow2_add [of n "?e - 52"] by (simp add: algebra_simps)
  have quot: "pow2 n * \<bar>x\<bar> / (pow2 n * pow2 (?e - 52)) = \<bar>x\<bar> / pow2 (?e - 52)"
    using pow2_pos [of n] by simp
  have sg: "sgn (pow2 n * x) = sgn x"
    using pow2_pos [of n] by (simp add: sgn_mult)
  from to_double_normal [OF assms(1)] assms(3)
  have t: "t = sgn x * (of_int (round_half_even (\<bar>x\<bar> / pow2 (?e - 52))) * pow2 (?e - 52))"
    by simp
  from to_double_normal [OF assms(2)]
  show ?thesis
    by (simp only: ab ex ulp quot sg t) (simp add: algebra_simps)
qed

lemma to_double_positive:
  assumes "0 < x" and "in_normal_range x"
  shows "\<exists>t. 0 < t \<and> to_double x = Num t"
proof -
  from assms(1) have a: "\<bar>x\<bar> = x" "sgn x = 1" by simp_all
  from rounded_magnitude(1) [OF assms] pow2_pos [of "- 1022"]
  have "0 < of_int (round_half_even (x / pow2 (double_exponent x - 52)))
              * pow2 (double_exponent x - 52)"
    by linarith
  with to_double_normal [OF assms(2)] show ?thesis
    by (simp add: a)
qed

lemma round_half_even_nonneg: "0 \<le> z \<Longrightarrow> 0 \<le> round_half_even z"
  using round_half_even_lower [of z] by (simp add: zero_le_floor [symmetric] del: zero_le_floor)

lemma to_double_nonpositive:
  assumes "x \<le> 0"
  shows "\<not> js_gt (to_double x) (Num 0)"
proof (cases "x = 0")
  case True
  then show ?thesis by (simp add: to_double_def)
next
  case False
  with assms have neg: "x < 0" by simp
  let ?ulp = "pow2 (double_exponent \<bar>x\<bar> - 52)"
  have "0 \<le> \<bar>x\<bar> / ?ulp"
    using pow2_pos [of "double_exponent \<bar>x\<bar> - 52"] by simp
  then have "0 \<le> round_half_even (\<bar>x\<bar> / ?ulp)"
    by (rule round_half_even_nonneg)
  then have "0 \<le> of_int (round_half_even (\<bar>x\<bar> / ?ulp)) * ?ulp"
    using pow2_pos [of "double_exponent \<bar>x\<bar> - 52"] by simp
  with neg show ?thesis
    by (simp add: to_double_def Let_def mult_le_0_iff)
qed

text \<open>Multiplying a double by a power of two is exact when it neither overflows nor
  underflows.\<close>

lemma js_mul_exact:
  assumes "is_double x" and "scales_exactly n x"
  shows "js_mul (Num (pow2 n)) (Num x) = Num (pow2 n * x)"
proof (cases "x = 0")
  case True
  then show ?thesis by (simp add: to_double_def)
next
  case False
  with assms(2) have "in_normal_range x" and "in_normal_range (pow2 n * x)"
    by (simp_all add: scales_exactly_def)
  moreover from assms(1) have "to_double x = Num x"
    by (simp add: is_double_def)
  ultimately have "to_double (pow2 n * x) = Num (pow2 n * x)"
    by (rule to_double_scale)
  then show ?thesis by simp
qed

lemma weightedSearch_call_default:
  assumes "a + b \<le> 0"
  shows "weightedSearch_call q (Num a) (Num b) opts = (q, opts, Num (1/2), Num (1/2))"
  using to_double_nonpositive [OF assms]
  by (simp add: weightedSearch_call_def Let_def)

lemma weightedSearch_call_normalized:
  assumes "to_double (a + b) = Num t" and "0 < t"
  shows "weightedSearch_call q (Num a) (Num b) opts
         = (q, opts, to_double (a / t), to_double (b / t))"
  using assms by (simp add: weightedSearch_call_def Let_def)

subsection \<open>Evaluation at numerals\<close>

text \<open>The facts that evaluate a rounding at a numeral.\<close>

lemma find_exponent_numeral:
  "find_exponent (numeral k) x lo hi =
     (if hi \<le> lo + 1 then lo
      else (let mid = (lo + hi) div 2
            in if pow2 mid \<le> x then find_exponent (pred_numeral k) x mid hi
               else find_exponent (pred_numeral k) x lo mid))"
  by (simp add: numeral_eq_Suc)

lemmas double_eval =
  to_double_def double_exponent_def pow2_def round_half_even_def Let_def find_exponent_numeral

lemma range_eval: "in_normal_range 7" "in_normal_range 3" "in_normal_range (7 + 3)"
  "in_normal_range (pow2 (- 3) * 7)" "in_normal_range (pow2 (- 3) * 3)"
  "in_normal_range (pow2 (- 3) * (7 + 3))"
  by (simp_all add: in_normal_range_def max_double_def pow2_def)

lemma doubles_eval: "is_double 7" "is_double 3" "is_double (pow2 (- 3))"
  by (simp_all add: is_double_def double_eval)

lemma plain_sum: "js_add (Num 7) (Num 3) = Num 10"
  by (simp add: double_eval)

lemma plain_fts: "js_div (Num 7) (Num 10) = Num (3152519739159347 / 4503599627370496)"
  by (simp add: double_eval)

lemma plain_vector: "js_div (Num 3) (Num 10) = Num (5404319552844595 / 18014398509481984)"
  by (simp add: double_eval)

lemma plain_call:
  "weightedSearch_call q (Num 7) (Num 3) opts
   = (q, opts, Num (3152519739159347 / 4503599627370496),
      Num (5404319552844595 / 18014398509481984))"
  unfolding weightedSearch_call_def Let_def plain_sum plain_fts plain_vector
  by simp

text \<open>The model agrees with well-known doubles: \<^verbatim>\<open>0.1\<close> is \<open>3602879701896397 / 2\<^sup>5\<^sup>5\<close>;
  \<^verbatim>\<open>0.1 * 7\<close> is \<^verbatim>\<open>0.7000000000000001\<close> and \<^verbatim>\<open>0.1 * 3\<close> is \<^verbatim>\<open>0.30000000000000004\<close>; their
  sum rounds to 1, so they are passed on as they are.  \<^verbatim>\<open>7 / 10\<close> and \<^verbatim>\<open>3 / 10\<close> are
  \<^verbatim>\<open>0.7\<close> and \<^verbatim>\<open>0.3\<close>, one unit in the last place below.\<close>

lemma to_double_tenth: "to_double (1/10) = Num (3602879701896397 / 36028797018963968)"
  by (simp add: double_eval)

lemma tenth_times_7:
  "js_mul (to_double (1/10)) (Num 7) = Num (6305039478318695 / 9007199254740992)"
  unfolding to_double_tenth by (simp add: double_eval)

lemma tenth_times_3:
  "js_mul (to_double (1/10)) (Num 3) = Num (1351079888211149 / 4503599627370496)"
  unfolding to_double_tenth by (simp add: double_eval)

lemma scaled_sum:
  "js_add (Num (6305039478318695 / 9007199254740992))
     (Num (1351079888211149 / 4503599627370496)) = Num 1"
  by (simp add: double_eval)

lemma scaled_fts: "js_div (Num (6305039478318695 / 9007199254740992)) (Num 1)
                   = Num (6305039478318695 / 9007199254740992)"
  by (simp add: double_eval)

lemma scaled_vector: "js_div (Num (1351079888211149 / 4503599627370496)) (Num 1)
                   = Num (1351079888211149 / 4503599627370496)"
  by (simp add: double_eval)

lemma scaled_call:
  "weightedSearch_call q (js_mul (to_double (1/10)) (Num 7))
     (js_mul (to_double (1/10)) (Num 3)) opts
   = (q, opts, Num (6305039478318695 / 9007199254740992),
      Num (1351079888211149 / 4503599627370496))"
  unfolding tenth_times_7 tenth_times_3 weightedSearch_call_def Let_def scaled_sum
    scaled_fts scaled_vector
  by simp

lemma huge_times_1: "js_mul (Num (pow2 1023)) (Num 1) = Num (pow2 1023)"
  by (simp add: double_eval)

lemma huge_sum: "js_add (Num (pow2 1023)) (Num (pow2 1023)) = PosInf"
  by (simp add: double_eval)

lemma huge_call:
  "weightedSearch_call q (js_mul (Num (pow2 1023)) (Num 1))
     (js_mul (Num (pow2 1023)) (Num 1)) opts
   = (q, opts, Num 0, Num 0)"
  unfolding huge_times_1 weightedSearch_call_def Let_def huge_sum
  by simp

lemma unit_sum: "js_add (Num 1) (Num 1) = Num 2"
  by (simp add: double_eval)

lemma unit_half: "js_div (Num 1) (Num 2) = Num (1/2)"
  by (simp add: double_eval)

lemma unit_call:
  "weightedSearch_call q (Num 1) (Num 1) opts = (q, opts, Num (1/2), Num (1/2))"
  unfolding weightedSearch_call_def Let_def unit_sum unit_half
  by simp

lemma tiny_times_3: "js_mul (Num (pow2 (- 1074))) (Num (3/4)) = Num (pow2 (- 1074))"
  by (simp add: double_eval)

lemma tiny_times_1: "js_mul (Num (pow2 (- 1074))) (Num (1/4)) = Num 0"
  by (simp add: double_eval)

lemma tiny_sum: "js_add (Num (pow2 (- 1074))) (Num 0) = Num (pow2 (- 1074))"
  by (simp add: double_eval)

lemma tiny_fts: "js_div (Num (pow2 (- 1074))) (Num (pow2 (- 1074))) = Num 1"
  by (simp add: double_eval)

lemma tiny_vector: "js_div (Num 0) (Num (pow2 (- 1074))) = Num 0"
  by (simp add: double_eval)

lemma tiny_call:
  "weightedSearch_call q (js_mul (Num (pow2 (- 1074))) (Num (3/4)))
     (js_mul (Num (pow2 (- 1074))) (Num (1/4))) opts
   = (q, opts, Num 1, Num 0)"
  unfolding tiny_times_3 tiny_times_1 weightedSearch_call_def Let_def tiny_sum tiny_fts
    tiny_vector
  by (simp add: pow2_pos)

lemma quarters_sum: "js_add (Num (3/4)) (Num (1/4)) = Num 1"
  by (simp add: double_eval)

lemma quarters_fts: "js_div (Num (3/4)) (Num 1) = Num (3/4)"
  by (simp add: double_eval)

lemma quarters_vector: "js_div (Num (1/4)) (Num 1) = Num (1/4)"
  by (simp add: double_eval)

lemma quarters_call:
  "weightedSearch_call q (Num (3/4)) (Num (1/4)) opts = (q, opts, Num (3/4), Num (1/4))"
  unfolding weightedSearch_call_def Let_def quarters_sum quarters_fts quarters_vector
  by simp

text \<open>
  Claim C10 as stated fails in JavaScript's arithmetic.
  \<^item> A scalar that is not a power of two: for the weights 7 and 3 and the scalar \<^verbatim>\<open>0.1\<close>,
    \<^verbatim>\<open>weightedSearch(q, 0.1 * 7, 0.1 * 3, options)\<close> calls \<^verbatim>\<open>hybridSearch\<close> with \<^verbatim>\<open>ftsWeight\<close>
    \<^verbatim>\<open>0.7000000000000001\<close>, and \<^verbatim>\<open>weightedSearch(q, 7, 3, options)\<close> with \<^verbatim>\<open>0.7\<close>.
  \<^item> Overflow: for the weights 1 and 1 and the scalar \<open>2\<^sup>1\<^sup>0\<^sup>2\<^sup>3\<close> the scaled sum is
    \<^verbatim>\<open>Infinity\<close> and both weights passed are 0, not 0.5.
  \<^item> Underflow: for the weights 0.75 and 0.25 and the scalar \<open>2\<^sup>-\<^sup>1\<^sup>0\<^sup>7\<^sup>4\<close> the scaled
    weights are \<open>2\<^sup>-\<^sup>1\<^sup>0\<^sup>7\<^sup>4\<close> and 0, and the weights passed are 1 and 0.
\<close>

theorem weightedSearch_not_scale_invariant:
  "js_gt (js_add (Num 7) (Num 3)) (Num 0) \<and> js_gt (to_double (1/10)) (Num 0)
   \<and> weightedSearch_call ''ai'' (Num 7) (Num 3) no_options
       = (''ai'', no_options, Num (3152519739159347 / 4503599627370496),
          Num (5404319552844595 / 18014398509481984))
   \<and> weightedSearch_call ''ai'' (js_mul (to_double (1/10)) (Num 7))
        (js_mul (to_double (1/10)) (Num 3)) no_options
       = (''ai'', no_options, Num (6305039478318695 / 9007199254740992),
          Num (1351079888211149 / 4503599627370496))
   \<and> weightedSearch_call ''ai'' (js_mul (to_double (1/10)) (Num 7))
        (js_mul (to_double (1/10)) (Num 3)) no_options
       \<noteq> weightedSearch_call ''ai'' (Num 7) (Num 3) no_options
   \<and> js_gt (js_add (Num 1) (Num 1)) (Num 0) \<and> js_gt (Num (pow2 1023)) (Num 0)
   \<and> weightedSearch_call ''ai'' (Num 1) (Num 1) no_options
       = (''ai'', no_options, Num (1/2), Num (1/2))
   \<and> weightedSearch_call ''ai'' (js_mul (Num (pow2 1023)) (Num 1))
        (js_mul (Num (pow2 1023)) (Num 1)) no_options
       = (''ai'', no_options, Num 0, Num 0)
   \<and> js_gt (js_add (Num (3/4)) (Num (1/4))) (Num 0) \<and> js_gt (Num (pow2 (- 1074))) (Num 0)
   \<and> weightedSearch_call ''ai'' (Num (3/4)) (Num (1/4)) no_options
       = (''ai'', no_options, Num (3/4), Num (1/4))
   \<and> weightedSearch_call ''ai'' (js_mul (Num (pow2 (- 1074))) (Num (3/4)))
        (js_mul (Num (pow2 (- 1074))) (Num (1/4))) no_options
       = (''ai'', no_options, Num 1, Num 0)"
proof -
  have p1: "js_gt (js_add (Num 7) (Num 3)) (Num 0)"
    unfolding plain_sum by simp
  have k1: "js_gt (to_double (1/10)) (Num 0)"
    by (simp add: to_double_tenth)
  have differ: "(6305039478318695 / 9007199254740992 :: real)
                \<noteq> 3152519739159347 / 4503599627370496"
    by simp
  have p2: "js_gt (js_add (Num 1) (Num 1)) (Num 0)"
    unfolding unit_sum by simp
  have k2: "js_gt (Num (pow2 1023)) (Num 0)"
    by (simp add: pow2_pos)
  have p3: "js_gt (js_add (Num (3/4)) (Num (1/4))) (Num 0)"
    unfolding quarters_sum by simp
  have k3: "js_gt (Num (pow2 (- 1074))) (Num 0)"
    by (simp add: pow2_pos)
  show ?thesis
    unfolding scaled_call plain_call huge_call unit_call tiny_call quarters_call
    using p1 k1 differ p2 k2 p3 k3 by simp
qed

text \<open>
  Claim C10, as amended.  \<^verbatim>\<open>weightedSearch\<close> is invariant under scaling its two weights by
  a power of two that neither overflows nor underflows: for doubles \<open>a\<close>, \<open>b\<close> and
  \<open>k = 2\<^sup>n\<close> such that each of \<open>a\<close> and \<open>b\<close> is 0 or stays in the normal range when
  multiplied by \<open>k\<close>, and \<open>a + b\<close> is not positive or stays in the normal range when
  multiplied by \<open>k\<close>, \<^verbatim>\<open>weightedSearch(q, k * a, k * b, options)\<close> issues the same
  \<^verbatim>\<open>hybridSearch\<close> call as \<^verbatim>\<open>weightedSearch(q, a, b, options)\<close>.  When \<open>a + b > 0\<close> the
  weights passed are the quotients of \<open>a\<close> and \<open>b\<close> by the sum \<open>t\<close> as the doubles have it,
  each rounded; when \<open>a + b \<le> 0\<close> both are 0.5.
\<close>

theorem weightedSearch_scale_invariant_power_of_two:
  assumes "is_double (pow2 n)" and "is_double a" and "is_double b"
    and "scales_exactly n a" and "scales_exactly n b"
    and "a + b \<le> 0 \<or> (in_normal_range (a + b) \<and> in_normal_range (pow2 n * (a + b)))"
  shows "weightedSearch_call q (js_mul (Num (pow2 n)) (Num a)) (js_mul (Num (pow2 n)) (Num b)) opts
           = weightedSearch_call q (Num a) (Num b) opts
       \<and> weightedSearch search q (js_mul (Num (pow2 n)) (Num a))
             (js_mul (Num (pow2 n)) (Num b)) opts
           = weightedSearch search q (Num a) (Num b) opts
       \<and> (0 < a + b \<longrightarrow>
            (\<exists>t. 0 < t \<and> js_add (Num a) (Num b) = Num t
               \<and> weightedSearch_call q (Num a) (Num b) opts
                   = (q, opts, js_div (Num a) (Num t), js_div (Num b) (Num t))))
       \<and> (a + b \<le> 0 \<longrightarrow>
            weightedSearch_call q (Num a) (Num b) opts = (q, opts, Num (1/2), Num (1/2)))"
proof -
  let ?k = "pow2 n"
  have k: "0 < ?k" by (rule pow2_pos)
  have ma: "js_mul (Num ?k) (Num a) = Num (?k * a)"
    using assms(2,4) by (rule js_mul_exact)
  have mb: "js_mul (Num ?k) (Num b) = Num (?k * b)"
    using assms(3,5) by (rule js_mul_exact)
  have sum: "?k * a + ?k * b = ?k * (a + b)"
    by (simp add: algebra_simps)
  have call: "weightedSearch_call q (Num (?k * a)) (Num (?k * b)) opts
              = weightedSearch_call q (Num a) (Num b) opts"
  proof (cases "a + b \<le> 0")
    case True
    with k have "?k * a + ?k * b \<le> 0"
      by (simp add: sum mult_le_0_iff)
    then have "weightedSearch_call q (Num (?k * a)) (Num (?k * b)) opts
               = (q, opts, Num (1/2), Num (1/2))"
      by (rule weightedSearch_call_default)
    with weightedSearch_call_default [OF True, where q = q and opts = opts] show ?thesis
      by simp
  next
    case False
    with assms(6) have nr: "in_normal_range (a + b)" "in_normal_range (?k * (a + b))"
      by simp_all
    from False have "0 < a + b" by simp
    from to_double_positive [OF this nr(1)] obtain t
      where t: "0 < t" "to_double (a + b) = Num t"
      by blast
    from nr t(2) have kt: "to_double (?k * (a + b)) = Num (?k * t)"
      by (rule to_double_scale)
    from k t(1) have pos: "0 < ?k * t" by simp
    have qa: "?k * a / (?k * t) = a / t" and qb: "?k * b / (?k * t) = b / t"
      using k by simp_all
    from kt have "to_double (?k * a + ?k * b) = Num (?k * t)"
      by (simp only: sum)
    from weightedSearch_call_normalized [OF this pos]
    have "weightedSearch_call q (Num (?k * a)) (Num (?k * b)) opts
          = (q, opts, to_double (a / t), to_double (b / t))"
      by (simp only: qa qb)
    with weightedSearch_call_normalized [OF t(2) t(1), where q = q and opts = opts]
    show ?thesis
      by simp
  qed
  have norm: "0 < a + b \<longrightarrow>
            (\<exists>t. 0 < t \<and> js_add (Num a) (Num b) = Num t
               \<and> weightedSearch_call q (Num a) (Num b) opts
                   = (q, opts, js_div (Num a) (Num t), js_div (Num b) (Num t)))"
  proof
    assume p: "0 < a + b"
    with assms(6) have "in_normal_range (a + b)" by simp
    from to_double_positive [OF p this] obtain t
      where t: "0 < t" "to_double (a + b) = Num t"
      by blast
    from weightedSearch_call_normalized [OF t(2) t(1), where q = q and opts = opts] t
    have "0 < t \<and> js_add (Num a) (Num b) = Num t
          \<and> weightedSearch_call q (Num a) (Num b) opts
              = (q, opts, js_div (Num a) (Num t), js_div (Num b) (Num t))"
      by simp
    then show "\<exists>t. 0 < t \<and> js_add (Num a) (Num b) = Num t
               \<and> weightedSearch_call q (Num a) (Num b) opts
                   = (q, opts, js_div (Num a) (Num t), js_div (Num b) (Num t))"
      by blast
  qed
  from call have "weightedSearch search q (Num (?k * a)) (Num (?k * b)) opts
                  = weightedSearch search q (Num a) (Num b) opts"
    by (simp add: weightedSearch_def)
  with call norm weightedSearch_call_default [of a b q opts] show ?thesis
    by (simp only: ma mb) blast
qed

theorem weightedSearch_scale_invariant_power_of_two_witness:
  "is_double (pow2 (- 3)) \<and> is_double 7 \<and> is_double 3
   \<and> scales_exactly (- 3) 7 \<and> scales_exactly (- 3) 3
   \<and> in_normal_range (7 + 3) \<and> in_normal_range (pow2 (- 3) * (7 + 3))
   \<and> (0::real) < 7 + 3
   \<and> weightedSearch_call ''ai'' (js_mul (Num (pow2 (- 3))) (Num 7))
        (js_mul (Num (pow2 (- 3))) (Num 3)) no_options
       = (''ai'', no_options, Num (3152519739159347 / 4503599627370496),
          Num (5404319552844595 / 18014398509481984))
   \<and> weightedSearch_call ''ai'' (Num 7) (Num 3) no_options
       = (''ai'', no_options, Num (3152519739159347 / 4503599627370496),
          Num (5404319552844595 / 18014398509481984))
   \<and> is_double 0 \<and> scales_exactly (- 3) 0 \<and> (0::real) + 0 \<le> 0
   \<and> weightedSearch_call ''ai'' (Num 0) (Num 0) no_options
       = (''ai'', no_options, Num (1/2), Num (1/2))"
proof -
  have d: "is_double (pow2 (- 3))" "is_double 7" "is_double 3"
    by (rule doubles_eval)+
  have s: "scales_exactly (- 3) 7" "scales_exactly (- 3) 3"
    by (simp_all add: scales_exactly_def range_eval)
  have r: "in_normal_range (7 + 3)" "in_normal_range (pow2 (- 3) * (7 + 3))"
    by (rule range_eval)+
  then have r': "(7::real) + 3 \<le> 0 \<or> (in_normal_range (7 + 3) \<and> in_normal_range (pow2 (- 3) * (7 + 3)))"
    by simp
  from weightedSearch_scale_invariant_power_of_two
         [OF d s r', where q = "''ai''" and opts = no_options
            and search = "\<lambda>q' opts' f v. (q', opts', f, v)"]
  have "weightedSearch_call ''ai'' (js_mul (Num (pow2 (- 3))) (Num 7))
        (js_mul (Num (pow2 (- 3))) (Num 3)) no_options
       = weightedSearch_call ''ai'' (Num 7) (Num 3) no_options"
    by (rule conjunct1)
  then have a: "weightedSearch_call ''ai'' (js_mul (Num (pow2 (- 3))) (Num 7))
        (js_mul (Num (pow2 (- 3))) (Num 3)) no_options
       = (''ai'', no_options, Num (3152519739159347 / 4503599627370496),
          Num (5404319552844595 / 18014398509481984))"
    by (simp only: plain_call)
  have z: "is_double 0" "scales_exactly (- 3) 0"
    by (simp_all add: is_double_def to_double_def scales_exactly_def)
  have z': "(0::real) + 0 \<le> 0 \<or> (in_normal_range (0 + 0) \<and> in_normal_range (pow2 (- 3) * (0 + 0)))"
    by simp
  from weightedSearch_scale_invariant_power_of_two
         [OF d(1) z(1) z(1) z(2) z(2) z', where q = "''ai''" and opts = no_options
            and search = "\<lambda>q' opts' f v. (q', opts', f, v)"]
  have c: "weightedSearch_call ''ai'' (Num 0) (Num 0) no_options
       = (''ai'', no_options, Num (1/2), Num (1/2))"
    by simp
  have p: "(0::real) < 7 + 3" by simp
  have zz: "(0::real) + 0 \<le> 0" by simp
  from d s r p a plain_call [of "''ai''" no_options] z zz c show ?thesis
    by blast
qed


end
